theory Spec2Isabelle
  imports Complex_Main
begin

section \<open>Bayesian Probabilistic Tensor Factorization: the data model\<close>

text \<open>
  The notebook \<^verbatim>\<open>imputer/BPTF.ipynb\<close> works on numpy arrays of floats. Here a
  three-way tensor is a list of lists of lists (\<open>T ! i ! j ! t\<close>), a matrix a list of
  rows, a vector a list. A float is a real number or NaN (\<open>fl\<close>): rounding and the
  infinities are left out, so the arithmetic below is exact. Arrays are rectangular and
  every axis has at least one entry (a nested list cannot tell a \<open>0 \<times> r\<close> from a
  \<open>0 \<times> r'\<close> array).

  What numpy and scipy raise is a value of \<open>error\<close>; a function that can raise
  returns \<open>error + 'a\<close>, with \<open>Inl\<close> for the exception.
\<close>

datatype error = LinAlgError | ValueError | IndexError

datatype fl = NaN | Fin real

type_synonym vec = "real list"
type_synonym mat = "real list list"
type_synonym ten = "real list list list"
type_synonym pos = "nat \<times> nat \<times> nat"

text \<open>Sequencing of calls that may raise: the first exception ends the computation.\<close>

definition and_then :: "error + 'a \<Rightarrow> ('a \<Rightarrow> error + 'b) \<Rightarrow> error + 'b" where
  "and_then m f = (case m of Inl e \<Rightarrow> Inl e | Inr x \<Rightarrow> f x)"

subsection \<open>Floats with NaN\<close>

text \<open>\<^verbatim>\<open>np.isnan(x)\<close>, \<^verbatim>\<open>x != 0\<close> and \<^verbatim>\<open>x == 0\<close>: every comparison with NaN is
  false, so \<^verbatim>\<open>NaN != 0\<close> is true.\<close>

fun isnan :: "fl \<Rightarrow> bool" where
  "isnan NaN = True"
| "isnan (Fin r) = False"

fun ne0 :: "fl \<Rightarrow> bool" where
  "ne0 NaN = True"
| "ne0 (Fin r) = (r \<noteq> 0)"

fun eq0 :: "fl \<Rightarrow> bool" where
  "eq0 NaN = False"
| "eq0 (Fin r) = (r = 0)"

text \<open>\<^verbatim>\<open>sparse_tensor[np.isnan(sparse_tensor)] = 0\<close>, entry by entry.\<close>

fun nan_to_zero :: "fl \<Rightarrow> fl" where
  "nan_to_zero NaN = Fin 0"
| "nan_to_zero (Fin r) = Fin r"

text \<open>The number a float stands for once the NaNs are gone.\<close>

fun fl_real :: "fl \<Rightarrow> real" where
  "fl_real NaN = 0"
| "fl_real (Fin r) = r"

subsection \<open>Shapes, positions and broadcasting\<close>

definition ncols :: "'a list list \<Rightarrow> nat" where
  "ncols M = (case M of [] \<Rightarrow> 0 | r # _ \<Rightarrow> length r)"

definition shape3 :: "'a list list list \<Rightarrow> nat \<times> nat \<times> nat" where
  "shape3 T = (length T, ncols T, (case T of [] \<Rightarrow> 0 | s # _ \<Rightarrow> ncols s))"

definition is_mat :: "nat \<Rightarrow> nat \<Rightarrow> 'a list list \<Rightarrow> bool" where
  "is_mat n r M = (length M = n \<and> list_all (\<lambda>row. length row = r) M)"

definition is_ten :: "nat \<times> nat \<times> nat \<Rightarrow> 'a list list list \<Rightarrow> bool" where
  "is_ten s T = (case s of (a, b, c) \<Rightarrow> length T = a \<and> list_all (is_mat b c) T)"

definition map3 :: "('a \<Rightarrow> 'b) \<Rightarrow> 'a list list list \<Rightarrow> 'b list list list" where
  "map3 f T = map (map (map f)) T"

definition at3 :: "'a list list list \<Rightarrow> pos \<Rightarrow> 'a" where
  "at3 T p = (case p of (i, j, t) \<Rightarrow> T ! i ! j ! t)"

definition in_shape :: "nat \<times> nat \<times> nat \<Rightarrow> pos \<Rightarrow> bool" where
  "in_shape s p = (case s of (a, b, c) \<Rightarrow> case p of (i, j, t) \<Rightarrow> i < a \<and> j < b \<and> t < c)"

text \<open>All positions of a shape in row-major order, the order of \<^verbatim>\<open>np.where\<close>.\<close>

definition indices3 :: "nat \<times> nat \<times> nat \<Rightarrow> pos list" where
  "indices3 s = (case s of (a, b, c) \<Rightarrow>
     concat (map (\<lambda>i. concat (map (\<lambda>j. map (\<lambda>t. (i, j, t)) [0..<c]) [0..<b])) [0..<a]))"

text \<open>numpy's broadcasting of two arrays with three axes each: sizes agree axis by
  axis, or one of them is 1 and that array is repeated along the axis.\<close>

definition bdim :: "nat \<Rightarrow> nat \<Rightarrow> error + nat" where
  "bdim a b = (if a = b then Inr a else if a = 1 then Inr b else if b = 1 then Inr a
               else Inl ValueError)"

definition broadcast_shapes :: "nat \<times> nat \<times> nat \<Rightarrow> nat \<times> nat \<times> nat \<Rightarrow> error + (nat \<times> nat \<times> nat)" where
  "broadcast_shapes s1 s2 = (case s1 of (a1, b1, c1) \<Rightarrow> case s2 of (a2, b2, c2) \<Rightarrow>
     and_then (bdim a1 a2) (\<lambda>a. and_then (bdim b1 b2) (\<lambda>b. and_then (bdim c1 c2) (\<lambda>c.
       Inr (a, b, c)))))"

definition bidx :: "nat \<Rightarrow> nat \<Rightarrow> nat" where
  "bidx n i = (if n = 1 then 0 else i)"

definition bat3 :: "'a list list list \<Rightarrow> pos \<Rightarrow> 'a" where
  "bat3 T p = (case shape3 T of (a, b, c) \<Rightarrow> case p of (i, j, t) \<Rightarrow>
     T ! bidx a i ! bidx b j ! bidx c t)"

text \<open>\<^verbatim>\<open>np.where(mask)\<close> for a mask given by its value at each position of the
  (broadcast) shape: the positions where it holds. numpy returns one index array per
  axis; the model keeps the list of index triples.\<close>

definition where3 :: "nat \<times> nat \<times> nat \<Rightarrow> (pos \<Rightarrow> bool) \<Rightarrow> pos list" where
  "where3 s cond = filter cond (indices3 s)"

text \<open>\<^verbatim>\<open>tensor[pos]\<close> with index arrays: IndexError when an index is out of bounds.\<close>

definition take_pos :: "'a list list list \<Rightarrow> pos list \<Rightarrow> error + 'a list" where
  "take_pos T ps = (if list_all (in_shape (shape3 T)) ps then Inr (map (at3 T) ps)
                    else Inl IndexError)"

definition has_nan :: "fl list list list \<Rightarrow> bool" where
  "has_nan T = list_ex (list_ex (list_ex isnan)) T"

subsection \<open>The caller's arrays\<close>

text \<open>
  Python passes arrays by reference and BPTF writes into the arrays it is given. The
  store maps a reference to the array it holds: the two tensors (floats, NaN allowed)
  and the factor matrices. Two references may be equal (the caller passed one array
  twice). Arrays that a function creates itself are plain values.
\<close>

record store =
  tens :: "nat \<Rightarrow> fl list list list"
  mats :: "nat \<Rightarrow> mat"

text \<open>The dictionary \<^verbatim>\<open>init\<close> with its keys "U", "V", "X".\<close>

record init =
  init_U :: nat
  init_V :: nat
  init_X :: nat

subsection \<open>The start of BPTF: mask and held-out positions\<close>

text \<open>
  \<^verbatim>\<open>
    dim = np.array(sparse_tensor.shape)
    U = init["U"]; V = init["V"]; X = init["X"]
    if np.isnan(sparse_tensor).any() == False:
        ind = sparse_tensor != 0
        pos_obs = np.where(ind)
        pos_test = np.where((dense_tensor != 0) & (sparse_tensor == 0))
    elif np.isnan(sparse_tensor).any() == True:
        pos_test = np.where((dense_tensor != 0) & (np.isnan(sparse_tensor)))
        ind = ~np.isnan(sparse_tensor)
        pos_obs = np.where(ind)
        sparse_tensor[np.isnan(sparse_tensor)] = 0
    dense_test = dense_tensor[pos_test]
  \<close>
  The comparison of the two tensors broadcasts (ValueError when the shapes do not
  allow it); \<^verbatim>\<open>pos_obs\<close> is never read again.
\<close>

record prepared =
  s_store :: store
  s_sparse :: nat
  s_U :: nat
  s_V :: nat
  s_X :: nat
  s_dim :: "nat \<times> nat \<times> nat"
  s_ind :: "bool list list list"
  s_pos_test :: "pos list"
  s_dense_test :: "fl list"

definition BPTF_setup :: "store \<Rightarrow> nat \<Rightarrow> nat \<Rightarrow> init \<Rightarrow> error + prepared" where
  "BPTF_setup st dense_tensor sparse_tensor ini =
    (let dense = tens st dense_tensor; sparse = tens st sparse_tensor in
     and_then (broadcast_shapes (shape3 dense) (shape3 sparse)) (\<lambda>bs.
       let (ind, pos_test, st') =
         (if \<not> has_nan sparse then
            (map3 ne0 sparse,
             where3 bs (\<lambda>p. ne0 (bat3 dense p) \<and> eq0 (bat3 sparse p)),
             st)
          else
            (map3 (\<lambda>x. \<not> isnan x) sparse,
             where3 bs (\<lambda>p. ne0 (bat3 dense p) \<and> isnan (bat3 sparse p)),
             st\<lparr>tens := (tens st)(sparse_tensor := map3 nan_to_zero sparse)\<rparr>))
       in and_then (take_pos (tens st' dense_tensor) pos_test) (\<lambda>dense_test.
            Inr \<lparr>s_store = st', s_sparse = sparse_tensor, s_U = init_U ini, s_V = init_V ini, s_X = init_X ini,
                 s_dim = shape3 sparse, s_ind = ind, s_pos_test = pos_test,
                 s_dense_test = dense_test\<rparr>)))"

section \<open>numpy, scipy and the random number generator\<close>

text \<open>
  The notebook imports its linear algebra and its random draws from numpy and scipy.
  They are parameters of the model. The random generator is numpy's global one: a draw
  takes the generator's state \<open>'g\<close> and returns the next state.
  \<^item> \<open>normrnd n\<close>: \<^verbatim>\<open>numpy.random.normal(size = (n,))\<close>;
  \<^item> \<open>wishart_rvs df scale\<close>: \<^verbatim>\<open>scipy.stats.wishart.rvs(df, scale)\<close>;
  \<^item> \<open>random_gamma shape scale\<close>: \<^verbatim>\<open>numpy.random.gamma(shape, scale)\<close>;
  \<^item> \<open>inv_mat\<close>, \<open>solve\<close>: \<^verbatim>\<open>numpy.linalg.inv\<close>, \<^verbatim>\<open>numpy.linalg.solve\<close>;
  \<^item> \<open>cholesky_upper\<close>: \<^verbatim>\<open>scipy.linalg.cholesky\<close> (upper factor);
  \<^item> \<open>solve_ut a b\<close>: \<^verbatim>\<open>scipy.linalg.solve_triangular(a, b, lower = False)\<close>.
  Each returns an array of the shape its documentation gives (a draw or an inverse has
  the shape of the scale or matrix, a solution the length of the right-hand side) or
  raises. scipy returns a Wishart draw for a \<open>1 \<times> 1\<close> scale as a scalar, which is not
  a matrix: the model is about rank 2 and more.
\<close>

record 'g numlib =
  normrnd :: "nat \<Rightarrow> 'g \<Rightarrow> vec \<times> 'g"
  wishart_rvs :: "nat \<Rightarrow> mat \<Rightarrow> 'g \<Rightarrow> error + (mat \<times> 'g)"
  random_gamma :: "real \<Rightarrow> real \<Rightarrow> 'g \<Rightarrow> real \<times> 'g"
  inv_mat :: "mat \<Rightarrow> error + mat"
  solve :: "mat \<Rightarrow> vec \<Rightarrow> error + vec"
  cholesky_upper :: "mat \<Rightarrow> error + mat"
  solve_ut :: "mat \<Rightarrow> vec \<Rightarrow> error + vec"

subsection \<open>Array arithmetic\<close>

definition vadd :: "vec \<Rightarrow> vec \<Rightarrow> vec" where
  "vadd a b = map2 (+) a b"

definition smult :: "real \<Rightarrow> vec \<Rightarrow> vec" where
  "smult c v = map (\<lambda>x. c * x) v"

definition sdiv :: "vec \<Rightarrow> real \<Rightarrow> vec" where
  "sdiv v c = map (\<lambda>x. x / c) v"

definition madd :: "mat \<Rightarrow> mat \<Rightarrow> mat" where
  "madd A B = map2 (map2 (+)) A B"

definition msub :: "mat \<Rightarrow> mat \<Rightarrow> mat" where
  "msub A B = map2 (map2 (-)) A B"

definition msmult :: "real \<Rightarrow> mat \<Rightarrow> mat" where
  "msmult c A = map (map (\<lambda>x. c * x)) A"

definition msdiv :: "mat \<Rightarrow> real \<Rightarrow> mat" where
  "msdiv A c = map (map (\<lambda>x. x / c)) A"

definition eye :: "nat \<Rightarrow> mat" where
  "eye r = map (\<lambda>i. map (\<lambda>j. if i = j then 1 else 0) [0..<r]) [0..<r]"

definition outer :: "vec \<Rightarrow> vec \<Rightarrow> mat" where
  "outer a b = map (\<lambda>x. map (\<lambda>y. x * y) b) a"

definition dot :: "vec \<Rightarrow> vec \<Rightarrow> real" where
  "dot a b = sum_list (map2 (*) a b)"

definition matvec :: "mat \<Rightarrow> vec \<Rightarrow> vec" where
  "matvec A v = map (\<lambda>row. dot row v) A"

definition column :: "mat \<Rightarrow> nat \<Rightarrow> vec" where
  "column A j = map (\<lambda>row. row ! j) A"

definition transpose_mat :: "mat \<Rightarrow> mat" where
  "transpose_mat A = map (column A) [0..<ncols A]"

text \<open>\<^verbatim>\<open>D.T @ D\<close> for a matrix \<open>D\<close> with \<open>r\<close> columns (\<open>r \<times> r\<close> zeros when \<open>D\<close> has no
  row: the slice \<^verbatim>\<open>X[1 :, :]\<close> of a one-row \<open>X\<close>).\<close>

definition gram :: "nat \<Rightarrow> mat \<Rightarrow> mat" where
  "gram r D = map (\<lambda>s. map (\<lambda>s'. sum_list (map (\<lambda>row. row ! s * row ! s') D)) [0..<r]) [0..<r]"

text \<open>\<^verbatim>\<open>A @ B\<close>: ValueError unless the columns of \<open>A\<close> are as many as the rows of \<open>B\<close>.\<close>

definition mprod :: "mat \<Rightarrow> mat \<Rightarrow> mat" where
  "mprod A B = map (\<lambda>row. map (\<lambda>j. dot row (column B j)) [0..<ncols B]) A"

definition matmul :: "mat \<Rightarrow> mat \<Rightarrow> error + mat" where
  "matmul A B = (if ncols A = length B then Inr (mprod A B) else Inl ValueError)"

text \<open>\<^verbatim>\<open>scipy.linalg.khatri_rao(A, B)\<close>: row \<open>i * length B + j\<close> is the entry-wise
  product of row \<open>i\<close> of \<open>A\<close> and row \<open>j\<close> of \<open>B\<close>; ValueError unless both have the same
  number of columns.\<close>

definition kr_prod :: "mat \<Rightarrow> mat \<Rightarrow> error + mat" where
  "kr_prod A B = (if ncols A = ncols B
     then Inr (concat (map (\<lambda>a. map (\<lambda>b. map2 (*) a b) B) A))
     else Inl ValueError)"

text \<open>\<^verbatim>\<open>M.reshape([a, b, c])\<close> in row-major order: ValueError unless the sizes agree.\<close>

definition reshape3 :: "mat \<Rightarrow> nat \<times> nat \<times> nat \<Rightarrow> error + ten" where
  "reshape3 M s = (case s of (a, b, c) \<Rightarrow>
     if length (concat M) = a * b * c
     then Inr (map (\<lambda>i. map (\<lambda>j. map (\<lambda>k. concat M ! ((i * b + j) * c + k)) [0..<c]) [0..<b]) [0..<a])
     else Inl ValueError)"

text \<open>\<^verbatim>\<open>T + Lam[:, :, None]\<close> and \<^verbatim>\<open>T[:, :, i]\<close>.\<close>

definition add_last :: "ten \<Rightarrow> mat \<Rightarrow> ten" where
  "add_last T Lam = map2 (map2 (\<lambda>xs l. map (\<lambda>x. x + l) xs)) T Lam"

definition slice3 :: "ten \<Rightarrow> nat \<Rightarrow> mat" where
  "slice3 T i = map (map (\<lambda>xs. xs ! i)) T"

text \<open>\<^verbatim>\<open>M + v[:, None]\<close> with numpy's broadcasting: the rows of \<open>M\<close> are as many as
  the entries of \<open>v\<close>, or one of the two is 1.\<close>

definition add_colvec :: "mat \<Rightarrow> vec \<Rightarrow> error + mat" where
  "add_colvec M v =
     (if length M = length v then Inr (map2 (\<lambda>row x. map (\<lambda>y. y + x) row) M v)
      else if length v = 1 then Inr (map (map (\<lambda>y. y + hd v)) M)
      else if length M = 1 then Inr (map (\<lambda>x. map (\<lambda>y. y + x) (hd M)) v)
      else Inl ValueError)"

text \<open>\<^verbatim>\<open>a + b\<close> for two vectors, with broadcasting.\<close>

definition vec_add :: "vec \<Rightarrow> vec \<Rightarrow> error + vec" where
  "vec_add a b =
     (if length a = length b then Inr (vadd a b)
      else if length b = 1 then Inr (map (\<lambda>x. x + hd b) a)
      else if length a = 1 then Inr (map (\<lambda>y. hd a + y) b)
      else Inl ValueError)"

text \<open>\<^verbatim>\<open>M[:, i]\<close> and \<^verbatim>\<open>M[t, :]\<close> for an index that is not negative: IndexError when
  it is out of bounds.\<close>

definition getcol :: "mat \<Rightarrow> nat \<Rightarrow> error + vec" where
  "getcol M i = (if i < ncols M then Inr (column M i) else Inl IndexError)"

definition getrow :: "mat \<Rightarrow> nat \<Rightarrow> error + vec" where
  "getrow M t = (if t < length M then Inr (M ! t) else Inl IndexError)"

text \<open>\<^verbatim>\<open>np.mean(F, axis = 0)\<close>.\<close>

definition col_mean :: "mat \<Rightarrow> vec" where
  "col_mean F = map (\<lambda>s. sum_list (column F s) / real (length F)) [0..<ncols F]"

subsection \<open>The helpers of the notebook\<close>

text \<open>
  \<^verbatim>\<open>
  def mvnrnd_pre(mu, Lambda):
      src = normrnd(size = (mu.shape[0],))
      return solve_ut(cholesky_upper(Lambda, overwrite_a = True, check_finite = False),
                      src, lower = False, check_finite = False, overwrite_b = True) + mu
  \<close>
  Every caller passes a \<^verbatim>\<open>Lambda\<close> that it does not read again (a fresh sum, or a
  matrix last used as an argument of this call), so what \<^verbatim>\<open>overwrite_a\<close> may do to
  it is not seen.
\<close>

definition mvnrnd_pre :: "'g numlib \<Rightarrow> vec \<Rightarrow> mat \<Rightarrow> 'g \<Rightarrow> error + (vec \<times> 'g)" where
  "mvnrnd_pre L mu Lambda g =
     (case normrnd L (length mu) g of (src, g') \<Rightarrow>
        and_then (cholesky_upper L Lambda) (\<lambda>C.
        and_then (solve_ut L C src) (\<lambda>y.
        and_then (vec_add y mu) (\<lambda>x. Inr (x, g')))))"

text \<open>
  \<^verbatim>\<open>
  def cov_mat(mat, mat_bar):
      mat = mat - mat_bar
      return mat.T @ mat
  \<close>
\<close>

definition cov_mat :: "mat \<Rightarrow> vec \<Rightarrow> mat" where
  "cov_mat F F_bar = gram (ncols F) (map (\<lambda>row. map2 (-) row F_bar) F)"

text \<open>
  \<^verbatim>\<open>
  def ten2mat(tensor, mode):
      return np.reshape(np.moveaxis(tensor, mode, 0), (tensor.shape[mode], -1), order = 'F')
  \<close>
  In column-major order the first of the two remaining axes runs fastest: the unfolding
  along mode 0 has \<open>T[i, j, t]\<close> in row \<open>i\<close>, column \<open>t * d2 + j\<close>; along mode 1 in row
  \<open>j\<close>, column \<open>t * d1 + i\<close>; along mode 2 in row \<open>t\<close>, column \<open>j * d1 + i\<close>. numpy
  refuses a mode that is not an axis.
\<close>

definition ten2mat :: "ten \<Rightarrow> nat \<Rightarrow> error + mat" where
  "ten2mat T mode = (case shape3 T of (d1, d2, d3) \<Rightarrow>
     if mode = 0 then
       Inr (map (\<lambda>i. concat (map (\<lambda>t. map (\<lambda>j. T ! i ! j ! t) [0..<d2]) [0..<d3])) [0..<d1])
     else if mode = 1 then
       Inr (map (\<lambda>j. concat (map (\<lambda>t. map (\<lambda>i. T ! i ! j ! t) [0..<d1]) [0..<d3])) [0..<d2])
     else if mode = 2 then
       Inr (map (\<lambda>t. concat (map (\<lambda>j. map (\<lambda>i. T ! i ! j ! t) [0..<d1]) [0..<d2])) [0..<d3])
     else Inl ValueError)"

section \<open>The factor samplers\<close>

text \<open>
  The factor matrices live in the store: a sampler reads them there and writes each new
  row there (\<^verbatim>\<open>U[i, :] = ...\<close>). It returns the array it was given, so the caller's
  \<^verbatim>\<open>U = sample_factor_u(...)\<close> binds \<open>U\<close> to the same reference again; the model
  returns the store and the generator's state.
\<close>

type_synonym 'g world = "(nat \<Rightarrow> mat) \<times> 'g"

subsection \<open>The two entity factors\<close>

text \<open>
  \<^verbatim>\<open>
  def sample_factor_u(tau_sparse_tensor, tau_ind, U, V, X, beta0 = 1):
      dim1, rank = U.shape
      U_bar = np.mean(U, axis = 0)
      temp = dim1 / (dim1 + beta0)
      var_mu_hyper = temp * U_bar
      var_U_hyper = inv(np.eye(rank) + cov_mat(U, U_bar) + temp * beta0 * np.outer(U_bar, U_bar))
      var_Lambda_hyper = wishart.rvs(df = dim1 + rank, scale = var_U_hyper)
      var_mu_hyper = mvnrnd_pre(var_mu_hyper, (dim1 + beta0) * var_Lambda_hyper)

      var1 = kr_prod(X, V).T
      var2 = kr_prod(var1, var1)
      var3 = (var2 @ ten2mat(tau_ind, 0).T).reshape([rank, rank, dim1]) + var_Lambda_hyper[:, :, None]
      var4 = var1 @ ten2mat(tau_sparse_tensor, 0).T + (var_Lambda_hyper @ var_mu_hyper)[:, None]
      for i in range(dim1):
          U[i, :] = mvnrnd_pre(solve(var3[:, :, i], var4[:, i]), var3[:, :, i])
      return U
  \<close>
  \<^verbatim>\<open>sample_factor_v\<close> is the same text with \<open>V\<close> for \<open>U\<close>, \<^verbatim>\<open>kr_prod(X, U)\<close> for
  \<^verbatim>\<open>kr_prod(X, V)\<close> and mode 1 for mode 0. The model writes the text once, for a
  factor \<open>F\<close> and the two matrices \<open>A\<close>, \<open>B\<close> of \<^verbatim>\<open>kr_prod(A, B)\<close>: the first seven
  lines are \<open>factor_hyper\<close>, the loop is \<open>row_loop\<close>.
\<close>

definition factor_hyper :: "'g numlib \<Rightarrow> mat \<Rightarrow> nat \<Rightarrow> 'g \<Rightarrow> error + (vec \<times> mat \<times> 'g)" where
  "factor_hyper L F beta0 g =
     (let dim1 = length F; rank = ncols F;
          F_bar = col_mean F;
          temp = real dim1 / (real dim1 + real beta0);
          var_mu_hyper = smult temp F_bar
      in and_then (inv_mat L (madd (madd (eye rank) (cov_mat F F_bar))
                                   (msmult (temp * real beta0) (outer F_bar F_bar))))
           (\<lambda>var_F_hyper.
         and_then (wishart_rvs L (dim1 + rank) var_F_hyper g)
           (\<lambda>(var_Lambda_hyper, g1).
         and_then (mvnrnd_pre L var_mu_hyper
                     (msmult (real dim1 + real beta0) var_Lambda_hyper) g1)
           (\<lambda>(mu, g2). Inr (mu, var_Lambda_hyper, g2)))))"

fun row_loop :: "'g numlib \<Rightarrow> ten \<Rightarrow> mat \<Rightarrow> nat \<Rightarrow> nat list \<Rightarrow> 'g world \<Rightarrow> error + 'g world" where
  "row_loop L var3 var4 f [] w = Inr w"
| "row_loop L var3 var4 f (i # rest) w = (case w of (m, g) \<Rightarrow>
     and_then (getcol var4 i) (\<lambda>b.
     and_then (solve L (slice3 var3 i) b) (\<lambda>mean.
     and_then (mvnrnd_pre L mean (slice3 var3 i) g) (\<lambda>(row, g').
     row_loop L var3 var4 f rest (m(f := (m f)[i := row]), g')))))"

text \<open>The statements before the loop (\<open>entity_prepare\<close>: they read the factor matrices
  in the store and give \<^verbatim>\<open>var3\<close>, \<^verbatim>\<open>var4\<close>), then the loop over the rows.\<close>

definition entity_prepare ::
  "'g numlib \<Rightarrow> nat \<Rightarrow> ten \<Rightarrow> ten \<Rightarrow> mat \<Rightarrow> mat \<Rightarrow> mat \<Rightarrow> nat \<Rightarrow> 'g \<Rightarrow> error + (ten \<times> mat \<times> 'g)" where
  "entity_prepare L mode tau_sparse_tensor tau_ind F A B beta0 g =
     (let dim1 = length F; rank = ncols F in
     and_then (factor_hyper L F beta0 g) (\<lambda>(var_mu_hyper, var_Lambda_hyper, g2).
     and_then (kr_prod A B) (\<lambda>kr. let var1 = transpose_mat kr in
     and_then (kr_prod var1 var1) (\<lambda>var2.
     and_then (ten2mat tau_ind mode) (\<lambda>ti.
     and_then (matmul var2 (transpose_mat ti)) (\<lambda>p.
     and_then (reshape3 p (rank, rank, dim1)) (\<lambda>p3.
       let var3 = add_last p3 var_Lambda_hyper in
     and_then (ten2mat tau_sparse_tensor mode) (\<lambda>ts.
     and_then (matmul var1 (transpose_mat ts)) (\<lambda>q.
     and_then (add_colvec q (matvec var_Lambda_hyper var_mu_hyper)) (\<lambda>var4.
     Inr (var3, var4, g2)))))))))))"

definition sample_entity ::
  "'g numlib \<Rightarrow> nat \<Rightarrow> ten \<Rightarrow> ten \<Rightarrow> nat \<Rightarrow> nat \<Rightarrow> nat \<Rightarrow> nat \<Rightarrow> 'g world \<Rightarrow> error + 'g world" where
  "sample_entity L mode tau_sparse_tensor tau_ind f a b beta0 w = (case w of (m, g) \<Rightarrow>
     and_then (entity_prepare L mode tau_sparse_tensor tau_ind (m f) (m a) (m b) beta0 g)
       (\<lambda>(var3, var4, g2). row_loop L var3 var4 f [0..<length (m f)] (m, g2)))"

definition sample_factor_u ::
  "'g numlib \<Rightarrow> ten \<Rightarrow> ten \<Rightarrow> nat \<Rightarrow> nat \<Rightarrow> nat \<Rightarrow> nat \<Rightarrow> 'g world \<Rightarrow> error + 'g world" where
  "sample_factor_u L tau_sparse_tensor tau_ind U V X beta0 w =
     sample_entity L 0 tau_sparse_tensor tau_ind U X V beta0 w"

definition sample_factor_v ::
  "'g numlib \<Rightarrow> ten \<Rightarrow> ten \<Rightarrow> nat \<Rightarrow> nat \<Rightarrow> nat \<Rightarrow> nat \<Rightarrow> 'g world \<Rightarrow> error + 'g world" where
  "sample_factor_v L tau_sparse_tensor tau_ind U V X beta0 w =
     sample_entity L 1 tau_sparse_tensor tau_ind V X U beta0 w"

subsection \<open>The temporal factor\<close>

text \<open>
  \<^verbatim>\<open>
  def sample_factor_x(tau_sparse_tensor, tau_ind, U, V, X, beta0 = 1):
      dim3, rank = X.shape
      var_mu_hyper = X[0, :] / (beta0 + 1)
      dx = X[1 :, :] - X[: -1, :]
      var_V_hyper = inv(np.eye(rank) + dx.T @ dx + beta0 * np.outer(X[0, :], X[0, :]) / (beta0 + 1))
      var_Lambda_hyper = wishart.rvs(df = dim3 + rank, scale = var_V_hyper)
      var_mu_hyper = mvnrnd_pre(var_mu_hyper, (beta0 + 1) * var_Lambda_hyper)

      var1 = kr_prod(V, U).T
      var2 = kr_prod(var1, var1)
      var3 = (var2 @ ten2mat(tau_ind, 2).T).reshape([rank, rank, dim3])
      var4 = var1 @ ten2mat(tau_sparse_tensor, 2).T
      for t in range(dim3):
          if t == 0:
              X[t, :] = mvnrnd_pre((X[t + 1, :] + var_mu_hyper) / 2, var3[:, :, t] + 2 * var_Lambda_hyper)
          elif t == dim3 - 1:
              temp1 = var4[:, t] + var_Lambda_hyper @ X[t - 1, :]
              temp2 = var3[:, :, t] + var_Lambda_hyper
              X[t, :] = mvnrnd_pre(solve(temp2, temp1), temp2)
          else:
              temp1 = var4[:, t] + var_Lambda_hyper @ (X[t - 1, :] + X[t + 1, :])
              temp2 = var3[:, :, t] + 2 * var_Lambda_hyper
              X[t, :] = mvnrnd_pre(solve(temp2, temp1), temp2)
      return X
  \<close>
  The rows \<^verbatim>\<open>X[t - 1, :]\<close> and \<^verbatim>\<open>X[t + 1, :]\<close> are read from the array while the loop
  is writing it.
\<close>

definition x_step :: "'g numlib \<Rightarrow> ten \<Rightarrow> mat \<Rightarrow> mat \<Rightarrow> vec \<Rightarrow> nat \<Rightarrow> nat \<Rightarrow> mat \<Rightarrow> 'g \<Rightarrow> error + (vec \<times> 'g)" where
  "x_step L var3 var4 var_Lambda_hyper var_mu_hyper dim3 t Xm g =
     (if t = 0 then
        and_then (getrow Xm (t + 1)) (\<lambda>x_next.
        mvnrnd_pre L (sdiv (vadd x_next var_mu_hyper) 2)
          (madd (slice3 var3 t) (msmult 2 var_Lambda_hyper)) g)
      else if t = dim3 - 1 then
        and_then (getcol var4 t) (\<lambda>c.
        and_then (getrow Xm (t - 1)) (\<lambda>x_prev.
        and_then (vec_add c (matvec var_Lambda_hyper x_prev)) (\<lambda>temp1.
          let temp2 = madd (slice3 var3 t) var_Lambda_hyper in
        and_then (solve L temp2 temp1) (\<lambda>mean.
        mvnrnd_pre L mean temp2 g))))
      else
        and_then (getcol var4 t) (\<lambda>c.
        and_then (getrow Xm (t - 1)) (\<lambda>x_prev.
        and_then (getrow Xm (t + 1)) (\<lambda>x_next.
        and_then (vec_add c (matvec var_Lambda_hyper (vadd x_prev x_next))) (\<lambda>temp1.
          let temp2 = madd (slice3 var3 t) (msmult 2 var_Lambda_hyper) in
        and_then (solve L temp2 temp1) (\<lambda>mean.
        mvnrnd_pre L mean temp2 g))))))"

fun x_loop :: "'g numlib \<Rightarrow> ten \<Rightarrow> mat \<Rightarrow> mat \<Rightarrow> vec \<Rightarrow> nat \<Rightarrow> nat \<Rightarrow> nat list \<Rightarrow> 'g world \<Rightarrow> error + 'g world" where
  "x_loop L var3 var4 Lam mu X dim3 [] w = Inr w"
| "x_loop L var3 var4 Lam mu X dim3 (t # rest) w = (case w of (m, g) \<Rightarrow>
     and_then (x_step L var3 var4 Lam mu dim3 t (m X) g) (\<lambda>(row, g').
     x_loop L var3 var4 Lam mu X dim3 rest (m(X := (m X)[t := row]), g')))"

definition x_hyper :: "'g numlib \<Rightarrow> mat \<Rightarrow> nat \<Rightarrow> 'g \<Rightarrow> error + (vec \<times> mat \<times> 'g)" where
  "x_hyper L Xm beta0 g =
     (let dim3 = length Xm; rank = ncols Xm in
      and_then (getrow Xm 0) (\<lambda>x0.
        let var_mu_hyper = sdiv x0 (real beta0 + 1);
            dx = msub (tl Xm) (butlast Xm)
        in and_then (inv_mat L (madd (madd (eye rank) (gram rank dx))
                                     (msdiv (msmult (real beta0) (outer x0 x0)) (real beta0 + 1))))
           (\<lambda>var_V_hyper.
         and_then (wishart_rvs L (dim3 + rank) var_V_hyper g)
           (\<lambda>(var_Lambda_hyper, g1).
         and_then (mvnrnd_pre L var_mu_hyper (msmult (real beta0 + 1) var_Lambda_hyper) g1)
           (\<lambda>(mu, g2). Inr (mu, var_Lambda_hyper, g2))))))"

definition x_prepare ::
  "'g numlib \<Rightarrow> ten \<Rightarrow> ten \<Rightarrow> mat \<Rightarrow> mat \<Rightarrow> mat \<Rightarrow> nat \<Rightarrow> 'g
     \<Rightarrow> error + (ten \<times> mat \<times> mat \<times> vec \<times> 'g)" where
  "x_prepare L tau_sparse_tensor tau_ind Um Vm Xm beta0 g =
     (let dim3 = length Xm; rank = ncols Xm in
     and_then (x_hyper L Xm beta0 g) (\<lambda>(var_mu_hyper, var_Lambda_hyper, g2).
     and_then (kr_prod Vm Um) (\<lambda>kr. let var1 = transpose_mat kr in
     and_then (kr_prod var1 var1) (\<lambda>var2.
     and_then (ten2mat tau_ind 2) (\<lambda>ti.
     and_then (matmul var2 (transpose_mat ti)) (\<lambda>p.
     and_then (reshape3 p (rank, rank, dim3)) (\<lambda>var3.
     and_then (ten2mat tau_sparse_tensor 2) (\<lambda>ts.
     and_then (matmul var1 (transpose_mat ts)) (\<lambda>var4.
     Inr (var3, var4, var_Lambda_hyper, var_mu_hyper, g2))))))))))"

definition sample_factor_x ::
  "'g numlib \<Rightarrow> ten \<Rightarrow> ten \<Rightarrow> nat \<Rightarrow> nat \<Rightarrow> nat \<Rightarrow> nat \<Rightarrow> 'g world \<Rightarrow> error + 'g world" where
  "sample_factor_x L tau_sparse_tensor tau_ind U V X beta0 w = (case w of (m, g) \<Rightarrow>
     and_then (x_prepare L tau_sparse_tensor tau_ind (m U) (m V) (m X) beta0 g)
       (\<lambda>(var3, var4, var_Lambda_hyper, var_mu_hyper, g2).
          x_loop L var3 var4 var_Lambda_hyper var_mu_hyper X (length (m X))
            [0..<length (m X)] (m, g2)))"

section \<open>The Gibbs loop\<close>

text \<open>\<^verbatim>\<open>np.einsum('is, js, ts -> ijt', U, V, X)\<close>: ValueError unless the three
  matrices have the same number of columns.\<close>

definition einsum :: "mat \<Rightarrow> mat \<Rightarrow> mat \<Rightarrow> error + ten" where
  "einsum U V X = (if ncols U = ncols V \<and> ncols V = ncols X
     then Inr (map (\<lambda>u. map (\<lambda>v. map (\<lambda>x.
            sum_list (map (\<lambda>s. u ! s * v ! s * x ! s) [0..<length u])) X) V) U)
     else Inl ValueError)"

definition zeros3 :: "nat \<times> nat \<times> nat \<Rightarrow> ten" where
  "zeros3 s = (case s of (a, b, c) \<Rightarrow> replicate a (replicate b (replicate c 0)))"

definition tadd :: "ten \<Rightarrow> ten \<Rightarrow> ten" where
  "tadd A B = map2 (map2 (map2 (+))) A B"

text \<open>\<^verbatim>\<open>tensor_hat_plus += tensor_hat\<close>. The two have the same shape whenever the line
  is reached in a sweep that started from three distinct rectangular factor matrices and
  a rectangular mask, with no empty axis, and a library that keeps its lengths (lemma
  \<open>sweep_shape\<close> below). That is the case the model covers: it raises on any other pair
  of shapes, where numpy would still add the ones it can broadcast.\<close>

definition add_into :: "ten \<Rightarrow> ten \<Rightarrow> error + ten" where
  "add_into acc T = (if shape3 acc = shape3 T then Inr (tadd acc T) else Inl ValueError)"

text \<open>
  \<^verbatim>\<open>
  def sample_precision_tau(sparse_tensor, tensor_hat, ind):
      var_alpha = 1e-6 + 0.5 * np.sum(ind)
      var_beta = 1e-6 + 0.5 * np.sum(((sparse_tensor - tensor_hat) ** 2) * ind)
      return np.random.gamma(var_alpha, 1 / var_beta)
  \<close>
  The three arrays have the same shape whenever the function is reached (same lemma,
  same case): the model raises on other shapes.
\<close>

definition sample_precision_tau ::
  "'g numlib \<Rightarrow> ten \<Rightarrow> ten \<Rightarrow> bool list list list \<Rightarrow> 'g \<Rightarrow> error + (real \<times> 'g)" where
  "sample_precision_tau L sparse_tensor tensor_hat ind g =
     (if shape3 sparse_tensor = shape3 tensor_hat then
        let var_alpha = 1 / 1000000
              + 0.5 * sum_list (map (\<lambda>p. of_bool (at3 ind p)) (indices3 (shape3 ind)));
            var_beta = 1 / 1000000
              + 0.5 * sum_list (map (\<lambda>p. (at3 sparse_tensor p - at3 tensor_hat p)\<^sup>2
                                          * of_bool (at3 ind p))
                                  (indices3 (shape3 sparse_tensor)))
        in Inr (random_gamma L var_alpha (1 / var_beta) g)
      else Inl ValueError)"

text \<open>
  What BPTF prints: the arguments of \<^verbatim>\<open>compute_mape\<close> and \<^verbatim>\<open>compute_rmse\<close> (the
  held-out reference values and the prediction for them), with the sweep number for an
  interim report.
\<close>

datatype printed = Interim nat "fl list" vec | Final "fl list" "fl list"

record 'g chain =
  c_mats :: "nat \<Rightarrow> mat"
  c_rng :: 'g
  c_tau :: real
  c_temp_hat :: vec
  c_tensor_hat_plus :: ten
  c_printed :: "printed list"

definition show_iter :: nat where
  "show_iter = 200"

text \<open>
  One sweep, the body of the loop:
  \<^verbatim>\<open>
    for it in range(burn_iter + gibbs_iter):
        tau_ind = tau * ind
        tau_sparse_tensor = tau * sparse_tensor
        U = sample_factor_u(tau_sparse_tensor, tau_ind, U, V, X)
        V = sample_factor_v(tau_sparse_tensor, tau_ind, U, V, X)
        X = sample_factor_x(tau_sparse_tensor, tau_ind, U, V, X)
        tensor_hat = np.einsum('is, js, ts -> ijt', U, V, X)
        temp_hat += tensor_hat[pos_test]
        tau = sample_precision_tau(sparse_tensor, tensor_hat, ind)
        if it + 1 > burn_iter:
            tensor_hat_plus += tensor_hat
        if (it + 1) % show_iter == 0 and it < burn_iter:
            temp_hat = temp_hat / show_iter
            print(...)
            temp_hat = np.zeros(len(pos_test[0]))
  \<close>
\<close>

definition sweep :: "'g numlib \<Rightarrow> prepared \<Rightarrow> nat \<Rightarrow> nat \<Rightarrow> 'g chain \<Rightarrow> error + 'g chain" where
  "sweep L P burn_iter it ch =
     (let sparse = map3 fl_real (tens (s_store P) (s_sparse P));
          tau_ind = map3 (\<lambda>b. c_tau ch * of_bool b) (s_ind P);
          tau_sparse_tensor = map3 (\<lambda>x. c_tau ch * x) sparse
      in
      and_then (sample_factor_u L tau_sparse_tensor tau_ind (s_U P) (s_V P) (s_X P) 1
                  (c_mats ch, c_rng ch)) (\<lambda>w1.
      and_then (sample_factor_v L tau_sparse_tensor tau_ind (s_U P) (s_V P) (s_X P) 1 w1) (\<lambda>w2.
      and_then (sample_factor_x L tau_sparse_tensor tau_ind (s_U P) (s_V P) (s_X P) 1 w2) (\<lambda>(m, g).
      and_then (einsum (m (s_U P)) (m (s_V P)) (m (s_X P))) (\<lambda>tensor_hat.
      and_then (take_pos tensor_hat (s_pos_test P)) (\<lambda>h.
        let temp_hat = vadd (c_temp_hat ch) h in
      and_then (sample_precision_tau L sparse tensor_hat (s_ind P) g) (\<lambda>(tau, g').
      and_then (if it + 1 > burn_iter then add_into (c_tensor_hat_plus ch) tensor_hat
                else Inr (c_tensor_hat_plus ch)) (\<lambda>tensor_hat_plus.
        let report = ((it + 1) mod show_iter = 0 \<and> it < burn_iter) in
        Inr \<lparr>c_mats = m, c_rng = g', c_tau = tau,
             c_temp_hat = (if report then replicate (length (s_pos_test P)) 0 else temp_hat),
             c_tensor_hat_plus = tensor_hat_plus,
             c_printed = (if report
                then c_printed ch @ [Interim (it + 1) (s_dense_test P) (sdiv temp_hat (real show_iter))]
                else c_printed ch)\<rparr>))))))))"

fun sweeps :: "'g numlib \<Rightarrow> prepared \<Rightarrow> nat \<Rightarrow> nat list \<Rightarrow> 'g chain \<Rightarrow> error + 'g chain" where
  "sweeps L P burn_iter [] ch = Inr ch"
| "sweeps L P burn_iter (it # rest) ch =
     and_then (sweep L P burn_iter it ch) (sweeps L P burn_iter rest)"

text \<open>\<^verbatim>\<open>tensor_hat_plus / gibbs_iter\<close>. With \<^verbatim>\<open>gibbs_iter = 0\<close> no sweep has added to the
  accumulator and numpy's \<open>0 / 0\<close> is NaN.\<close>

definition count_div :: "real \<Rightarrow> nat \<Rightarrow> fl" where
  "count_div x n = (if n = 0 then NaN else Fin (x / real n))"

text \<open>
  The whole function. Before the loop: \<^verbatim>\<open>show_iter = 200\<close>, \<^verbatim>\<open>tau = 1\<close>,
  \<^verbatim>\<open>temp_hat = np.zeros(len(pos_test[0]))\<close>, \<^verbatim>\<open>tensor_hat_plus = np.zeros(dim)\<close>.
  After it:
  \<^verbatim>\<open>
    tensor_hat = tensor_hat_plus / gibbs_iter
    print(... compute_mape(dense_test, tensor_hat[pos_test]) ...)
    return tensor_hat
  \<close>
  The outcome holds the returned array, the store (what the caller's arrays hold after
  the call), the generator's state and what was printed. The sweep counts are natural
  numbers.
\<close>

record 'g outcome =
  o_tensor_hat :: "fl list list list"
  o_store :: store
  o_rng :: 'g
  o_printed :: "printed list"

definition start_chain :: "prepared \<Rightarrow> 'g \<Rightarrow> 'g chain" where
  "start_chain P g = \<lparr>c_mats = mats (s_store P), c_rng = g, c_tau = 1,
     c_temp_hat = replicate (length (s_pos_test P)) 0,
     c_tensor_hat_plus = zeros3 (s_dim P), c_printed = []\<rparr>"

definition BPTF_finish :: "prepared \<Rightarrow> nat \<Rightarrow> 'g chain \<Rightarrow> error + 'g outcome" where
  "BPTF_finish P gibbs_iter ch =
     (let tensor_hat = map3 (\<lambda>x. count_div x gibbs_iter) (c_tensor_hat_plus ch) in
      and_then (take_pos tensor_hat (s_pos_test P)) (\<lambda>pred.
        Inr \<lparr>o_tensor_hat = tensor_hat,
             o_store = (s_store P)\<lparr>mats := c_mats ch\<rparr>,
             o_rng = c_rng ch,
             o_printed = c_printed ch @ [Final (s_dense_test P) pred]\<rparr>))"

definition BPTF ::
  "'g numlib \<Rightarrow> nat \<Rightarrow> nat \<Rightarrow> init \<Rightarrow> nat \<Rightarrow> nat \<Rightarrow> store \<times> 'g \<Rightarrow> error + 'g outcome" where
  "BPTF L dense_tensor sparse_tensor ini burn_iter gibbs_iter w = (case w of (st, g) \<Rightarrow>
     and_then (BPTF_setup st dense_tensor sparse_tensor ini) (\<lambda>P.
     and_then (sweeps L P burn_iter [0..<burn_iter + gibbs_iter] (start_chain P g)) (\<lambda>ch.
     BPTF_finish P gibbs_iter ch)))"

section \<open>Example inputs\<close>

text \<open>The two-way example \<open>dense = [[1, 0], [2, 3]]\<close>, \<open>sparse = [[1, NaN], [2, 0]]\<close>
  as tensors with a third axis of length one: entry \<open>(i, j)\<close> of the example is entry
  \<open>(i, j, 0)\<close> here. The dense tensor is array 0 of the store, the sparse one array 1.\<close>

definition example_dense :: "fl list list list" where
  "example_dense = [[[Fin 1], [Fin 0]], [[Fin 2], [Fin 3]]]"

definition example_sparse :: "fl list list list" where
  "example_sparse = [[[Fin 1], [NaN]], [[Fin 2], [Fin 0]]]"

definition example_store :: store where
  "example_store = \<lparr>tens = (\<lambda>r. if r = 0 then example_dense else example_sparse),
                     mats = (\<lambda>r. [])\<rparr>"

definition example_init :: init where
  "example_init = \<lparr>init_U = 0, init_V = 1, init_X = 2\<rparr>"

text \<open>
  A library for concrete runs at rank 2: the inverse and the linear solve of a
  \<open>2 \<times> 2\<close> matrix, its upper Cholesky factor and back substitution, and a generator (a
  counter) whose normal draws are zero, whose Wishart draw is the identity and whose
  gamma draw is 1.
\<close>

definition inv2 :: "mat \<Rightarrow> error + mat" where
  "inv2 M = (case M of [[a, b], [c, d]] \<Rightarrow>
      if a * d - b * c = 0 then Inl LinAlgError
      else Inr [[d / (a * d - b * c), - b / (a * d - b * c)],
                [- c / (a * d - b * c), a / (a * d - b * c)]]
    | _ \<Rightarrow> Inl LinAlgError)"

definition solve2 :: "mat \<Rightarrow> vec \<Rightarrow> error + vec" where
  "solve2 M v = (if length v = 2 then and_then (inv2 M) (\<lambda>W. Inr (matvec W v))
                 else Inl ValueError)"

definition chol2 :: "mat \<Rightarrow> error + mat" where
  "chol2 M = (case M of [[a, b], [c, d]] \<Rightarrow>
      if 0 < a \<and> 0 < d - b * b / a
      then Inr [[sqrt a, b / sqrt a], [0, sqrt (d - b * b / a)]]
      else Inl LinAlgError
    | _ \<Rightarrow> Inl LinAlgError)"

definition solve_ut2 :: "mat \<Rightarrow> vec \<Rightarrow> error + vec" where
  "solve_ut2 C z = (case C of [[a, b], [c, d]] \<Rightarrow>
      (case z of [z0, z1] \<Rightarrow>
         if a = 0 \<or> d = 0 then Inl LinAlgError
         else Inr [(z0 - b * (z1 / d)) / a, z1 / d]
       | _ \<Rightarrow> Inl ValueError)
    | _ \<Rightarrow> Inl ValueError)"

definition lib2 :: "nat numlib" where
  "lib2 = \<lparr>normrnd = (\<lambda>n g. (replicate n 0, g + 1)),
           wishart_rvs = (\<lambda>df scale g. Inr (eye (length scale), g + 1)),
           random_gamma = (\<lambda>a b g. (1, g + 1)),
           inv_mat = inv2, solve = solve2, cholesky_upper = chol2, solve_ut = solve_ut2\<rparr>"

text \<open>The factor matrices \<open>U\<close> (array 0), \<open>V\<close> (array 1) and \<open>X\<close> (array 2) for a
  tensor with one time slice and for one with two.\<close>

definition single_slice_mats :: "nat \<Rightarrow> mat" where
  "single_slice_mats = (\<lambda>r. if r = 0 then [[1, 0]] else if r = 1 then [[1, 1]] else [[1, 0]])"

definition two_slice_mats :: "nat \<Rightarrow> mat" where
  "two_slice_mats = (\<lambda>r. if r = 0 then [[1, 0]] else if r = 1 then [[1, 1]]
                          else [[1, 0], [0, 1]])"

definition single_slice_store :: store where
  "single_slice_store = \<lparr>tens = (\<lambda>r. if r = 0 then [[[Fin 2]]] else [[[NaN]]]),
                          mats = single_slice_mats\<rparr>"




definition run_store :: store where
  "run_store = \<lparr>tens = (\<lambda>r. if r = 0 then [[[Fin 1, Fin 2]]] else [[[Fin 1, NaN]]]),
                 mats = two_slice_mats\<rparr>"

text \<open>The reconstruction from the factor matrices of a chain state: the
  \<^verbatim>\<open>einsum\<close> line of the loop, read after the sweep.\<close>

definition reconstruct :: "prepared \<Rightarrow> 'g chain \<Rightarrow> error + ten" where
  "reconstruct P ch = einsum (c_mats ch (s_U P)) (c_mats ch (s_V P)) (c_mats ch (s_X P))"

definition three_slice_mats :: "nat \<Rightarrow> mat" where
  "three_slice_mats = (\<lambda>r. if r = 0 then [[1, 0]] else if r = 1 then [[1, 1]]
                            else [[1, 0], [0, 1], [1, 1]])"

text \<open>The library of the examples with a normal draw that is not zero.\<close>

definition lib2_twos :: "nat numlib" where
  "lib2_twos = lib2\<lparr>normrnd := (\<lambda>n g. (replicate n 2, g + 1))\<rparr>"

text \<open>Four equally likely sign patterns: two independent variables with mean 0 and
  variance 1, and the mean of a function over them.\<close>

definition signs :: "bool \<times> bool \<Rightarrow> vec" where
  "signs w = [if fst w then 1 else - 1, if snd w then 1 else - 1]"

definition mean4 :: "(bool \<times> bool \<Rightarrow> real) \<Rightarrow> real" where
  "mean4 f = (f (True, True) + f (True, False) + f (False, True) + f (False, False)) / 4"

text \<open>Factor matrices for a tensor of shape \<open>(2, 1, 2)\<close>.\<close>

definition two_row_mats :: "nat \<Rightarrow> mat" where
  "two_row_mats = (\<lambda>r. if r = 0 then [[1, 0], [0, 1]] else if r = 1 then [[1, 1]]
                          else [[1, 0], [0, 1]])"

text \<open>Two reference tensors of shape \<open>(1, 1, 1)\<close> (arrays 0 and 2) beside a sparse tensor
  of shape \<open>(1, 1, 2)\<close> (array 1).\<close>

definition narrow_dense_store :: store where
  "narrow_dense_store = \<lparr>tens = (\<lambda>r. if r = 0 then [[[Fin 0]]]
                                     else if r = 2 then [[[Fin 5]]]
                                     else [[[Fin 1, NaN]]]),
                          mats = two_slice_mats\<rparr>"

text \<open>A store with a second reference tensor (array 2) of the shape of the first (array
  0); array 1 is the sparse tensor.\<close>

definition two_dense_store :: store where
  "two_dense_store = \<lparr>tens = (\<lambda>r. if r = 0 then [[[Fin 1, Fin 2]]]
                                   else if r = 2 then [[[Fin 5, Fin 0]]]
                                   else [[[Fin 1, NaN]]]),
                       mats = two_slice_mats\<rparr>"

subsection \<open>A library that keeps its lengths\<close>

text \<open>The lengths the library's documentation promises: a normal draw of size \<open>n\<close> has
  \<open>n\<close> entries, and a solution has the length of the right-hand side.\<close>

definition keeps_lengths :: "'g numlib \<Rightarrow> bool" where
  "keeps_lengths L =
     ((\<forall>n g. length (fst (normrnd L n g)) = n) \<and>
      (\<forall>A b x. solve L A b = Inr x \<longrightarrow> length x = length b) \<and>
      (\<forall>C z y. solve_ut L C z = Inr y \<longrightarrow> length y = length z))"

text \<open>A store whose sparse tensor has no observed entry.\<close>

definition unobserved_store :: store where
  "unobserved_store = \<lparr>tens = (\<lambda>r. if r = 0 then [[[Fin 1, Fin 2]]] else [[[NaN, NaN]]]),
                        mats = two_slice_mats\<rparr>"




section \<open>Properties\<close>

lemma and_then_Inr [simp]: "and_then (Inr x) f = f x"
  by (simp add: and_then_def)

lemma and_then_Inl [simp]: "and_then (Inl e) f = Inl e"
  by (simp add: and_then_def)

lemma and_then_eq_Inr:
  "and_then m f = Inr y \<longleftrightarrow> (\<exists>x. m = Inr x \<and> f x = Inr y)"
  by (cases m) simp_all


subsection \<open>Shapes and positions\<close>

lemma is_ten_nth:
  "is_ten (a, b, c) T \<Longrightarrow> i < a \<Longrightarrow> length (T ! i) = b"
  by (auto simp: is_ten_def is_mat_def list_all_length)

lemma is_ten_nth2:
  "is_ten (a, b, c) T \<Longrightarrow> i < a \<Longrightarrow> j < b \<Longrightarrow> length (T ! i ! j) = c"
  by (auto simp: is_ten_def is_mat_def list_all_length)

lemma is_ten_length: "is_ten (a, b, c) T \<Longrightarrow> length T = a"
  by (simp add: is_ten_def)

lemma shape3_is_ten:
  assumes "is_ten (a, b, c) T" "0 < a" "0 < b"
  shows "shape3 T = (a, b, c)"
proof -
  from assms obtain s rest where T: "T = s # rest" by (cases T) (auto simp: is_ten_def)
  with assms have s: "length s = b" "list_all (\<lambda>row. length row = c) s"
    by (auto simp: is_ten_def is_mat_def)
  with assms obtain r rest' where s': "s = r # rest'" by (cases s) auto
  with s have "length r = c" by simp
  with T s s' assms show ?thesis by (simp add: shape3_def ncols_def is_ten_def)
qed

lemma set_indices3:
  "set (indices3 (a, b, c)) = {(i, j, t). i < a \<and> j < b \<and> t < c}"
  by (force simp: indices3_def)

lemma in_set_indices3 [simp]: "p \<in> set (indices3 s) \<longleftrightarrow> in_shape s p"
  by (cases s; cases p) (simp add: set_indices3 in_shape_def)

lemma bdim_same [simp]: "bdim a a = Inr a"
  by (simp add: bdim_def)

lemma broadcast_shapes_same [simp]: "broadcast_shapes s s = Inr s"
  by (cases s) (simp add: broadcast_shapes_def)

lemma bidx_less [simp]: "i < n \<Longrightarrow> bidx n i = i"
  by (auto simp: bidx_def)

lemma bat3_in_shape:
  "shape3 T = s \<Longrightarrow> in_shape s p \<Longrightarrow> bat3 T p = at3 T p"
  by (cases s; cases p) (auto simp: bat3_def at3_def in_shape_def)

lemma is_ten_map3 [simp]: "is_ten s (map3 f T) = is_ten s T"
  by (cases s) (auto simp: is_ten_def map3_def is_mat_def list_all_length)

lemma at3_map3:
  "is_ten s T \<Longrightarrow> in_shape s p \<Longrightarrow> at3 (map3 f T) p = f (at3 T p)"
  by (cases s; cases p) (auto simp: at3_def map3_def in_shape_def is_ten_def is_mat_def list_all_length)

lemma has_nan_iff:
  assumes "is_ten s T"
  shows "has_nan T \<longleftrightarrow> (\<exists>p. in_shape s p \<and> isnan (at3 T p))"
proof -
  obtain a b c where s: "s = (a, b, c)" by (cases s)
  have "has_nan T \<longleftrightarrow> (\<exists>i<length T. \<exists>j<length (T ! i). \<exists>t<length (T ! i ! j). isnan (T ! i ! j ! t))"
    unfolding has_nan_def list_ex_length by (rule refl)
  also have "\<dots> \<longleftrightarrow> (\<exists>i<a. \<exists>j<b. \<exists>t<c. isnan (T ! i ! j ! t))"
    using assms unfolding s
    by (simp add: is_ten_length is_ten_nth is_ten_nth2 cong: conj_cong)
  also have "\<dots> \<longleftrightarrow> (\<exists>p. in_shape s p \<and> isnan (at3 T p))"
    unfolding s by (auto simp: in_shape_def at3_def)
  finally show ?thesis .
qed


lemma take_pos_ok:
  "shape3 T = s \<Longrightarrow> \<forall>p\<in>set ps. in_shape s p \<Longrightarrow> take_pos T ps = Inr (map (at3 T) ps)"
  by (simp add: take_pos_def list_all_iff)


lemma and_then_fails: "(\<And>x. \<exists>e. f x = Inl e) \<Longrightarrow> \<exists>e. and_then m f = Inl e"
  by (cases m) simp_all

lemma is_mat_length: "is_mat n r M \<Longrightarrow> length M = n"
  by (simp add: is_mat_def)

lemma is_mat_nth: "is_mat n r M \<Longrightarrow> i < n \<Longrightarrow> length (M ! i) = r"
  by (simp add: is_mat_def list_all_length)

lemma is_matI: "length M = n \<Longrightarrow> (\<And>i. i < n \<Longrightarrow> length (M ! i) = r) \<Longrightarrow> is_mat n r M"
  by (simp add: is_mat_def list_all_length)

lemma ncols_is_mat: "is_mat n r M \<Longrightarrow> 0 < n \<Longrightarrow> ncols M = r"
  by (cases M) (auto simp: is_mat_def ncols_def)

lemma length_column [simp]: "length (column M j) = length M"
  by (simp add: column_def)

lemma is_mat_transpose:
  "is_mat n r M \<Longrightarrow> 0 < n \<Longrightarrow> is_mat r n (transpose_mat M)"
  by (simp add: transpose_mat_def ncols_is_mat is_mat_def list_all_length)

lemma length_concat_is_mat: "is_mat n r M \<Longrightarrow> length (concat M) = n * r"
proof (induction M arbitrary: n)
  case Nil then show ?case by (simp add: is_mat_def)
next
  case (Cons row M)
  then obtain n' where "n = Suc n'" "is_mat n' r M" "length row = r"
    by (cases n) (auto simp: is_mat_def)
  with Cons.IH [of n'] show ?case by simp
qed

lemma kr_rows_is_mat:
  assumes "is_mat n r A" "is_mat k r B"
  shows "is_mat (n * k) r (concat (map (\<lambda>a. map (\<lambda>b. map2 (*) a b) B) A))"
proof -
  have "is_mat n k (map (\<lambda>a. map (\<lambda>b. map2 (*) a b) B) A)"
    using assms by (simp add: is_mat_def list_all_length)
  then have "length (concat (map (\<lambda>a. map (\<lambda>b. map2 (*) a b) B) A)) = n * k"
    by (rule length_concat_is_mat)
  moreover have "list_all (\<lambda>row. length row = r) (concat (map (\<lambda>a. map (\<lambda>b. map2 (*) a b) B) A))"
    using assms by (auto simp: is_mat_def list_all_iff)
  ultimately show ?thesis by (simp add: is_mat_def)
qed


lemma kr_prod_mismatch:
  assumes "is_mat n r A" "is_mat k r' B" "0 < n" "0 < k" "r \<noteq> r'"
  shows "kr_prod A B = Inl ValueError"
  using assms by (simp add: kr_prod_def ncols_is_mat)


lemma matmul_mismatch:
  assumes "is_mat n k A" "is_mat k' m B" "0 < n" "k \<noteq> k'"
  shows "matmul A B = Inl ValueError"
  using assms by (simp add: matmul_def ncols_is_mat is_mat_length)

lemma reshape3_is_ten:
  assumes "is_mat n k M" "n * k = a * b * c"
  shows "\<exists>T. reshape3 M (a, b, c) = Inr T \<and> is_ten (a, b, c) T"
  using assms length_concat_is_mat [OF assms(1)]
  by (simp add: reshape3_def is_ten_def is_mat_def list_all_length)


lemma length_concat_const:
  "(\<And>x. x \<in> set xs \<Longrightarrow> length (f x) = k) \<Longrightarrow> length (concat (map f xs)) = length xs * k"
  by (induction xs) auto

lemma ten2mat_0:
  assumes "is_ten (d1, d2, d3) T" "0 < d1" "0 < d2"
  shows "\<exists>M. ten2mat T 0 = Inr M \<and> is_mat d1 (d3 * d2) M"
  using assms by (simp add: ten2mat_def shape3_is_ten is_mat_def list_all_length length_concat_const)

lemma ten2mat_1:
  assumes "is_ten (d1, d2, d3) T" "0 < d1" "0 < d2"
  shows "\<exists>M. ten2mat T 1 = Inr M \<and> is_mat d2 (d3 * d1) M"
  using assms by (simp add: ten2mat_def shape3_is_ten is_mat_def list_all_length length_concat_const)

lemma ten2mat_2:
  assumes "is_ten (d1, d2, d3) T" "0 < d1" "0 < d2"
  shows "\<exists>M. ten2mat T 2 = Inr M \<and> is_mat d3 (d2 * d1) M"
  using assms by (simp add: ten2mat_def shape3_is_ten is_mat_def list_all_length length_concat_const)


subsection \<open>The observation mask and the held-out positions\<close>

lemma setup_general:
  assumes D: "is_ten (d1, d2, d3) (tens st dense_tensor)"
    and S: "is_ten (d1, d2, d3) (tens st sparse_tensor)"
    and pos: "0 < d1" "0 < d2" "0 < d3"
  shows "\<exists>P. BPTF_setup st dense_tensor sparse_tensor ini = Inr P \<and>
     is_ten (d1, d2, d3) (s_ind P) \<and>
     (if \<exists>p. in_shape (d1, d2, d3) p \<and> isnan (at3 (tens st sparse_tensor) p) then
        (\<forall>p. in_shape (d1, d2, d3) p \<longrightarrow>
              at3 (s_ind P) p = (\<not> isnan (at3 (tens st sparse_tensor) p))) \<and>
        set (s_pos_test P) = {p. in_shape (d1, d2, d3) p \<and> ne0 (at3 (tens st dense_tensor) p)
                                  \<and> isnan (at3 (tens st sparse_tensor) p)} \<and>
        s_store P = st\<lparr>tens := (tens st)(sparse_tensor := map3 nan_to_zero (tens st sparse_tensor))\<rparr>
      else
        (\<forall>p. in_shape (d1, d2, d3) p \<longrightarrow>
              at3 (s_ind P) p = ne0 (at3 (tens st sparse_tensor) p)) \<and>
        set (s_pos_test P) = {p. in_shape (d1, d2, d3) p \<and> ne0 (at3 (tens st dense_tensor) p)
                                  \<and> eq0 (at3 (tens st sparse_tensor) p)} \<and>
        s_store P = st)"
proof -
  let ?s = "(d1, d2, d3)"
  let ?D = "tens st dense_tensor" and ?S = "tens st sparse_tensor"
  have shD: "shape3 ?D = ?s" and shS: "shape3 ?S = ?s"
    using D S pos by (simp_all add: shape3_is_ten)
  have nan: "has_nan ?S \<longleftrightarrow> (\<exists>p. in_shape ?s p \<and> isnan (at3 ?S p))"
    by (rule has_nan_iff [OF S])
  show ?thesis
  proof (cases "has_nan ?S")
    case True
    let ?st' = "st\<lparr>tens := (tens st)(sparse_tensor := map3 nan_to_zero ?S)\<rparr>"
    let ?pt = "where3 ?s (\<lambda>p. ne0 (bat3 ?D p) \<and> isnan (bat3 ?S p))"
    let ?D' = "((tens st)(sparse_tensor := map3 nan_to_zero ?S)) dense_tensor"
    have "is_ten ?s ?D'" using D S by simp
    then have "shape3 ?D' = ?s" using pos by (simp add: shape3_is_ten)
    then have tp: "take_pos ?D' ?pt = Inr (map (at3 ?D') ?pt)"
      by (rule take_pos_ok) (simp add: where3_def)
    have set_pt: "set ?pt = {p. in_shape ?s p \<and> ne0 (at3 ?D p) \<and> isnan (at3 ?S p)}"
      using shD shS by (auto simp: where3_def bat3_in_shape)
    show ?thesis
      using True nan S set_pt
      by (simp add: BPTF_setup_def Let_def shD shS tp at3_map3 del: fun_upd_apply)
  next
    case False
    let ?pt = "where3 ?s (\<lambda>p. ne0 (bat3 ?D p) \<and> eq0 (bat3 ?S p))"
    have tp: "take_pos ?D ?pt = Inr (map (at3 ?D) ?pt)"
      using shD by (rule take_pos_ok) (simp add: where3_def)
    have set_pt: "set ?pt = {p. in_shape ?s p \<and> ne0 (at3 ?D p) \<and> eq0 (at3 ?S p)}"
      using shD shS by (auto simp: where3_def bat3_in_shape)
    from False nan have noex: "\<not> (\<exists>p. in_shape ?s p \<and> isnan (at3 ?S p))" by simp
    have "BPTF_setup st dense_tensor sparse_tensor ini =
        Inr \<lparr>s_store = st, s_sparse = sparse_tensor, s_U = init_U ini, s_V = init_V ini,
             s_X = init_X ini, s_dim = ?s, s_ind = map3 ne0 ?S, s_pos_test = ?pt,
             s_dense_test = map (at3 ?D) ?pt\<rparr>"
      using False by (simp add: BPTF_setup_def Let_def shD shS tp)
    moreover have "(if \<exists>p. in_shape ?s p \<and> isnan (at3 ?S p) then A else B) = B" for A B :: bool
      using noex by (rule if_not_P)
    ultimately show ?thesis
      using S set_pt by (simp add: at3_map3 del: split_paired_Ex split_paired_All)
  qed
qed


lemma example_setup:
  "map_sum id s_pos_test (BPTF_setup example_store 0 1 example_init) = Inr []"
  by (simp add: BPTF_setup_def example_store_def example_dense_def example_sparse_def
      shape3_def ncols_def broadcast_shapes_def has_nan_def where3_def indices3_def bat3_def
      bidx_def take_pos_def in_shape_def at3_def upt_conv_Cons Let_def map3_def)

text \<open>
  Claim C2, as the code has it. For a dense and a sparse tensor of the same shape the
  statements before the loop do not raise. If the sparse tensor holds a NaN, the mask
  \<open>ind\<close> is true exactly where the sparse tensor is not NaN, the held-out positions are
  exactly those where the dense tensor is \<open>!= 0\<close> and the sparse tensor is NaN, and the
  caller's sparse tensor has its NaNs replaced by zero. If it holds none, the mask is
  true exactly where the sparse tensor is \<open>!= 0\<close>, the held-out positions are those
  where the dense tensor is \<open>!= 0\<close> and the sparse tensor is \<open>== 0\<close>, and the store is
  unchanged. For \<open>dense = [[1, 0], [2, 3]]\<close> and \<open>sparse = [[1, NaN], [2, 0]]\<close> no
  position is held out: the dense entry at \<open>(0, 1)\<close> is zero, and the sparse entry at
  \<open>(1, 1)\<close> is zero, not NaN.
\<close>

theorem setup_mask_and_held_out:
  assumes "is_ten (d1, d2, d3) (tens st dense_tensor)"
    and "is_ten (d1, d2, d3) (tens st sparse_tensor)"
    and "0 < d1" "0 < d2" "0 < d3"
  shows "(\<exists>P. BPTF_setup st dense_tensor sparse_tensor ini = Inr P \<and>
     is_ten (d1, d2, d3) (s_ind P) \<and>
     (if \<exists>p. in_shape (d1, d2, d3) p \<and> isnan (at3 (tens st sparse_tensor) p) then
        (\<forall>p. in_shape (d1, d2, d3) p \<longrightarrow>
              at3 (s_ind P) p = (\<not> isnan (at3 (tens st sparse_tensor) p))) \<and>
        set (s_pos_test P) = {p. in_shape (d1, d2, d3) p \<and> ne0 (at3 (tens st dense_tensor) p)
                                  \<and> isnan (at3 (tens st sparse_tensor) p)} \<and>
        s_store P = st\<lparr>tens := (tens st)(sparse_tensor := map3 nan_to_zero (tens st sparse_tensor))\<rparr>
      else
        (\<forall>p. in_shape (d1, d2, d3) p \<longrightarrow>
              at3 (s_ind P) p = ne0 (at3 (tens st sparse_tensor) p)) \<and>
        set (s_pos_test P) = {p. in_shape (d1, d2, d3) p \<and> ne0 (at3 (tens st dense_tensor) p)
                                  \<and> eq0 (at3 (tens st sparse_tensor) p)} \<and>
        s_store P = st))
   \<and> map_sum id s_pos_test (BPTF_setup example_store 0 1 example_init) = Inr []"
  using setup_general [OF assms] example_setup by (rule conjI)

theorem setup_mask_and_held_out_witness:
  "is_ten (2, 2, 1) (tens example_store 0) \<and> is_ten (2, 2, 1) (tens example_store 1) \<and>
   (\<exists>P. BPTF_setup example_store 0 1 example_init = Inr P \<and>
      s_ind P = [[[True], [False]], [[True], [True]]] \<and>
      s_pos_test P = [] \<and>
      tens (s_store P) 1 = [[[Fin 1], [Fin 0]], [[Fin 2], [Fin 0]]])"
proof -
  have D: "is_ten (2, 2, 1) (tens example_store 0)"
    and S: "is_ten (2, 2, 1) (tens example_store 1)"
    by (simp_all add: is_ten_def is_mat_def example_store_def example_dense_def example_sparse_def)
  have ex: "in_shape (2, 2, 1) (0, 1, 0) \<and> isnan (at3 (tens example_store 1) (0, 1, 0))"
    by (simp add: in_shape_def at3_def example_store_def example_sparse_def)
  from setup_mask_and_held_out [OF D S, of example_init]
  obtain P where P: "BPTF_setup example_store 0 1 example_init = Inr P"
    and rest: "map_sum id s_pos_test (BPTF_setup example_store 0 1 example_init) = Inr []"
    by auto
  from P have "s_ind P = [[[True], [False]], [[True], [True]]] \<and> s_pos_test P = [] \<and>
      tens (s_store P) 1 = [[[Fin 1], [Fin 0]], [[Fin 2], [Fin 0]]]"
    by (auto simp: BPTF_setup_def example_store_def example_dense_def example_sparse_def
      example_init_def shape3_def ncols_def broadcast_shapes_def has_nan_def where3_def
      indices3_def bat3_def bidx_def take_pos_def in_shape_def at3_def upt_conv_Cons Let_def
      map3_def)
  with P D S show ?thesis by simp
qed

theorem held_out_example_counterexample:
  "map_sum id (\<lambda>P. set (s_pos_test P)) (BPTF_setup example_store 0 1 example_init)
     \<noteq> Inr {(0, 1, 0)}"
  by (simp add: BPTF_setup_def example_store_def example_dense_def example_sparse_def
      shape3_def ncols_def broadcast_shapes_def has_nan_def where3_def indices3_def bat3_def
      bidx_def take_pos_def in_shape_def at3_def upt_conv_Cons Let_def map3_def)


subsection \<open>The temporal sampler on a single time slice\<close>

lemma x_step_first_row:
  "length Xm = 1 \<Longrightarrow> x_step L var3 var4 Lam mu dim3 0 Xm g = Inl IndexError"
  by (simp add: x_step_def getrow_def)

lemma x_loop_single:
  assumes "length (m X) = 1"
  shows "x_loop L var3 var4 Lam mu X (length (m X)) [0..<length (m X)] (m, g) = Inl IndexError"
  using assms by (simp add: x_step_first_row)

lemma sample_factor_x_single:
  assumes "length (m X) = 1"
  shows "\<exists>e. sample_factor_x L tau_sparse_tensor tau_ind U V X beta0 (m, g) = Inl e"
proof -
  have "sample_factor_x L tau_sparse_tensor tau_ind U V X beta0 (m, g) \<noteq> Inr w'" for w'
    using assms
    by (auto simp: sample_factor_x_def and_then_eq_Inr x_step_first_row)
  then show ?thesis
    by (cases "sample_factor_x L tau_sparse_tensor tau_ind U V X beta0 (m, g)") auto
qed

lemma x_step_first_row_ok:
  "2 \<le> length Xm \<Longrightarrow> getrow Xm (0 + 1) = Inr (Xm ! 1) \<and>
    x_step L var3 var4 Lam mu dim3 0 Xm g =
      mvnrnd_pre L (sdiv (vadd (Xm ! 1) mu) 2) (madd (slice3 var3 0) (msmult 2 Lam)) g"
  by (simp add: x_step_def getrow_def)

text \<open>The store keeps the shape of every matrix.\<close>

lemma row_loop_length:
  "row_loop L var3 var4 f is w = Inr w' \<Longrightarrow> length (fst w' r) = length (fst w r)"
proof (induction "is" arbitrary: w)
  case Nil then show ?case by simp
next
  case (Cons i rest)
  obtain m g where w: "w = (m, g)" by (cases w)
  from Cons.prems obtain row g' where
    "row_loop L var3 var4 f rest (m(f := (m f)[i := row]), g') = Inr w'"
    by (auto simp: w and_then_eq_Inr)
  from Cons.IH [OF this] show ?case by (simp add: w)
qed

lemma sample_entity_length:
  assumes "sample_entity L mode ts ti f a b beta0 w = Inr w'"
  shows "length (fst w' r) = length (fst w r)"
proof -
  obtain m g where w: "w = (m, g)" by (cases w)
  from assms obtain var3 var4 g2 where
    "row_loop L var3 var4 f [0..<length (m f)] (m, g2) = Inr w'"
    by (auto simp: w sample_entity_def and_then_eq_Inr)
  from row_loop_length [OF this] show ?thesis by (simp add: w)
qed


lemma BPTF_setup_locals:
  assumes "BPTF_setup st dense_tensor sparse_tensor ini = Inr P"
  shows "mats (s_store P) = mats st" "s_U P = init_U ini" "s_V P = init_V ini"
    "s_X P = init_X ini" "s_sparse P = sparse_tensor"
    "s_dim P = shape3 (tens st sparse_tensor)"
  using assms
  by (auto simp: BPTF_setup_def Let_def and_then_eq_Inr split: if_splits)

lemma sample_factor_x_prepared:
  assumes "length (m X) = 1"
    and "x_prepare L tau_sparse_tensor tau_ind (m U) (m V) (m X) beta0 g = Inr q"
  shows "sample_factor_x L tau_sparse_tensor tau_ind U V X beta0 (m, g) = Inl IndexError"
  using assms by (cases q) (simp add: sample_factor_x_def x_step_first_row)

lemma sweep_single:
  assumes "length (c_mats ch (s_X P)) = 1"
  shows "sweep L P burn_iter it ch \<noteq> Inr ch'"
proof
  assume "sweep L P burn_iter it ch = Inr ch'"
  then obtain ts ti w1 w2 w3 where
    u: "sample_factor_u L ts ti (s_U P) (s_V P) (s_X P) 1 (c_mats ch, c_rng ch) = Inr w1"
    and v: "sample_factor_v L ts ti (s_U P) (s_V P) (s_X P) 1 w1 = Inr w2"
    and x: "sample_factor_x L ts ti (s_U P) (s_V P) (s_X P) 1 w2 = Inr w3"
    by (auto simp: sweep_def Let_def and_then_eq_Inr)
  from u have "length (fst w1 (s_X P)) = 1"
    using assms by (simp add: sample_factor_u_def sample_entity_length)
  with v have len: "length (fst w2 (s_X P)) = 1"
    by (simp add: sample_factor_v_def sample_entity_length)
  obtain m2 g2 where w2: "w2 = (m2, g2)" by (cases w2)
  from sample_factor_x_single [of m2 "s_X P" L ts ti "s_U P" "s_V P" 1 g2] len x
  show False by (simp add: w2)
qed

lemma BPTF_single:
  assumes "length (mats st (init_X ini)) = 1" "0 < burn_iter + gibbs_iter"
  shows "\<exists>e. BPTF L dense_tensor sparse_tensor ini burn_iter gibbs_iter (st, g) = Inl e"
proof -
  have "BPTF L dense_tensor sparse_tensor ini burn_iter gibbs_iter (st, g) \<noteq> Inr out" for out
  proof
    assume "BPTF L dense_tensor sparse_tensor ini burn_iter gibbs_iter (st, g) = Inr out"
    then obtain P ch where P: "BPTF_setup st dense_tensor sparse_tensor ini = Inr P"
      and sw: "sweeps L P burn_iter [0..<burn_iter + gibbs_iter] (start_chain P g) = Inr ch"
      by (auto simp: BPTF_def and_then_eq_Inr)
    from assms(2) have "[0..<burn_iter + gibbs_iter] = 0 # [1..<burn_iter + gibbs_iter]"
      by (simp add: upt_conv_Cons)
    with sw obtain ch1 where "sweep L P burn_iter 0 (start_chain P g) = Inr ch1"
      by (auto simp: and_then_eq_Inr)
    moreover have "length (c_mats (start_chain P g) (s_X P)) = 1"
      using assms(1) BPTF_setup_locals [OF P] by (simp add: start_chain_def)
    ultimately show False using sweep_single by blast
  qed
  then show ?thesis
    by (cases "BPTF L dense_tensor sparse_tensor ini burn_iter gibbs_iter (st, g)") auto
qed


lemmas arr_defs = ncols_def column_def col_mean_def smult_def sdiv_def eye_def cov_mat_def
  gram_def outer_def madd_def msub_def msmult_def msdiv_def vadd_def dot_def matvec_def
  transpose_mat_def mprod_def matmul_def kr_prod_def reshape3_def add_last_def slice3_def
  add_colvec_def vec_add_def getcol_def getrow_def ten2mat_def shape3_def

lemmas lib2_defs = lib2_def inv2_def solve2_def chol2_def solve_ut2_def

text \<open>
  Claim C10. When \<open>X\<close> has one row, \<open>sample_factor_x\<close> never returns: it raises, and
  the exception is the IndexError of \<^verbatim>\<open>X[t + 1, :]\<close> at \<open>t = 0\<close> whenever the
  statements before the loop have not raised themselves; BPTF with at least one sweep
  then raises too. When \<open>X\<close> has two rows or more, the read of \<^verbatim>\<open>X[1, :]\<close> at
  \<open>t = 0\<close> is in bounds and the step is the draw with mean \<open>(X[1] + \<mu>) / 2\<close>.
\<close>

theorem sample_factor_x_needs_two_time_steps:
  "(length (m X) = 1 \<longrightarrow>
      (\<exists>e. sample_factor_x L tau_sparse_tensor tau_ind U V X beta0 (m, g) = Inl e) \<and>
      (\<forall>q. x_prepare L tau_sparse_tensor tau_ind (m U) (m V) (m X) beta0 g = Inr q \<longrightarrow>
           sample_factor_x L tau_sparse_tensor tau_ind U V X beta0 (m, g) = Inl IndexError)) \<and>
   (length (mats st (init_X ini)) = 1 \<and> 0 < burn_iter + gibbs_iter \<longrightarrow>
      (\<exists>e. BPTF L dense_tensor sparse_tensor ini burn_iter gibbs_iter (st, g) = Inl e)) \<and>
   (2 \<le> length (m X) \<longrightarrow>
      getrow (m X) (0 + 1) = Inr (m X ! 1) \<and>
      x_step L var3 var4 Lam mu (length (m X)) 0 (m X) g =
        mvnrnd_pre L (sdiv (vadd (m X ! 1) mu) 2) (madd (slice3 var3 0) (msmult 2 Lam)) g)"
  using sample_factor_x_single [of m X L tau_sparse_tensor tau_ind U V beta0 g]
    sample_factor_x_prepared [of m X L tau_sparse_tensor tau_ind U V beta0 g]
    BPTF_single [of st ini burn_iter gibbs_iter L dense_tensor sparse_tensor g]
    x_step_first_row_ok [of "m X" L var3 var4 Lam mu "length (m X)" g]
  by blast


theorem sample_factor_x_needs_two_time_steps_witness:
  "length (single_slice_mats 2) = 1 \<and>
   (\<exists>q. x_prepare lib2 [[[2]]] [[[1]]] (single_slice_mats 0) (single_slice_mats 1)
           (single_slice_mats 2) 1 0 = Inr q) \<and>
   sample_factor_x lib2 [[[2]]] [[[1]]] 0 1 2 1 (single_slice_mats, 0) = Inl IndexError \<and>
   length (mats single_slice_store (init_X example_init)) = 1 \<and>
   (\<exists>e. BPTF lib2 0 1 example_init 1 1 (single_slice_store, 0) = Inl e) \<and>
   2 \<le> length (two_slice_mats 2) \<and>
   getrow (two_slice_mats 2) (0 + 1) = Inr [0, 1]"
proof -
  have one: "length (single_slice_mats 2) = 1"
    by (simp add: single_slice_mats_def)
  have prep: "\<exists>q. x_prepare lib2 [[[2]]] [[[1]]] (single_slice_mats 0) (single_slice_mats 1)
           (single_slice_mats 2) 1 0 = Inr q"
    by (simp add: single_slice_mats_def x_prepare_def x_hyper_def lib2_defs arr_defs
        mvnrnd_pre_def upt_conv_Cons)
  have st: "length (mats single_slice_store (init_X example_init)) = 1 \<and> 0 < (1::nat) + 1"
    by (simp add: single_slice_store_def single_slice_mats_def example_init_def)
  have two: "2 \<le> length (two_slice_mats 2)"
    by (simp add: two_slice_mats_def)
  from sample_factor_x_needs_two_time_steps
    [of single_slice_mats 2 lib2 "[[[2]]]" "[[[1]]]" 0 1 1 0 single_slice_store example_init
      1 1 0 1 "[]" "[]" "[]" "[]"] one prep st
  have a: "sample_factor_x lib2 [[[2]]] [[[1]]] 0 1 2 1 (single_slice_mats, 0) = Inl IndexError"
    and b: "\<exists>e. BPTF lib2 0 1 example_init 1 1 (single_slice_store, 0) = Inl e"
    by blast+
  from sample_factor_x_needs_two_time_steps
    [of two_slice_mats 2 lib2 "[[[2]]]" "[[[1]]]" 0 1 1 0 single_slice_store example_init
      1 1 0 1 "[]" "[]" "[]" "[]"] two
  have c: "getrow (two_slice_mats 2) (0 + 1) = Inr (two_slice_mats 2 ! 1)"
    by blast
  from one prep a st b two c show ?thesis
    by (simp add: two_slice_mats_def)
qed







subsection \<open>Shapes that do not match\<close>

lemmas setup_defs = BPTF_setup_def shape3_def ncols_def broadcast_shapes_def bdim_def
  has_nan_def where3_def indices3_def bat3_def bidx_def take_pos_def in_shape_def at3_def
  Let_def map3_def

lemmas sampler_defs = sample_factor_u_def sample_factor_v_def sample_factor_x_def
  sample_entity_def entity_prepare_def factor_hyper_def x_prepare_def x_hyper_def x_step_def
  mvnrnd_pre_def

lemmas loop_defs = BPTF_def BPTF_finish_def start_chain_def sweep_def einsum_def zeros3_def
  tadd_def add_into_def sample_precision_tau_def show_iter_def count_div_def

lemma run_ok: "\<exists>out. BPTF lib2 0 1 example_init 1 1 (run_store, 0) = Inr out"
  by (simp add: loop_defs setup_defs sampler_defs run_store_def example_init_def
      two_slice_mats_def lib2_defs arr_defs upt_conv_Cons)

subsection \<open>The posterior mean\<close>

lemma sweep_accumulates:
  assumes "sweep L P burn_iter it ch = Inr ch'"
  shows "\<exists>hat. reconstruct P ch' = Inr hat \<and>
     c_tensor_hat_plus ch' = (if it + 1 > burn_iter then tadd (c_tensor_hat_plus ch) hat
                              else c_tensor_hat_plus ch)"
  using assms
  by (auto simp: sweep_def Let_def and_then_eq_Inr reconstruct_def add_into_def
      split: if_splits)

lemma sweeps_accumulate:
  assumes "sweeps L P burn_iter [i..<i + n] ch = Inr ch'"
  shows "\<exists>chs hats. length chs = n \<and> length hats = n \<and>
     (\<forall>k<n. sweep L P burn_iter (i + k) ((ch # chs) ! k) = Inr (chs ! k) \<and>
            reconstruct P (chs ! k) = Inr (hats ! k)) \<and>
     ch' = last (ch # chs) \<and>
     c_tensor_hat_plus ch' = foldl tadd (c_tensor_hat_plus ch) (drop (burn_iter - i) hats)"
  using assms
proof (induction n arbitrary: i ch)
  case 0
  then show ?case by simp
next
  case (Suc n)
  have "[i..<i + Suc n] = i # [Suc i..<Suc i + n]" by (simp add: upt_conv_Cons)
  with Suc.prems obtain ch1 where s1: "sweep L P burn_iter i ch = Inr ch1"
    and rest: "sweeps L P burn_iter [Suc i..<Suc i + n] ch1 = Inr ch'"
    by (auto simp: and_then_eq_Inr)
  from sweep_accumulates [OF s1] obtain hat1 where h1: "reconstruct P ch1 = Inr hat1"
    and p1: "c_tensor_hat_plus ch1 = (if i + 1 > burn_iter then tadd (c_tensor_hat_plus ch) hat1
                              else c_tensor_hat_plus ch)" by blast
  from Suc.IH [OF rest] obtain chs hats where
    len: "length chs = n" "length hats = n"
    and steps: "\<forall>k<n. sweep L P burn_iter (Suc i + k) ((ch1 # chs) ! k) = Inr (chs ! k) \<and>
            reconstruct P (chs ! k) = Inr (hats ! k)"
    and last: "ch' = last (ch1 # chs)"
    and acc: "c_tensor_hat_plus ch' = foldl tadd (c_tensor_hat_plus ch1) (drop (burn_iter - Suc i) hats)"
    by blast
  have steps': "sweep L P burn_iter (i + k) ((ch # ch1 # chs) ! k) = Inr ((ch1 # chs) ! k) \<and>
            reconstruct P ((ch1 # chs) ! k) = Inr ((hat1 # hats) ! k)" if "k < Suc n" for k
  proof (cases k)
    case 0
    then show ?thesis using s1 h1 by simp
  next
    case (Suc k')
    with that have "k' < n" by simp
    with steps Suc show ?thesis by simp
  qed
  have acc': "c_tensor_hat_plus ch' =
      foldl tadd (c_tensor_hat_plus ch) (drop (burn_iter - i) (hat1 # hats))"
  proof (cases "i + 1 > burn_iter")
    case True
    then have "burn_iter - i = 0" "burn_iter - Suc i = 0" by simp_all
    with acc p1 True show ?thesis by simp
  next
    case False
    then have "burn_iter - i = Suc (burn_iter - Suc i)" by simp
    with acc p1 False show ?thesis by simp
  qed
  show ?case
    apply (rule exI [of _ "ch1 # chs"])
    apply (rule exI [of _ "hat1 # hats"])
    using len steps' last acc' by simp
qed

subsection \<open>What BPTF leaves in the caller's arrays\<close>

lemma row_loop_frame:
  "row_loop L var3 var4 f is w = Inr w' \<Longrightarrow> r \<noteq> f \<Longrightarrow> fst w' r = fst w r"
proof (induction "is" arbitrary: w)
  case Nil then show ?case by simp
next
  case (Cons i rest)
  obtain m g where w: "w = (m, g)" by (cases w)
  from Cons.prems obtain row g' where
    "row_loop L var3 var4 f rest (m(f := (m f)[i := row]), g') = Inr w'"
    by (auto simp: w and_then_eq_Inr)
  from Cons.IH [OF this Cons.prems(2)] Cons.prems(2) show ?case by (simp add: w)
qed

lemma x_loop_frame:
  "x_loop L var3 var4 Lam mu X dim3 ts w = Inr w' \<Longrightarrow> r \<noteq> X \<Longrightarrow> fst w' r = fst w r"
proof (induction ts arbitrary: w)
  case Nil then show ?case by simp
next
  case (Cons t rest)
  obtain m g where w: "w = (m, g)" by (cases w)
  from Cons.prems obtain row g' where
    "x_loop L var3 var4 Lam mu X dim3 rest (m(X := (m X)[t := row]), g') = Inr w'"
    by (auto simp: w and_then_eq_Inr)
  from Cons.IH [OF this Cons.prems(2)] Cons.prems(2) show ?case by (simp add: w)
qed

lemma sample_entity_frame:
  assumes "sample_entity L mode ts ti f a b beta0 w = Inr w'" "r \<noteq> f"
  shows "fst w' r = fst w r"
proof -
  obtain m g where w: "w = (m, g)" by (cases w)
  from assms obtain var3 var4 g2 where
    "row_loop L var3 var4 f [0..<length (m f)] (m, g2) = Inr w'"
    by (auto simp: w sample_entity_def and_then_eq_Inr)
  from row_loop_frame [OF this assms(2)] show ?thesis by (simp add: w)
qed

lemma sample_factor_x_frame:
  assumes "sample_factor_x L ts ti U V X beta0 w = Inr w'" "r \<noteq> X"
  shows "fst w' r = fst w r"
proof -
  obtain m g where w: "w = (m, g)" by (cases w)
  from assms obtain var3 var4 Lam mu g2 where
    "x_loop L var3 var4 Lam mu X (length (m X)) [0..<length (m X)] (m, g2) = Inr w'"
    by (auto simp: w sample_factor_x_def and_then_eq_Inr)
  from x_loop_frame [OF this assms(2)] show ?thesis by (simp add: w)
qed

lemma sweep_steps:
  assumes "sweep L P burn_iter it ch = Inr ch'"
  shows "\<exists>w1 w2 g3.
     sample_factor_u L (map3 (\<lambda>x. c_tau ch * x) (map3 fl_real (tens (s_store P) (s_sparse P))))
        (map3 (\<lambda>b. c_tau ch * of_bool b) (s_ind P)) (s_U P) (s_V P) (s_X P) 1
        (c_mats ch, c_rng ch) = Inr w1 \<and>
     sample_factor_v L (map3 (\<lambda>x. c_tau ch * x) (map3 fl_real (tens (s_store P) (s_sparse P))))
        (map3 (\<lambda>b. c_tau ch * of_bool b) (s_ind P)) (s_U P) (s_V P) (s_X P) 1 w1 = Inr w2 \<and>
     sample_factor_x L (map3 (\<lambda>x. c_tau ch * x) (map3 fl_real (tens (s_store P) (s_sparse P))))
        (map3 (\<lambda>b. c_tau ch * of_bool b) (s_ind P)) (s_U P) (s_V P) (s_X P) 1 w2
       = Inr (c_mats ch', g3)"
  using assms
  by (auto simp: sweep_def Let_def and_then_eq_Inr split: if_splits)

lemma sweep_frame:
  assumes "sweep L P burn_iter it ch = Inr ch'"
    and "r \<noteq> s_U P" "r \<noteq> s_V P" "r \<noteq> s_X P"
  shows "c_mats ch' r = c_mats ch r"
proof -
  from sweep_steps [OF assms(1)] obtain ts ti w1 w2 g3 where
    u: "sample_factor_u L ts ti (s_U P) (s_V P) (s_X P) 1 (c_mats ch, c_rng ch) = Inr w1"
    and v: "sample_factor_v L ts ti (s_U P) (s_V P) (s_X P) 1 w1 = Inr w2"
    and x: "sample_factor_x L ts ti (s_U P) (s_V P) (s_X P) 1 w2 = Inr (c_mats ch', g3)"
    by blast
  from sample_factor_x_frame [OF x assms(4)] have "c_mats ch' r = fst w2 r" by simp
  also from v assms(3) have "\<dots> = fst w1 r"
    by (simp add: sample_factor_v_def sample_entity_frame)
  also from u assms(2) have "\<dots> = c_mats ch r"
    by (simp add: sample_factor_u_def sample_entity_frame)
  finally show ?thesis .
qed

lemma sweeps_frame:
  assumes "sweeps L P burn_iter its ch = Inr ch'"
    and "r \<noteq> s_U P" "r \<noteq> s_V P" "r \<noteq> s_X P"
  shows "c_mats ch' r = c_mats ch r"
  using assms(1)
proof (induction its arbitrary: ch)
  case Nil then show ?case by simp
next
  case (Cons it rest)
  then obtain ch1 where "sweep L P burn_iter it ch = Inr ch1"
    "sweeps L P burn_iter rest ch1 = Inr ch'"
    by (auto simp: and_then_eq_Inr)
  with Cons.IH [of ch1] sweep_frame [OF _ assms(2-4)] show ?case by simp
qed

lemma sweeps_append:
  "sweeps L P burn_iter (xs @ ys) ch = and_then (sweeps L P burn_iter xs ch) (sweeps L P burn_iter ys)"
  by (induction xs arbitrary: ch) (simp_all add: and_then_def split: sum.splits)

lemma BPTF_setup_store:
  assumes "BPTF_setup st dense_tensor sparse_tensor ini = Inr P"
  shows "s_store P =
       (if has_nan (tens st sparse_tensor)
        then st\<lparr>tens := (tens st)(sparse_tensor := map3 nan_to_zero (tens st sparse_tensor))\<rparr>
        else st)"
proof (cases "has_nan (tens st sparse_tensor)")
  case True
  with assms show ?thesis
    by (auto simp: BPTF_setup_def Let_def and_then_eq_Inr simp del: fun_upd_apply)
next
  case False
  with assms show ?thesis
    by (auto simp: BPTF_setup_def Let_def and_then_eq_Inr)
qed

text \<open>
  Claim C9. When BPTF returns: the caller's sparse tensor holds zero where it held NaN
  (and is untouched when it held none); the caller's factor matrices are what the last
  sweep's \<open>sample_factor_x\<close> left in the store, after \<open>sample_factor_u\<close> and
  \<open>sample_factor_v\<close> of that sweep wrote \<open>U\<close> and \<open>V\<close>; no other matrix of the store
  has changed.
\<close>

theorem BPTF_mutates_inputs:
  assumes "BPTF L dense_tensor sparse_tensor ini burn_iter gibbs_iter (st, g) = Inr out"
  shows "tens (o_store out) =
       (if has_nan (tens st sparse_tensor)
        then (tens st)(sparse_tensor := map3 nan_to_zero (tens st sparse_tensor))
        else tens st) \<and>
     (\<forall>r. r \<noteq> init_U ini \<and> r \<noteq> init_V ini \<and> r \<noteq> init_X ini \<longrightarrow>
          mats (o_store out) r = mats st r) \<and>
     (0 < burn_iter + gibbs_iter \<longrightarrow>
        (\<exists>P ch0 ts ti w1 w2 g3.
           BPTF_setup st dense_tensor sparse_tensor ini = Inr P \<and>
           sweeps L P burn_iter [0..<burn_iter + gibbs_iter - 1] (start_chain P g) = Inr ch0 \<and>
           sample_factor_u L ts ti (init_U ini) (init_V ini) (init_X ini) 1
              (c_mats ch0, c_rng ch0) = Inr w1 \<and>
           sample_factor_v L ts ti (init_U ini) (init_V ini) (init_X ini) 1 w1 = Inr w2 \<and>
           sample_factor_x L ts ti (init_U ini) (init_V ini) (init_X ini) 1 w2
              = Inr (mats (o_store out), g3)))"
proof -
  from assms obtain P ch where P: "BPTF_setup st dense_tensor sparse_tensor ini = Inr P"
    and sw: "sweeps L P burn_iter [0..<burn_iter + gibbs_iter] (start_chain P g) = Inr ch"
    and fin: "BPTF_finish P gibbs_iter ch = Inr out"
    by (auto simp: BPTF_def and_then_eq_Inr)
  note loc = BPTF_setup_locals [OF P]
  from fin have store: "o_store out = (s_store P)\<lparr>mats := c_mats ch\<rparr>"
    by (auto simp: BPTF_finish_def Let_def and_then_eq_Inr)
  from BPTF_setup_store [OF P] store have a: "tens (o_store out) =
       (if has_nan (tens st sparse_tensor)
        then (tens st)(sparse_tensor := map3 nan_to_zero (tens st sparse_tensor))
        else tens st)" by simp
  have b: "mats (o_store out) r = mats st r"
    if "r \<noteq> init_U ini \<and> r \<noteq> init_V ini \<and> r \<noteq> init_X ini" for r
    using sweeps_frame [OF sw, of r] that loc store by (simp add: start_chain_def)
  have c: "\<exists>P ch0 ts ti w1 w2 g3.
           BPTF_setup st dense_tensor sparse_tensor ini = Inr P \<and>
           sweeps L P burn_iter [0..<burn_iter + gibbs_iter - 1] (start_chain P g) = Inr ch0 \<and>
           sample_factor_u L ts ti (init_U ini) (init_V ini) (init_X ini) 1
              (c_mats ch0, c_rng ch0) = Inr w1 \<and>
           sample_factor_v L ts ti (init_U ini) (init_V ini) (init_X ini) 1 w1 = Inr w2 \<and>
           sample_factor_x L ts ti (init_U ini) (init_V ini) (init_X ini) 1 w2
              = Inr (mats (o_store out), g3)"
    if "0 < burn_iter + gibbs_iter"
  proof -
    let ?n = "burn_iter + gibbs_iter - 1"
    from that have "[0..<burn_iter + gibbs_iter] = [0..<?n] @ [?n]"
      by (metis Suc_diff_1 upt_Suc_append zero_le)
    with sw obtain ch0 where ch0: "sweeps L P burn_iter [0..<?n] (start_chain P g) = Inr ch0"
      and last: "sweep L P burn_iter ?n ch0 = Inr ch"
      by (auto simp: sweeps_append and_then_eq_Inr)
    from sweep_steps [OF last] loc store P ch0 show ?thesis by fastforce
  qed
  from a b c show ?thesis by blast
qed

lemma run_result:
  "\<exists>out. BPTF lib2 0 1 example_init 1 1 (run_store, 0) = Inr out \<and>
     o_tensor_hat out = [[[Fin (65666571 / 820024676), Fin (65666571 / 820024676)]]] \<and>
     mats (o_store out) 0 = [[1915 / 3528, 185 / 882]] \<and>
     mats (o_store out) 1 = [[534257538 / 1025030845, 281824089 / 820024676]] \<and>
     mats (o_store out) 2 = [[3 / 16, 3 / 8], [3 / 16, 3 / 8]] \<and>
     tens (o_store out) 1 = [[[Fin 1, Fin 0]]] \<and>
     o_rng out = 22"
  by (simp add: loop_defs setup_defs sampler_defs run_store_def example_init_def
      two_slice_mats_def lib2_defs arr_defs upt_conv_Cons)

theorem BPTF_mutates_inputs_witness:
  "\<exists>out. BPTF lib2 0 1 example_init 1 1 (run_store, 0) = Inr out \<and>
     tens run_store 1 = [[[Fin 1, NaN]]] \<and> tens (o_store out) 1 = [[[Fin 1, Fin 0]]] \<and>
     mats run_store 0 = [[1, 0]] \<and> mats (o_store out) 0 = [[1915 / 3528, 185 / 882]] \<and>
     mats run_store 1 = [[1, 1]] \<and>
     mats (o_store out) 1 = [[534257538 / 1025030845, 281824089 / 820024676]] \<and>
     mats run_store 2 = [[1, 0], [0, 1]] \<and>
     mats (o_store out) 2 = [[3 / 16, 3 / 8], [3 / 16, 3 / 8]] \<and>
     mats (o_store out) 3 = mats run_store 3 \<and>
     (\<exists>w2 ts ti g3. sample_factor_x lib2 ts ti 0 1 2 1 w2 = Inr (mats (o_store out), g3))"
proof -
  from run_result obtain out where out: "BPTF lib2 0 1 example_init 1 1 (run_store, 0) = Inr out"
    and vals: "mats (o_store out) 0 = [[1915 / 3528, 185 / 882]]"
      "mats (o_store out) 1 = [[534257538 / 1025030845, 281824089 / 820024676]]"
      "mats (o_store out) 2 = [[3 / 16, 3 / 8], [3 / 16, 3 / 8]]"
    by blast
  have init: "tens run_store 1 = [[[Fin 1, NaN]]]" "mats run_store 0 = [[1, 0]]"
    "mats run_store 1 = [[1, 1]]" "mats run_store 2 = [[1, 0], [0, 1]]"
    "has_nan (tens run_store 1)"
    by (simp_all add: run_store_def two_slice_mats_def has_nan_def)
  note main = BPTF_mutates_inputs [OF out]
  have ini: "init_U example_init = 0" "init_V example_init = 1" "init_X example_init = 2"
    by (simp_all add: example_init_def)
  from main have a: "tens (o_store out) = (tens run_store)(1 := map3 nan_to_zero (tens run_store 1))"
    using init(5) by simp
  from main have "\<forall>r. r \<noteq> 0 \<and> r \<noteq> 1 \<and> r \<noteq> 2 \<longrightarrow> mats (o_store out) r = mats run_store r"
    unfolding ini by (elim conjE)
  then have b: "mats (o_store out) 3 = mats run_store 3" by simp
  from main have "\<exists>P ch0 ts ti w1 w2 g3.
           BPTF_setup run_store 0 1 example_init = Inr P \<and>
           sweeps lib2 P 1 [0..<1 + 1 - 1] (start_chain P 0) = Inr ch0 \<and>
           sample_factor_u lib2 ts ti 0 1 2 1 (c_mats ch0, c_rng ch0) = Inr w1 \<and>
           sample_factor_v lib2 ts ti 0 1 2 1 w1 = Inr w2 \<and>
           sample_factor_x lib2 ts ti 0 1 2 1 w2 = Inr (mats (o_store out), g3)"
    unfolding ini by simp
  then have c: "\<exists>w2 ts ti g3. sample_factor_x lib2 ts ti 0 1 2 1 w2 = Inr (mats (o_store out), g3)"
    by blast
  from a init(1) have "tens (o_store out) 1 = [[[Fin 1, Fin 0]]]"
    by (simp add: map3_def)
  with out vals init b c show ?thesis by blast
qed

subsection \<open>The temporal sampler, row by row\<close>

lemma x_loop_rows:
  assumes "x_loop L var3 var4 Lam mu X n [i..<n] (m, g) = Inr (m', g')"
    and "length (m X) = n" "i \<le> n"
  shows "length (m' X) = n \<and> take i (m' X) = take i (m X) \<and>
     (\<exists>gs. length gs = n - i + 1 \<and> gs ! 0 = g \<and> gs ! (n - i) = g' \<and>
        (\<forall>t. i \<le> t \<and> t < n \<longrightarrow>
           x_step L var3 var4 Lam mu n t (take t (m' X) @ drop t (m X)) (gs ! (t - i))
             = Inr (m' X ! t, gs ! (t - i + 1))))"
  using assms
proof (induction "n - i" arbitrary: i m g)
  case 0
  then have "i = n" by simp
  with "0.prems" show ?case
    by (auto intro!: exI [of _ "[g]"])
next
  case (Suc k)
  then have i: "i < n" by simp
  then have upt: "[i..<n] = i # [Suc i..<n]" by (simp add: upt_conv_Cons)
  from Suc.prems(1) obtain row g1 where
    step: "x_step L var3 var4 Lam mu n i (m X) g = Inr (row, g1)"
    and rest: "x_loop L var3 var4 Lam mu X n [Suc i..<n] (m(X := (m X)[i := row]), g1) = Inr (m', g')"
    unfolding upt by (auto simp: and_then_eq_Inr)
  let ?m1 = "m(X := (m X)[i := row])"
  have k: "k = n - Suc i" using Suc.hyps(2) by simp
  have len1: "length (?m1 X) = n" using Suc.prems(2) by simp
  from Suc.hyps(1) [OF k rest len1] i obtain gs where
    len: "length (m' X) = n"
    and tk: "take (Suc i) (m' X) = take (Suc i) (?m1 X)"
    and gs: "length gs = n - Suc i + 1" "gs ! 0 = g1" "gs ! (n - Suc i) = g'"
    and steps: "\<forall>t. Suc i \<le> t \<and> t < n \<longrightarrow>
           x_step L var3 var4 Lam mu n t (take t (m' X) @ drop t (?m1 X)) (gs ! (t - Suc i))
             = Inr (m' X ! t, gs ! (t - Suc i + 1))"
    by auto
  from tk have tk': "take (Suc i) (m' X) = take (Suc i) ((m X)[i := row])" by simp
  have row: "m' X ! i = row"
  proof -
    have "m' X ! i = take (Suc i) (m' X) ! i" by simp
    also have "\<dots> = take (Suc i) ((m X)[i := row]) ! i" by (simp only: tk')
    also have "\<dots> = row" using i Suc.prems(2) by simp
    finally show ?thesis .
  qed
  have tki: "take i (m' X) = take i (m X)"
  proof -
    have "take i (m' X) = take i (take (Suc i) (m' X))" by (simp add: min_def)
    also have "\<dots> = take i (take (Suc i) ((m X)[i := row]))" by (simp only: tk')
    also have "\<dots> = take i (m X)" by (simp add: min_def)
    finally show ?thesis .
  qed
  let ?gs = "g # gs"
  have "x_step L var3 var4 Lam mu n t (take t (m' X) @ drop t (m X)) (?gs ! (t - i))
             = Inr (m' X ! t, ?gs ! (t - i + 1))" if t: "i \<le> t \<and> t < n" for t
  proof (cases "t = i")
    case True
    then show ?thesis using step row tki gs(2) by simp
  next
    case False
    with t have t': "Suc i \<le> t \<and> t < n" by simp
    then have "drop t ((m X)[i := row]) = drop t (m X)" by simp
    moreover from t' have "t - i = Suc (t - Suc i)" by arith
    ultimately show ?thesis using steps t' by simp
  qed
  moreover have "length ?gs = n - i + 1" using gs(1) i by simp
  moreover have "?gs ! (n - i) = g'"
  proof -
    from i have "n - i = Suc (n - Suc i)" by arith
    with gs(3) show ?thesis by simp
  qed
  ultimately show ?case using len tki
    by (intro conjI exI [of _ ?gs]) simp_all
qed

lemma nth_new_old:
  assumes "length new = n" "length old = n" "t \<le> n"
  shows "j < t \<Longrightarrow> (take t new @ drop t old) ! j = new ! j"
    and "t \<le> j \<Longrightarrow> j < n \<Longrightarrow> (take t new @ drop t old) ! j = old ! j"
    and "length (take t new @ drop t old) = n"
  using assms by (simp_all add: nth_append min_def)

lemma x_step_last:
  assumes "0 < t" "t = dim3 - 1"
  shows "x_step L var3 var4 Lam mu dim3 t Xm g =
        and_then (getcol var4 t) (\<lambda>c.
        and_then (getrow Xm (t - 1)) (\<lambda>x_prev.
        and_then (vec_add c (matvec Lam x_prev)) (\<lambda>temp1.
        and_then (solve L (madd (slice3 var3 t) Lam) temp1) (\<lambda>mean.
        mvnrnd_pre L mean (madd (slice3 var3 t) Lam) g))))"
  using assms by (simp add: x_step_def Let_def)

subsection \<open>Matrix algebra on lists\<close>

lemma dot_sum:
  assumes "length a = k" "length b = k"
  shows "dot a b = (\<Sum>l<k. a ! l * b ! l)"
proof -
  have "dot a b = sum_list (map (\<lambda>l. a ! l * b ! l) [0..<k])"
    unfolding dot_def
    by (rule arg_cong [where f = sum_list], rule nth_equalityI) (use assms in auto)
  also have "\<dots> = (\<Sum>l<k. a ! l * b ! l)"
    by (simp add: interv_sum_list_conv_sum_set_nat atLeast0LessThan)
  finally show ?thesis .
qed

lemma mat_eqI:
  assumes "is_mat n m A" "is_mat n m B" "\<And>i j. i < n \<Longrightarrow> j < m \<Longrightarrow> A ! i ! j = B ! i ! j"
  shows "A = B"
proof (rule nth_equalityI)
  show "length A = length B" using assms by (simp add: is_mat_length)
next
  fix i assume "i < length A"
  then have i: "i < n" using assms by (simp add: is_mat_length)
  show "A ! i = B ! i"
    by (rule nth_equalityI) (use assms i in \<open>auto simp: is_mat_nth\<close>)
qed

lemma mprod_is_mat:
  assumes "is_mat n k A" "is_mat k m B" "0 < k"
  shows "is_mat n m (mprod A B)"
  using assms by (simp add: mprod_def ncols_is_mat is_mat_def list_all_length)

lemma mprod_nth:
  assumes "is_mat n k A" "is_mat k m B" "0 < k" "i < n" "j < m"
  shows "mprod A B ! i ! j = (\<Sum>l<k. A ! i ! l * B ! l ! j)"
proof -
  have "mprod A B ! i ! j = dot (A ! i) (column B j)"
    using assms by (simp add: mprod_def ncols_is_mat is_mat_length)
  also have "\<dots> = (\<Sum>l<k. A ! i ! l * column B j ! l)"
    using assms by (intro dot_sum) (simp_all add: is_mat_nth is_mat_length)
  also have "\<dots> = (\<Sum>l<k. A ! i ! l * B ! l ! j)"
    using assms by (intro sum.cong) (simp_all add: column_def is_mat_length)
  finally show ?thesis .
qed

lemma mprod_sq:
  "is_mat n n A \<Longrightarrow> is_mat n n B \<Longrightarrow> 0 < n \<Longrightarrow> is_mat n n (mprod A B)"
  by (rule mprod_is_mat)

lemma mprod_nth_sq:
  "is_mat n n A \<Longrightarrow> is_mat n n B \<Longrightarrow> i < n \<Longrightarrow> j < n \<Longrightarrow>
     mprod A B ! i ! j = (\<Sum>l<n. A ! i ! l * B ! l ! j)"
  by (rule mprod_nth) auto

lemma transpose_nth:
  assumes "is_mat n m A" "i < m" "j < n"
  shows "transpose_mat A ! i ! j = A ! j ! i"
proof -
  from assms(3) have "0 < n" by simp
  with assms show ?thesis
    by (simp add: transpose_mat_def ncols_is_mat column_def is_mat_length)
qed

lemma eye_is_mat [simp]: "is_mat n n (eye n)"
  by (simp add: eye_def is_mat_def list_all_length)

lemma eye_nth: "i < n \<Longrightarrow> j < n \<Longrightarrow> eye n ! i ! j = (if i = j then 1 else 0)"
  by (simp add: eye_def)

lemma mprod_assoc:
  assumes "is_mat n n A" "is_mat n n B" "is_mat n n C" "0 < n"
  shows "mprod (mprod A B) C = mprod A (mprod B C)"
proof (rule mat_eqI [where n = n and m = n])
  show "is_mat n n (mprod (mprod A B) C)" "is_mat n n (mprod A (mprod B C))"
    using assms by (simp_all add: mprod_sq)
next
  fix i j assume ij: "i < n" "j < n"
  have AB: "is_mat n n (mprod A B)" and BC: "is_mat n n (mprod B C)"
    using assms by (simp_all add: mprod_sq)
  have "mprod (mprod A B) C ! i ! j = (\<Sum>l<n. (\<Sum>k<n. A ! i ! k * B ! k ! l) * C ! l ! j)"
    using assms ij AB by (simp add: mprod_nth_sq)
  also have "\<dots> = (\<Sum>l<n. \<Sum>k<n. A ! i ! k * B ! k ! l * C ! l ! j)"
    by (simp add: sum_distrib_right)
  also have "\<dots> = (\<Sum>k<n. \<Sum>l<n. A ! i ! k * B ! k ! l * C ! l ! j)"
    by (rule sum.swap)
  also have "\<dots> = (\<Sum>k<n. A ! i ! k * (\<Sum>l<n. B ! k ! l * C ! l ! j))"
    by (simp add: sum_distrib_left mult.assoc)
  also have "\<dots> = mprod A (mprod B C) ! i ! j"
    using assms ij BC by (simp add: mprod_nth_sq)
  finally show "mprod (mprod A B) C ! i ! j = mprod A (mprod B C) ! i ! j" .
qed

lemma transpose_mprod:
  assumes "is_mat n n A" "is_mat n n B" "0 < n"
  shows "transpose_mat (mprod A B) = mprod (transpose_mat B) (transpose_mat A)"
proof (rule mat_eqI [where n = n and m = n])
  have AB: "is_mat n n (mprod A B)" using assms by (simp add: mprod_sq)
  have tA: "is_mat n n (transpose_mat A)" and tB: "is_mat n n (transpose_mat B)"
    using assms by (simp_all add: is_mat_transpose)
  show "is_mat n n (transpose_mat (mprod A B))" using AB assms by (simp add: is_mat_transpose)
  show "is_mat n n (mprod (transpose_mat B) (transpose_mat A))"
    using tA tB assms by (simp add: mprod_sq)
  fix i j assume ij: "i < n" "j < n"
  have "transpose_mat (mprod A B) ! i ! j = (\<Sum>l<n. A ! j ! l * B ! l ! i)"
    using assms ij AB by (simp add: transpose_nth [where n = n] mprod_nth_sq)
  also have "\<dots> = (\<Sum>l<n. transpose_mat B ! i ! l * transpose_mat A ! l ! j)"
    using assms ij by (intro sum.cong) (simp_all add: transpose_nth [where n = n] mult.commute)
  also have "\<dots> = mprod (transpose_mat B) (transpose_mat A) ! i ! j"
    using assms ij tA tB by (simp add: mprod_nth_sq)
  finally show "transpose_mat (mprod A B) ! i ! j
      = mprod (transpose_mat B) (transpose_mat A) ! i ! j" .
qed

lemma mprod_eye_left:
  assumes "is_mat n n A" "0 < n"
  shows "mprod (eye n) A = A"
proof (rule mat_eqI [where n = n and m = n])
  show "is_mat n n (mprod (eye n) A)" "is_mat n n A" using assms by (simp_all add: mprod_sq)
  fix i j assume ij: "i < n" "j < n"
  have "mprod (eye n) A ! i ! j = (\<Sum>l<n. (if i = l then 1 else 0) * A ! l ! j)"
    using assms ij by (simp add: mprod_nth_sq [where n = n] eye_nth)
  also have "\<dots> = (\<Sum>l<n. if l = i then A ! l ! j else 0)"
    by (intro sum.cong) auto
  also have "\<dots> = A ! i ! j" using ij by simp
  finally show "mprod (eye n) A ! i ! j = A ! i ! j" .
qed

lemma transpose_eye: "0 < n \<Longrightarrow> transpose_mat (eye n) = eye n"
  by (rule mat_eqI [where n = n and m = n])
    (auto simp: is_mat_transpose transpose_nth [where n = n and m = n] eye_nth)

lemma matvec_nth:
  assumes "is_mat n k A" "length v = k" "i < n"
  shows "matvec A v ! i = (\<Sum>l<k. A ! i ! l * v ! l)"
  using assms by (simp add: matvec_def is_mat_length dot_sum is_mat_nth)

lemma length_matvec [simp]: "length (matvec A v) = length A"
  by (simp add: matvec_def)

lemma matvec_mprod:
  assumes "is_mat n n A" "is_mat n n B" "length v = n" "0 < n"
  shows "matvec (mprod A B) v = matvec A (matvec B v)"
proof (rule nth_equalityI)
  have AB: "is_mat n n (mprod A B)" using assms by (simp add: mprod_sq)
  show "length (matvec (mprod A B) v) = length (matvec A (matvec B v))"
    using AB assms by (simp add: is_mat_length)
  fix i assume "i < length (matvec (mprod A B) v)"
  then have i: "i < n" using AB by (simp add: is_mat_length)
  have lB: "length (matvec B v) = n" using assms by (simp add: is_mat_length)
  have "matvec (mprod A B) v ! i = (\<Sum>l<n. (\<Sum>k<n. A ! i ! k * B ! k ! l) * v ! l)"
    using assms i AB by (simp add: matvec_nth [where n = n and k = n] mprod_nth_sq)
  also have "\<dots> = (\<Sum>l<n. \<Sum>k<n. A ! i ! k * B ! k ! l * v ! l)"
    by (simp add: sum_distrib_right)
  also have "\<dots> = (\<Sum>k<n. \<Sum>l<n. A ! i ! k * B ! k ! l * v ! l)"
    by (rule sum.swap)
  also have "\<dots> = (\<Sum>k<n. A ! i ! k * (\<Sum>l<n. B ! k ! l * v ! l))"
    by (simp add: sum_distrib_left mult.assoc)
  also have "\<dots> = matvec A (matvec B v) ! i"
    using assms i lB by (simp add: matvec_nth [where n = n and k = n])
  finally show "matvec (mprod A B) v ! i = matvec A (matvec B v) ! i" .
qed

lemma matvec_eye:
  assumes "length v = n"
  shows "matvec (eye n) v = v"
proof (rule nth_equalityI)
  show "length (matvec (eye n) v) = length v" using assms by (simp add: eye_def)
  fix i assume "i < length (matvec (eye n) v)"
  then have i: "i < n" by (simp add: eye_def)
  have "matvec (eye n) v ! i = (\<Sum>l<n. (if i = l then 1 else 0) * v ! l)"
    using assms i by (simp add: matvec_nth [where n = n and k = n] eye_nth)
  also have "\<dots> = (\<Sum>l<n. if l = i then v ! l else 0)"
    by (intro sum.cong) auto
  also have "\<dots> = v ! i" using i by simp
  finally show "matvec (eye n) v ! i = v ! i" .
qed

lemma inverse_of_precision:
  assumes C: "is_mat n n C" and D: "is_mat n n D" and n: "0 < n"
    and DC: "mprod D C = eye n" and CD: "mprod C D = eye n"
  shows "mprod (mprod (transpose_mat C) C) (mprod D (transpose_mat D)) = eye n"
    and "mprod (mprod D (transpose_mat D)) (mprod (transpose_mat C) C) = eye n"
proof -
  have tC: "is_mat n n (transpose_mat C)" and tD: "is_mat n n (transpose_mat D)"
    using C D n by (simp_all add: is_mat_transpose)
  have DtD: "is_mat n n (mprod D (transpose_mat D))" using D tD n by (simp add: mprod_sq)
  have tCC: "is_mat n n (mprod (transpose_mat C) C)" using C tC n by (simp add: mprod_sq)
  have tCtD: "mprod (transpose_mat C) (transpose_mat D) = eye n"
    using transpose_mprod [OF D C n] DC n by (simp add: transpose_eye)
  have tDtC: "mprod (transpose_mat D) (transpose_mat C) = eye n"
    using transpose_mprod [OF C D n] CD n by (simp add: transpose_eye)
  have "mprod (mprod (transpose_mat C) C) (mprod D (transpose_mat D))
      = mprod (transpose_mat C) (mprod C (mprod D (transpose_mat D)))"
    using tC C DtD n by (rule mprod_assoc)
  also have "mprod C (mprod D (transpose_mat D)) = mprod (mprod C D) (transpose_mat D)"
    using mprod_assoc [OF C D tD n] by simp
  also have "\<dots> = transpose_mat D" using CD tD n by (simp add: mprod_eye_left)
  finally show "mprod (mprod (transpose_mat C) C) (mprod D (transpose_mat D)) = eye n"
    using tCtD by simp
  have "mprod (mprod D (transpose_mat D)) (mprod (transpose_mat C) C)
      = mprod D (mprod (transpose_mat D) (mprod (transpose_mat C) C))"
    using D tD tCC n by (rule mprod_assoc)
  also have "mprod (transpose_mat D) (mprod (transpose_mat C) C)
      = mprod (mprod (transpose_mat D) (transpose_mat C)) C"
    using mprod_assoc [OF tD tC C n] by simp
  also have "\<dots> = C" using tDtC C n by (simp add: mprod_eye_left)
  finally show "mprod (mprod D (transpose_mat D)) (mprod (transpose_mat C) C) = eye n"
    using DC by simp
qed

lemma second_moment_linear_image:
  fixes E :: "('w \<Rightarrow> real) \<Rightarrow> real" and zs :: "'w \<Rightarrow> vec"
  assumes D: "is_mat n n D"
    and len: "\<And>w. length (zs w) = n"
    and lin: "\<And>a. E (\<lambda>w. \<Sum>k<n. \<Sum>l<n. a k l * (zs w ! k * zs w ! l))
                   = (\<Sum>k<n. \<Sum>l<n. a k l * E (\<lambda>w. zs w ! k * zs w ! l))"
    and std: "\<And>k l. k < n \<Longrightarrow> l < n \<Longrightarrow> E (\<lambda>w. zs w ! k * zs w ! l) = (if k = l then 1 else 0)"
    and ij: "i < n" "j < n"
  shows "E (\<lambda>w. matvec D (zs w) ! i * matvec D (zs w) ! j) = mprod D (transpose_mat D) ! i ! j"
proof -
  have tD: "is_mat n n (transpose_mat D)" using D ij by (simp add: is_mat_transpose)
  have "(\<lambda>w. matvec D (zs w) ! i * matvec D (zs w) ! j)
      = (\<lambda>w. \<Sum>k<n. \<Sum>l<n. (D ! i ! k * D ! j ! l) * (zs w ! k * zs w ! l))"
  proof
    fix w
    have "matvec D (zs w) ! i * matvec D (zs w) ! j
        = (\<Sum>k<n. D ! i ! k * zs w ! k) * (\<Sum>l<n. D ! j ! l * zs w ! l)"
      using D len ij by (simp add: matvec_nth [where n = n and k = n])
    also have "\<dots> = (\<Sum>k<n. \<Sum>l<n. (D ! i ! k * zs w ! k) * (D ! j ! l * zs w ! l))"
      by (rule sum_product)
    also have "\<dots> = (\<Sum>k<n. \<Sum>l<n. (D ! i ! k * D ! j ! l) * (zs w ! k * zs w ! l))"
      by (intro sum.cong refl) (simp add: mult_ac)
    finally show "matvec D (zs w) ! i * matvec D (zs w) ! j
        = (\<Sum>k<n. \<Sum>l<n. (D ! i ! k * D ! j ! l) * (zs w ! k * zs w ! l))" .
  qed
  then have "E (\<lambda>w. matvec D (zs w) ! i * matvec D (zs w) ! j)
      = (\<Sum>k<n. \<Sum>l<n. (D ! i ! k * D ! j ! l) * E (\<lambda>w. zs w ! k * zs w ! l))"
    by (simp only: lin)
  also have "\<dots> = (\<Sum>k<n. \<Sum>l<n. if l = k then D ! i ! k * D ! j ! l else 0)"
    by (intro sum.cong refl) (auto simp: std)
  also have "\<dots> = (\<Sum>k<n. D ! i ! k * D ! j ! k)"
    by (intro sum.cong refl) simp
  also have "\<dots> = (\<Sum>k<n. D ! i ! k * transpose_mat D ! k ! j)"
    using D ij by (intro sum.cong refl) (simp add: transpose_nth [where n = n and m = n])
  also have "\<dots> = mprod D (transpose_mat D) ! i ! j"
    using D tD ij by (simp add: mprod_nth_sq [where n = n])
  finally show ?thesis .
qed

lemma mean_linear_image:
  fixes E :: "('w \<Rightarrow> real) \<Rightarrow> real" and zs :: "'w \<Rightarrow> vec"
  assumes D: "is_mat n n D"
    and len: "\<And>w. length (zs w) = n"
    and lin: "\<And>b. E (\<lambda>w. \<Sum>k<n. b k * zs w ! k) = (\<Sum>k<n. b k * E (\<lambda>w. zs w ! k))"
    and mean: "\<And>k. k < n \<Longrightarrow> E (\<lambda>w. zs w ! k) = 0"
    and i: "i < n"
  shows "E (\<lambda>w. matvec D (zs w) ! i) = 0"
proof -
  have "(\<lambda>w. matvec D (zs w) ! i) = (\<lambda>w. \<Sum>k<n. D ! i ! k * zs w ! k)"
    using D len i by (simp add: matvec_nth [where n = n and k = n])
  then have "E (\<lambda>w. matvec D (zs w) ! i) = (\<Sum>k<n. D ! i ! k * E (\<lambda>w. zs w ! k))"
    by (simp only: lin)
  also have "\<dots> = 0" by (simp add: mean)
  finally show ?thesis .
qed

text \<open>
  Claim C6. Let \<open>C\<close> be what \<open>cholesky_upper\<close> returns for \<open>\<Lambda>\<close>, with \<open>C\<^sup>T C = \<Lambda>\<close>,
  \<open>D\<close> its inverse, \<open>z\<close> the normal draw, and \<open>y\<close> what \<open>solve_ut\<close> returns for \<open>C\<close> and
  \<open>z\<close>, with \<open>C y = z\<close>. Then \<open>mvnrnd_pre\<close> returns \<open>y + \<mu>\<close>; \<open>y\<close> is \<open>D z\<close>; and
  \<open>D D\<^sup>T\<close> is the inverse of \<open>\<Lambda>\<close>. For every linear mean \<open>E\<close> and random vector \<open>zs\<close>
  with mean zero and identity second moments, \<open>D zs\<close> has mean zero and second moments
  \<open>D D\<^sup>T\<close>: the covariance of \<open>y\<close> is the inverse of \<open>\<Lambda>\<close>, not \<open>\<Lambda>\<close>.
\<close>

theorem mvnrnd_pre_precision_form:
  fixes E :: "('w \<Rightarrow> real) \<Rightarrow> real" and zs :: "'w \<Rightarrow> vec"
  assumes "length mu = n" "0 < n"
    and "cholesky_upper L Lambda = Inr C" "is_mat n n C" "mprod (transpose_mat C) C = Lambda"
    and "is_mat n n D" "mprod D C = eye n" "mprod C D = eye n"
    and "normrnd L n g = (z, g')" "length z = n"
    and "solve_ut L C z = Inr y" "length y = n" "matvec C y = z"
  shows "mvnrnd_pre L mu Lambda g = Inr (vadd y mu, g') \<and> y = matvec D z \<and>
     mprod Lambda (mprod D (transpose_mat D)) = eye n \<and>
     mprod (mprod D (transpose_mat D)) Lambda = eye n \<and>
     ((\<forall>w. length (zs w) = n) \<and>
      (\<forall>b. E (\<lambda>w. \<Sum>k<n. b k * zs w ! k) = (\<Sum>k<n. b k * E (\<lambda>w. zs w ! k))) \<and>
      (\<forall>a. E (\<lambda>w. \<Sum>k<n. \<Sum>l<n. a k l * (zs w ! k * zs w ! l))
             = (\<Sum>k<n. \<Sum>l<n. a k l * E (\<lambda>w. zs w ! k * zs w ! l))) \<and>
      (\<forall>k<n. E (\<lambda>w. zs w ! k) = 0) \<and>
      (\<forall>k<n. \<forall>l<n. E (\<lambda>w. zs w ! k * zs w ! l) = (if k = l then 1 else 0))
      \<longrightarrow> (\<forall>i<n. E (\<lambda>w. matvec D (zs w) ! i) = 0 \<and>
                 (\<forall>j<n. E (\<lambda>w. matvec D (zs w) ! i * matvec D (zs w) ! j)
                          = mprod D (transpose_mat D) ! i ! j)))"
proof (intro conjI impI)
  show "mvnrnd_pre L mu Lambda g = Inr (vadd y mu, g')"
    using assms by (simp add: mvnrnd_pre_def vec_add_def)
  have "y = matvec (eye n) y" using assms by (simp add: matvec_eye)
  also have "\<dots> = matvec (mprod D C) y" using assms by simp
  also have "\<dots> = matvec D (matvec C y)" using assms by (intro matvec_mprod) simp_all
  finally show "y = matvec D z" using assms by simp
  from inverse_of_precision [of n C D] assms
  show "mprod Lambda (mprod D (transpose_mat D)) = eye n"
    "mprod (mprod D (transpose_mat D)) Lambda = eye n" by simp_all
next
  assume h: "(\<forall>w. length (zs w) = n) \<and>
      (\<forall>b. E (\<lambda>w. \<Sum>k<n. b k * zs w ! k) = (\<Sum>k<n. b k * E (\<lambda>w. zs w ! k))) \<and>
      (\<forall>a. E (\<lambda>w. \<Sum>k<n. \<Sum>l<n. a k l * (zs w ! k * zs w ! l))
             = (\<Sum>k<n. \<Sum>l<n. a k l * E (\<lambda>w. zs w ! k * zs w ! l))) \<and>
      (\<forall>k<n. E (\<lambda>w. zs w ! k) = 0) \<and>
      (\<forall>k<n. \<forall>l<n. E (\<lambda>w. zs w ! k * zs w ! l) = (if k = l then 1 else 0))"
  show "\<forall>i<n. E (\<lambda>w. matvec D (zs w) ! i) = 0 \<and>
                 (\<forall>j<n. E (\<lambda>w. matvec D (zs w) ! i * matvec D (zs w) ! j)
                          = mprod D (transpose_mat D) ! i ! j)"
  proof (intro allI impI conjI)
    note len = h [THEN conjunct1, rule_format]
    note lin1 = h [THEN conjunct2, THEN conjunct1, rule_format]
    note lin2 = h [THEN conjunct2, THEN conjunct2, THEN conjunct1, rule_format]
    note mean = h [THEN conjunct2, THEN conjunct2, THEN conjunct2, THEN conjunct1, rule_format]
    note std = h [THEN conjunct2, THEN conjunct2, THEN conjunct2, THEN conjunct2, rule_format]
    fix i assume i: "i < n"
    show "E (\<lambda>w. matvec D (zs w) ! i) = 0"
      using assms(6) len lin1 mean i by (rule mean_linear_image)
    fix j assume j: "j < n"
    show "E (\<lambda>w. matvec D (zs w) ! i * matvec D (zs w) ! j)
                          = mprod D (transpose_mat D) ! i ! j"
      using assms(6) len lin2 std i j by (rule second_moment_linear_image)
  qed
qed

theorem mvnrnd_pre_precision_form_witness:
  "length [1, 1 :: real] = 2 \<and> (0::nat) < 2 \<and>
   cholesky_upper lib2_twos [[4, 2], [2, 5]] = Inr [[2, 1], [0, 2]] \<and>
   is_mat 2 2 [[2, 1], [0, 2 :: real]] \<and>
   mprod (transpose_mat [[2, 1], [0, 2]]) [[2, 1], [0, 2]] = [[4, 2], [2, 5]] \<and>
   is_mat 2 2 [[1 / 2, - 1 / 4], [0, 1 / 2 :: real]] \<and>
   mprod [[1 / 2, - 1 / 4], [0, 1 / 2]] [[2, 1], [0, 2]] = eye 2 \<and>
   mprod [[2, 1], [0, 2]] [[1 / 2, - 1 / 4], [0, 1 / 2]] = eye 2 \<and>
   normrnd lib2_twos 2 (0::nat) = ([2, 2], 1) \<and>
   solve_ut lib2_twos [[2, 1], [0, 2]] [2, 2] = Inr [1 / 2, 1] \<and>
   matvec [[2, 1], [0, 2]] [1 / 2, 1] = [2, 2] \<and>
   mvnrnd_pre lib2_twos [1, 1] [[4, 2], [2, 5]] 0 = Inr ([3 / 2, 2], 1) \<and>
   mprod [[4, 2], [2, 5]] (mprod [[1 / 2, - 1 / 4], [0, 1 / 2]]
       (transpose_mat [[1 / 2, - 1 / 4], [0, 1 / 2]])) = eye 2 \<and>
   (\<forall>w. length (signs w) = 2) \<and>
   mean4 (\<lambda>w. signs w ! 0) = 0 \<and> mean4 (\<lambda>w. signs w ! 1) = 0 \<and>
   mean4 (\<lambda>w. signs w ! 0 * signs w ! 0) = 1 \<and> mean4 (\<lambda>w. signs w ! 0 * signs w ! 1) = 0 \<and>
   mean4 (\<lambda>w. signs w ! 1 * signs w ! 0) = 0 \<and> mean4 (\<lambda>w. signs w ! 1 * signs w ! 1) = 1 \<and>
   mean4 (\<lambda>w. matvec [[1 / 2, - 1 / 4], [0, 1 / 2]] (signs w) ! 0
                * matvec [[1 / 2, - 1 / 4], [0, 1 / 2]] (signs w) ! 1)
     = mprod [[1 / 2, - 1 / 4], [0, 1 / 2]] (transpose_mat [[1 / 2, - 1 / 4], [0, 1 / 2]]) ! 0 ! 1"
proof -
  let ?C = "[[2, 1], [0, 2 :: real]]" and ?D = "[[1 / 2, - 1 / 4], [0, 1 / 2 :: real]]"
  have a: "length [1, 1 :: real] = 2" "(0::nat) < 2" by simp_all
  have b: "cholesky_upper lib2_twos [[4, 2], [2, 5]] = Inr ?C"
    by (simp add: lib2_twos_def lib2_defs)
  have c: "is_mat 2 2 ?C" "is_mat 2 2 ?D" by (simp_all add: is_mat_def)
  have d: "mprod (transpose_mat ?C) ?C = [[4, 2], [2, 5]]"
    "mprod ?D ?C = eye 2" "mprod ?C ?D = eye 2"
    by (simp_all add: arr_defs upt_conv_Cons)
  have e: "normrnd lib2_twos 2 (0::nat) = ([2, 2], 1)" "length [2, 2 :: real] = 2"
    by (simp_all add: lib2_twos_def lib2_def numeral_2_eq_2)
  have f: "solve_ut lib2_twos ?C [2, 2] = Inr [1 / 2, 1]" "length [1 / 2, 1 :: real] = 2"
    "matvec ?C [1 / 2, 1] = [2, 2]"
    by (simp_all add: lib2_twos_def lib2_defs arr_defs)
  have len: "\<forall>w. length (signs w) = 2" by (simp add: signs_def)
  have lin1: "\<forall>b. mean4 (\<lambda>w. \<Sum>k<2. b k * signs w ! k) = (\<Sum>k<2. b k * mean4 (\<lambda>w. signs w ! k))"
    by (simp add: mean4_def signs_def lessThan_Suc numeral_2_eq_2)
  have lin2: "\<forall>a. mean4 (\<lambda>w. \<Sum>k<2. \<Sum>l<2. a k l * (signs w ! k * signs w ! l))
             = (\<Sum>k<2. \<Sum>l<2. a k l * mean4 (\<lambda>w. signs w ! k * signs w ! l))"
    by (simp add: mean4_def signs_def lessThan_Suc numeral_2_eq_2)
  have mean: "\<forall>k<2. mean4 (\<lambda>w. signs w ! k) = 0"
    by (simp add: mean4_def signs_def less_Suc_eq numeral_2_eq_2)
  have std: "\<forall>k<2. \<forall>l<2. mean4 (\<lambda>w. signs w ! k * signs w ! l) = (if k = l then 1 else 0)"
    by (auto simp: mean4_def signs_def less_Suc_eq numeral_2_eq_2)
  note main = mvnrnd_pre_precision_form [where E = mean4 and zs = signs,
      OF a b c(1) d(1) c(2) d(2) d(3) e f]
  from main have g: "mvnrnd_pre lib2_twos [1, 1] [[4, 2], [2, 5]] 0 = Inr (vadd [1 / 2, 1] [1, 1], 1)"
    and h: "mprod [[4, 2], [2, 5]] (mprod ?D (transpose_mat ?D)) = eye 2"
    by blast+
  from main len lin1 lin2 mean std
  have "\<forall>i<2. mean4 (\<lambda>w. matvec ?D (signs w) ! i) = 0 \<and>
                 (\<forall>j<2. mean4 (\<lambda>w. matvec ?D (signs w) ! i * matvec ?D (signs w) ! j)
                          = mprod ?D (transpose_mat ?D) ! i ! j)"
    by blast
  then have i: "mean4 (\<lambda>w. matvec ?D (signs w) ! 0 * matvec ?D (signs w) ! 1)
     = mprod ?D (transpose_mat ?D) ! 0 ! 1"
    by simp
  from g have g': "mvnrnd_pre lib2_twos [1, 1] [[4, 2], [2, 5]] 0 = Inr ([3 / 2, 2], 1)"
    by (simp add: vadd_def)
  from mean have mean': "mean4 (\<lambda>w. signs w ! 0) = 0" "mean4 (\<lambda>w. signs w ! 1) = 0"
    by simp_all
  from std have std': "mean4 (\<lambda>w. signs w ! 0 * signs w ! 0) = 1"
    "mean4 (\<lambda>w. signs w ! 0 * signs w ! 1) = 0" "mean4 (\<lambda>w. signs w ! 1 * signs w ! 0) = 0"
    "mean4 (\<lambda>w. signs w ! 1 * signs w ! 1) = 1"
    by simp_all
  from a b c d e f g' h len mean' std' i show ?thesis by blast
qed

subsection \<open>The hyperparameters of an entity factor\<close>

lemma sum_list_map_nth:
  "sum_list (map f xs) = (\<Sum>i<length xs. f (xs ! i))"
proof -
  have "sum_list (map f xs) = (\<Sum>i = 0..<length (map f xs). map f xs ! i)"
    by (rule sum_list_sum_nth)
  also have "\<dots> = (\<Sum>i<length xs. f (xs ! i))"
    by (simp add: atLeast0LessThan)
  finally show ?thesis .
qed

lemma col_mean_nth:
  assumes "is_mat n R F" "0 < n" "s < R"
  shows "col_mean F ! s = (\<Sum>i<n. F ! i ! s) / real n"
  using assms
  by (simp add: col_mean_def ncols_is_mat column_def sum_list_map_nth is_mat_length)

lemma length_col_mean: "is_mat n R F \<Longrightarrow> 0 < n \<Longrightarrow> length (col_mean F) = R"
  by (simp add: col_mean_def ncols_is_mat)

lemma cov_mat_nth:
  assumes "is_mat n R F" "0 < n" "length Fb = R" "s < R" "s' < R"
  shows "cov_mat F Fb ! s ! s' = (\<Sum>i<n. (F ! i ! s - Fb ! s) * (F ! i ! s' - Fb ! s'))"
proof -
  have "cov_mat F Fb ! s ! s'
      = (\<Sum>i<n. map2 (-) (F ! i) Fb ! s * map2 (-) (F ! i) Fb ! s')"
    using assms
    by (simp add: cov_mat_def gram_def ncols_is_mat sum_list_map_nth is_mat_length)
  also have "\<dots> = (\<Sum>i<n. (F ! i ! s - Fb ! s) * (F ! i ! s' - Fb ! s'))"
    using assms by (intro sum.cong refl) (simp add: is_mat_nth)
  finally show ?thesis .
qed

lemma cov_mat_is_mat: "is_mat n R F \<Longrightarrow> 0 < n \<Longrightarrow> is_mat R R (cov_mat F Fb)"
  by (simp add: cov_mat_def gram_def ncols_is_mat is_mat_def list_all_length)

lemma outer_is_mat: "length a = n \<Longrightarrow> length b = k \<Longrightarrow> is_mat n k (outer a b)"
  by (simp add: outer_def is_mat_def list_all_length)

lemma madd_is_mat: "is_mat n k A \<Longrightarrow> is_mat n k B \<Longrightarrow> is_mat n k (madd A B)"
  by (simp add: madd_def is_mat_def list_all_length)

lemma msmult_is_mat [simp]: "is_mat n k (msmult c A) = is_mat n k A"
  by (simp add: msmult_def is_mat_def list_all_length)

lemma madd_nth:
  "is_mat n k A \<Longrightarrow> is_mat n k B \<Longrightarrow> i < n \<Longrightarrow> j < k \<Longrightarrow> madd A B ! i ! j = A ! i ! j + B ! i ! j"
  by (simp add: madd_def is_mat_def list_all_length)

lemma msmult_nth:
  "is_mat n k A \<Longrightarrow> i < n \<Longrightarrow> j < k \<Longrightarrow> msmult c A ! i ! j = c * A ! i ! j"
  by (simp add: msmult_def is_mat_def list_all_length)

lemma outer_nth: "i < length a \<Longrightarrow> j < length b \<Longrightarrow> outer a b ! i ! j = a ! i * b ! j"
  by (simp add: outer_def)

lemma hyper_scale_nth:
  assumes F: "is_mat n R F" "0 < n" and s: "s < R" "s' < R"
  shows "madd (madd (eye R) (cov_mat F (col_mean F)))
              (msmult c (outer (col_mean F) (col_mean F))) ! s ! s'
     = (if s = s' then 1 else 0)
       + (\<Sum>i<n. (F ! i ! s - (\<Sum>i<n. F ! i ! s) / real n)
                * (F ! i ! s' - (\<Sum>i<n. F ! i ! s') / real n))
       + c * ((\<Sum>i<n. F ! i ! s) / real n * ((\<Sum>i<n. F ! i ! s') / real n))"
proof -
  note len = length_col_mean [OF F]
  have 1: "is_mat R R (madd (eye R) (cov_mat F (col_mean F)))"
    using F by (intro madd_is_mat) (simp_all add: cov_mat_is_mat)
  have 2: "is_mat R R (outer (col_mean F) (col_mean F))"
    by (rule outer_is_mat [OF len len])
  have 3: "is_mat R R (cov_mat F (col_mean F))" using F by (rule cov_mat_is_mat)
  have "madd (madd (eye R) (cov_mat F (col_mean F)))
              (msmult c (outer (col_mean F) (col_mean F))) ! s ! s'
      = eye R ! s ! s' + cov_mat F (col_mean F) ! s ! s'
        + c * (col_mean F ! s * col_mean F ! s')"
    using s len 1 2 3
    by (simp add: madd_nth [where n = R and k = R] msmult_nth [where n = R and k = R] outer_nth)
  also have "cov_mat F (col_mean F) ! s ! s'
      = (\<Sum>i<n. (F ! i ! s - col_mean F ! s) * (F ! i ! s' - col_mean F ! s'))"
    using F len s by (rule cov_mat_nth)
  finally show ?thesis
    using s by (simp add: eye_nth col_mean_nth [OF F])
qed

lemma hyper_scale_is_mat:
  assumes "is_mat n R F" "0 < n"
  shows "is_mat R R (madd (madd (eye R) (cov_mat F (col_mean F)))
              (msmult c (outer (col_mean F) (col_mean F))))"
  using assms length_col_mean [OF assms]
  by (intro madd_is_mat) (simp_all add: cov_mat_is_mat outer_is_mat)

lemma smult_col_mean:
  assumes "is_mat n R F" "0 < n"
  shows "smult c (col_mean F) = map (\<lambda>s. c * ((\<Sum>i<n. F ! i ! s) / real n)) [0..<R]"
  using assms
  by (intro nth_equalityI) (simp_all add: smult_def length_col_mean col_mean_nth [where n = n and R = R])

lemma sample_entity_hyper:
  assumes call: "sample_entity L mode ts ti f a b beta0 (m, g) = Inr w'"
    and F: "is_mat n R (m f)" "0 < n"
  shows "\<exists>M W Lam g1 mu g2 var3 var4.
     is_mat R R M \<and>
     (\<forall>s<R. \<forall>s'<R. M ! s ! s' =
        (if s = s' then 1 else 0)
        + (\<Sum>i<n. (m f ! i ! s - (\<Sum>i<n. m f ! i ! s) / real n)
                 * (m f ! i ! s' - (\<Sum>i<n. m f ! i ! s') / real n))
        + real n / (real n + real beta0) * real beta0
          * ((\<Sum>i<n. m f ! i ! s) / real n * ((\<Sum>i<n. m f ! i ! s') / real n))) \<and>
     inv_mat L M = Inr W \<and>
     wishart_rvs L (n + R) W g = Inr (Lam, g1) \<and>
     mvnrnd_pre L (map (\<lambda>s. real n / (real n + real beta0) * ((\<Sum>i<n. m f ! i ! s) / real n)) [0..<R])
        (msmult (real n + real beta0) Lam) g1 = Inr (mu, g2) \<and>
     factor_hyper L (m f) beta0 g = Inr (mu, Lam, g2) \<and>
     entity_prepare L mode ts ti (m f) (m a) (m b) beta0 g = Inr (var3, var4, g2) \<and>
     row_loop L var3 var4 f [0..<n] (m, g2) = Inr w'"
proof -
  let ?F = "m f"
  let ?c = "real n / (real n + real beta0) * real beta0"
  let ?M = "madd (madd (eye R) (cov_mat ?F (col_mean ?F)))
              (msmult ?c (outer (col_mean ?F) (col_mean ?F)))"
  have shape: "length ?F = n" "ncols ?F = R" using F by (simp_all add: is_mat_length ncols_is_mat)
  from call obtain var3 var4 g2 where
    prep: "entity_prepare L mode ts ti ?F (m a) (m b) beta0 g = Inr (var3, var4, g2)"
    and loop: "row_loop L var3 var4 f [0..<n] (m, g2) = Inr w'"
    by (auto simp: sample_entity_def and_then_eq_Inr shape)
  from prep obtain mu Lam where hyp: "factor_hyper L ?F beta0 g = Inr (mu, Lam, g2)"
    by (auto simp: entity_prepare_def Let_def and_then_eq_Inr)
  from hyp obtain W g1 where
    inv: "inv_mat L ?M = Inr W"
    and wis: "wishart_rvs L (n + R) W g = Inr (Lam, g1)"
    and mvn: "mvnrnd_pre L (smult (real n / (real n + real beta0)) (col_mean ?F))
        (msmult (real n + real beta0) Lam) g1 = Inr (mu, g2)"
    by (auto simp: factor_hyper_def Let_def and_then_eq_Inr shape)
  have M: "is_mat R R ?M" using F by (rule hyper_scale_is_mat)
  have entries: "\<forall>s<R. \<forall>s'<R. ?M ! s ! s' =
        (if s = s' then 1 else 0)
        + (\<Sum>i<n. (m f ! i ! s - (\<Sum>i<n. m f ! i ! s) / real n)
                 * (m f ! i ! s' - (\<Sum>i<n. m f ! i ! s') / real n))
        + ?c * ((\<Sum>i<n. m f ! i ! s) / real n * ((\<Sum>i<n. m f ! i ! s') / real n))"
    using hyper_scale_nth [OF F] by blast
  from mvn have mvn': "mvnrnd_pre L
        (map (\<lambda>s. real n / (real n + real beta0) * ((\<Sum>i<n. m f ! i ! s) / real n)) [0..<R])
        (msmult (real n + real beta0) Lam) g1 = Inr (mu, g2)"
    by (simp only: smult_col_mean [OF F])
  from M entries inv wis mvn' hyp prep loop show ?thesis by blast
qed

text \<open>
  Claim C5. A call of \<open>sample_factor_u\<close> (on \<open>F = U\<close>) or of \<open>sample_factor_v\<close> (on
  \<open>F = V\<close>) that returns has, for the matrix \<open>F\<close> the store holds at the call, with \<open>n\<close>
  rows and \<open>R\<close> columns and \<open>F\<^sub>s\<close> the mean of column \<open>s\<close>: inverted the matrix with
  entries \<open>\<delta> + (F - F\<^sub>s)\<^sup>T (F - F\<^sub>s) + (n / (n + \<beta>\<^sub>0)) \<beta>\<^sub>0 F\<^sub>s F\<^sub>s'\<close>; drawn \<open>\<Lambda>\<close> from
  the Wishart sampler with \<open>n + R\<close> degrees of freedom and that inverse as scale; drawn
  \<open>\<mu>\<close> by \<open>mvnrnd_pre\<close> with mean \<open>(n / (n + \<beta>\<^sub>0)) F\<^sub>s\<close> and precision \<open>(n + \<beta>\<^sub>0) \<Lambda>\<close>; and
  used this \<open>(\<mu>, \<Lambda>)\<close> for its rows. In every sweep that completes, BPTF makes these
  calls on the chain's current matrices: nothing is kept from one sweep to the next.
\<close>

theorem entity_hyperparameters_recomputed:
  assumes call: "(sample_factor_u L ts ti U V X beta0 (m, g) = Inr w' \<and> f = U) \<or>
                 (sample_factor_v L ts ti U V X beta0 (m, g) = Inr w' \<and> f = V)"
    and F: "is_mat n R (m f)" "0 < n"
  shows "(\<exists>M W Lam g1 mu g2 var3 var4.
     is_mat R R M \<and>
     (\<forall>s<R. \<forall>s'<R. M ! s ! s' =
        (if s = s' then 1 else 0)
        + (\<Sum>i<n. (m f ! i ! s - (\<Sum>i<n. m f ! i ! s) / real n)
                 * (m f ! i ! s' - (\<Sum>i<n. m f ! i ! s') / real n))
        + real n / (real n + real beta0) * real beta0
          * ((\<Sum>i<n. m f ! i ! s) / real n * ((\<Sum>i<n. m f ! i ! s') / real n))) \<and>
     inv_mat L M = Inr W \<and>
     wishart_rvs L (n + R) W g = Inr (Lam, g1) \<and>
     mvnrnd_pre L (map (\<lambda>s. real n / (real n + real beta0) * ((\<Sum>i<n. m f ! i ! s) / real n)) [0..<R])
        (msmult (real n + real beta0) Lam) g1 = Inr (mu, g2) \<and>
     factor_hyper L (m f) beta0 g = Inr (mu, Lam, g2) \<and>
     row_loop L var3 var4 f [0..<n] (m, g2) = Inr w') \<and>
   (\<forall>P burn_iter it ch ch'. sweep L P burn_iter it ch = Inr ch' \<longrightarrow>
      (\<exists>w1 hu hv. factor_hyper L (c_mats ch (s_U P)) 1 (c_rng ch) = Inr hu \<and>
         sample_factor_u L
           (map3 (\<lambda>x. c_tau ch * x) (map3 fl_real (tens (s_store P) (s_sparse P))))
           (map3 (\<lambda>b. c_tau ch * of_bool b) (s_ind P)) (s_U P) (s_V P) (s_X P) 1
           (c_mats ch, c_rng ch) = Inr w1 \<and>
         factor_hyper L (fst w1 (s_V P)) 1 (snd w1) = Inr hv))"
proof (intro conjI allI impI)
  from call show "\<exists>M W Lam g1 mu g2 var3 var4.
     is_mat R R M \<and>
     (\<forall>s<R. \<forall>s'<R. M ! s ! s' =
        (if s = s' then 1 else 0)
        + (\<Sum>i<n. (m f ! i ! s - (\<Sum>i<n. m f ! i ! s) / real n)
                 * (m f ! i ! s' - (\<Sum>i<n. m f ! i ! s') / real n))
        + real n / (real n + real beta0) * real beta0
          * ((\<Sum>i<n. m f ! i ! s) / real n * ((\<Sum>i<n. m f ! i ! s') / real n))) \<and>
     inv_mat L M = Inr W \<and>
     wishart_rvs L (n + R) W g = Inr (Lam, g1) \<and>
     mvnrnd_pre L (map (\<lambda>s. real n / (real n + real beta0) * ((\<Sum>i<n. m f ! i ! s) / real n)) [0..<R])
        (msmult (real n + real beta0) Lam) g1 = Inr (mu, g2) \<and>
     factor_hyper L (m f) beta0 g = Inr (mu, Lam, g2) \<and>
     row_loop L var3 var4 f [0..<n] (m, g2) = Inr w'"
  proof
    assume "sample_factor_u L ts ti U V X beta0 (m, g) = Inr w' \<and> f = U"
    then have "sample_entity L 0 ts ti f X V beta0 (m, g) = Inr w'"
      by (simp add: sample_factor_u_def)
    from sample_entity_hyper [OF this F] show ?thesis by blast
  next
    assume "sample_factor_v L ts ti U V X beta0 (m, g) = Inr w' \<and> f = V"
    then have "sample_entity L 1 ts ti f X U beta0 (m, g) = Inr w'"
      by (simp add: sample_factor_v_def)
    from sample_entity_hyper [OF this F] show ?thesis by blast
  qed
next
  fix P burn_iter it and ch ch' :: "'a chain"
  assume "sweep L P burn_iter it ch = Inr ch'"
  from sweep_steps [OF this] obtain w1 w2 where
    u: "sample_factor_u L
           (map3 (\<lambda>x. c_tau ch * x) (map3 fl_real (tens (s_store P) (s_sparse P))))
           (map3 (\<lambda>b. c_tau ch * of_bool b) (s_ind P)) (s_U P) (s_V P) (s_X P) 1
           (c_mats ch, c_rng ch) = Inr w1"
    and v: "sample_factor_v L
           (map3 (\<lambda>x. c_tau ch * x) (map3 fl_real (tens (s_store P) (s_sparse P))))
           (map3 (\<lambda>b. c_tau ch * of_bool b) (s_ind P)) (s_U P) (s_V P) (s_X P) 1 w1 = Inr w2"
    by blast
  from u obtain hu where hu: "factor_hyper L (c_mats ch (s_U P)) 1 (c_rng ch) = Inr hu"
    by (auto simp: sample_factor_u_def sample_entity_def entity_prepare_def Let_def and_then_eq_Inr)
  from v obtain hv where hv: "factor_hyper L (fst w1 (s_V P)) 1 (snd w1) = Inr hv"
    by (cases w1)
      (auto simp: sample_factor_v_def sample_entity_def entity_prepare_def Let_def and_then_eq_Inr)
  from u hu hv show "\<exists>w1 hu hv. factor_hyper L (c_mats ch (s_U P)) 1 (c_rng ch) = Inr hu \<and>
         sample_factor_u L
           (map3 (\<lambda>x. c_tau ch * x) (map3 fl_real (tens (s_store P) (s_sparse P))))
           (map3 (\<lambda>b. c_tau ch * of_bool b) (s_ind P)) (s_U P) (s_V P) (s_X P) 1
           (c_mats ch, c_rng ch) = Inr w1 \<and>
         factor_hyper L (fst w1 (s_V P)) 1 (snd w1) = Inr hv"
    by blast
qed

lemma two_row_run:
  "\<exists>w'. sample_factor_u lib2 [[[1, 0]], [[0, 2]]] [[[1, 0]], [[0, 1]]] 0 1 2 1 (two_row_mats, 0)
      = Inr w'"
  by (simp add: sampler_defs two_row_mats_def lib2_defs arr_defs upt_conv_Cons Let_def)

lemma run_first_sweep:
  "\<exists>P ch'. BPTF_setup run_store 0 1 example_init = Inr P \<and>
       sweep lib2 P 1 0 (start_chain P 0) = Inr ch'"
  by (simp add: loop_defs setup_defs sampler_defs run_store_def example_init_def
      two_slice_mats_def lib2_defs arr_defs upt_conv_Cons)

theorem entity_hyperparameters_recomputed_witness:
  "\<exists>w' M W Lam g1 mu g2 P ch' hu.
     sample_factor_u lib2 [[[1, 0]], [[0, 2]]] [[[1, 0]], [[0, 1]]] 0 1 2 1 (two_row_mats, 0)
       = Inr w' \<and>
     is_mat 2 2 (two_row_mats 0) \<and> (0::nat) < 2 \<and>
     M ! 0 ! 0 = 5 / 3 \<and> M ! 0 ! 1 = - 1 / 3 \<and>
     inv_mat lib2 M = Inr W \<and>
     wishart_rvs lib2 (2 + 2) W 0 = Inr (Lam, g1) \<and>
     mvnrnd_pre lib2 [1 / 3, 1 / 3] (msmult 3 Lam) g1 = Inr (mu, g2) \<and>
     factor_hyper lib2 (two_row_mats 0) 1 0 = Inr (mu, Lam, g2) \<and>
     sweep lib2 P 1 0 (start_chain P (0::nat)) = Inr ch' \<and>
     factor_hyper lib2 (c_mats (start_chain P (0::nat)) (s_U P)) 1 (c_rng (start_chain P (0::nat))) = Inr hu"
proof -
  from two_row_run obtain w' where
    run: "sample_factor_u lib2 [[[1, 0]], [[0, 2]]] [[[1, 0]], [[0, 1]]] 0 1 2 1 (two_row_mats, 0)
       = Inr w'" ..
  have F: "is_mat 2 2 (two_row_mats 0)" "(0::nat) < 2"
    by (simp_all add: two_row_mats_def is_mat_def)
  from run have call:
    "(sample_factor_u lib2 [[[1, 0]], [[0, 2]]] [[[1, 0]], [[0, 1]]] 0 1 2 1 (two_row_mats, 0)
       = Inr w' \<and> (0::nat) = 0) \<or>
     (sample_factor_v lib2 [[[1, 0]], [[0, 2]]] [[[1, 0]], [[0, 1]]] 0 1 2 1 (two_row_mats, 0)
       = Inr w' \<and> (0::nat) = 1)" by simp
  note main = entity_hyperparameters_recomputed [OF call F]
  from main obtain M W Lam g1 mu g2 where
    entries: "\<forall>s<2. \<forall>s'<2. M ! s ! s' =
        (if s = s' then 1 else 0)
        + (\<Sum>i<2. (two_row_mats 0 ! i ! s - (\<Sum>i<2. two_row_mats 0 ! i ! s) / real 2)
                 * (two_row_mats 0 ! i ! s' - (\<Sum>i<2. two_row_mats 0 ! i ! s') / real 2))
        + real 2 / (real 2 + real 1) * real 1
          * ((\<Sum>i<2. two_row_mats 0 ! i ! s) / real 2 * ((\<Sum>i<2. two_row_mats 0 ! i ! s') / real 2))"
    and inv: "inv_mat lib2 M = Inr W"
    and wis: "wishart_rvs lib2 (2 + 2) W 0 = Inr (Lam, g1)"
    and mvn: "mvnrnd_pre lib2
        (map (\<lambda>s. real 2 / (real 2 + real 1) * ((\<Sum>i<2. two_row_mats 0 ! i ! s) / real 2)) [0..<2])
        (msmult (real 2 + real 1) Lam) g1 = Inr (mu, g2)"
    and hyp: "factor_hyper lib2 (two_row_mats 0) 1 0 = Inr (mu, Lam, g2)"
    by blast
  have sums: "(\<Sum>i<2. two_row_mats 0 ! i ! 0) = 1" "(\<Sum>i<2. two_row_mats 0 ! i ! 1) = 1"
    by (simp_all add: two_row_mats_def lessThan_Suc numeral_2_eq_2)
  from entries have "M ! 0 ! 0 =
        1 + (\<Sum>i<2. (two_row_mats 0 ! i ! 0 - (\<Sum>i<2. two_row_mats 0 ! i ! 0) / real 2)
                 * (two_row_mats 0 ! i ! 0 - (\<Sum>i<2. two_row_mats 0 ! i ! 0) / real 2))
        + real 2 / (real 2 + real 1) * real 1
          * ((\<Sum>i<2. two_row_mats 0 ! i ! 0) / real 2 * ((\<Sum>i<2. two_row_mats 0 ! i ! 0) / real 2))"
    by simp
  then have m00: "M ! 0 ! 0 = 5 / 3"
    unfolding sums by (simp add: two_row_mats_def lessThan_Suc numeral_2_eq_2)
  from entries have "M ! 0 ! 1 =
        0 + (\<Sum>i<2. (two_row_mats 0 ! i ! 0 - (\<Sum>i<2. two_row_mats 0 ! i ! 0) / real 2)
                 * (two_row_mats 0 ! i ! 1 - (\<Sum>i<2. two_row_mats 0 ! i ! 1) / real 2))
        + real 2 / (real 2 + real 1) * real 1
          * ((\<Sum>i<2. two_row_mats 0 ! i ! 0) / real 2 * ((\<Sum>i<2. two_row_mats 0 ! i ! 1) / real 2))"
    by simp
  then have m01: "M ! 0 ! 1 = - 1 / 3"
    unfolding sums by (simp add: two_row_mats_def lessThan_Suc numeral_2_eq_2)
  from mvn have mvn': "mvnrnd_pre lib2 [1 / 3, 1 / 3] (msmult 3 Lam) g1 = Inr (mu, g2)"
    by (simp add: upt_conv_Cons two_row_mats_def lessThan_Suc numeral_2_eq_2)
  from run_first_sweep obtain P and ch' :: "nat chain" where
    sw: "sweep lib2 P 1 0 (start_chain P (0::nat)) = Inr ch'" by blast
  from main [THEN conjunct2, rule_format, OF sw] obtain hu where
    hu: "factor_hyper lib2 (c_mats (start_chain P (0::nat)) (s_U P)) 1 (c_rng (start_chain P (0::nat))) = Inr hu"
    by blast
  from run F m00 m01 inv wis mvn' hyp sw hu show ?thesis by blast
qed

subsection \<open>The reference tensor and the sampler\<close>

lemma shape3_map3 [simp]: "shape3 (map3 f T) = shape3 T"
  by (cases T; cases "hd T") (auto simp: shape3_def map3_def ncols_def)

lemma shape3_tadd: "shape3 A = shape3 B \<Longrightarrow> shape3 (tadd A B) = shape3 A"
  by (cases A; cases B; cases "hd A"; cases "hd B")
     (auto simp: shape3_def tadd_def ncols_def)

lemma shape3_zeros3:
  assumes "in_shape s p"
  shows "shape3 (zeros3 s) = s"
proof -
  obtain a b c where s: "s = (a, b, c)" by (cases s)
  with assms have "0 < a" "0 < b" by (cases p; simp add: in_shape_def)+
  then obtain a' b' where "a = Suc a'" "b = Suc b'" by (auto simp: gr0_conv_Suc)
  then show ?thesis by (simp add: s shape3_def zeros3_def ncols_def)
qed

lemma setup_other_dense:
  assumes "shape3 (tens st d2) = shape3 (tens st sp)"
    and "BPTF_setup st d1 sp ini = Inr P1"
  shows "\<exists>P2. BPTF_setup st d2 sp ini = Inr P2 \<and>
     s_store P2 = s_store P1 \<and> s_sparse P2 = s_sparse P1 \<and> s_U P2 = s_U P1 \<and>
     s_V P2 = s_V P1 \<and> s_X P2 = s_X P1 \<and> s_dim P2 = s_dim P1 \<and> s_ind P2 = s_ind P1 \<and>
     (\<forall>p\<in>set (s_pos_test P2). in_shape (s_dim P1) p)"
proof (cases "has_nan (tens st sp)")
  case True
  have sh: "shape3 (tens (st\<lparr>tens := (tens st)(sp := map3 nan_to_zero (tens st sp))\<rparr>) d2)
      = shape3 (tens st sp)"
    using assms(1) by simp
  have "take_pos (tens (st\<lparr>tens := (tens st)(sp := map3 nan_to_zero (tens st sp))\<rparr>) d2)
          (where3 (shape3 (tens st sp)) (\<lambda>p. ne0 (bat3 (tens st d2) p) \<and> isnan (bat3 (tens st sp) p)))
        = Inr (map (at3 (tens (st\<lparr>tens := (tens st)(sp := map3 nan_to_zero (tens st sp))\<rparr>) d2))
          (where3 (shape3 (tens st sp)) (\<lambda>p. ne0 (bat3 (tens st d2) p) \<and> isnan (bat3 (tens st sp) p))))"
    by (rule take_pos_ok [OF sh]) (simp add: where3_def)
  with True assms show ?thesis
    by (auto simp: BPTF_setup_def Let_def and_then_eq_Inr where3_def simp del: fun_upd_apply)
next
  case False
  have "take_pos (tens st d2)
          (where3 (shape3 (tens st sp)) (\<lambda>p. ne0 (bat3 (tens st d2) p) \<and> eq0 (bat3 (tens st sp) p)))
        = Inr (map (at3 (tens st d2))
          (where3 (shape3 (tens st sp)) (\<lambda>p. ne0 (bat3 (tens st d2) p) \<and> eq0 (bat3 (tens st sp) p))))"
    by (rule take_pos_ok [OF assms(1)]) (simp add: where3_def)
  with False assms show ?thesis
    by (auto simp: BPTF_setup_def Let_def and_then_eq_Inr where3_def)
qed

lemma sweep_plus_shape:
  assumes "sweep L P burn_iter it ch = Inr ch'"
  shows "shape3 (c_tensor_hat_plus ch') = shape3 (c_tensor_hat_plus ch)"
  using assms
  by (auto simp: sweep_def Let_def and_then_eq_Inr add_into_def shape3_tadd split: if_splits)

lemma sweeps_plus_shape:
  assumes "sweeps L P burn_iter its ch = Inr ch'"
  shows "shape3 (c_tensor_hat_plus ch') = shape3 (c_tensor_hat_plus ch)"
  using assms
proof (induction its arbitrary: ch)
  case Nil
  then show ?case by simp
next
  case (Cons it rest)
  then obtain ch1 where "sweep L P burn_iter it ch = Inr ch1"
    and "sweeps L P burn_iter rest ch1 = Inr ch'"
    by (auto simp: and_then_eq_Inr)
  with Cons.IH [of ch1] sweep_plus_shape [of L P burn_iter it ch ch1] show ?case by simp
qed

lemma sweep_other_dense:
  assumes same: "s_store P2 = s_store P1" "s_sparse P2 = s_sparse P1" "s_U P2 = s_U P1"
      "s_V P2 = s_V P1" "s_X P2 = s_X P1" "s_ind P2 = s_ind P1"
    and pos: "\<forall>p\<in>set (s_pos_test P2). in_shape (shape3 (tens (s_store P1) (s_sparse P1))) p"
    and ch: "c_mats ch2 = c_mats ch1" "c_rng ch2 = c_rng ch1" "c_tau ch2 = c_tau ch1"
      "c_tensor_hat_plus ch2 = c_tensor_hat_plus ch1"
    and run: "sweep L P1 burn_iter it ch1 = Inr ch1'"
  shows "\<exists>ch2'. sweep L P2 burn_iter it ch2 = Inr ch2' \<and>
     c_mats ch2' = c_mats ch1' \<and> c_rng ch2' = c_rng ch1' \<and> c_tau ch2' = c_tau ch1' \<and>
     c_tensor_hat_plus ch2' = c_tensor_hat_plus ch1'"
proof -
  let ?sparse = "map3 fl_real (tens (s_store P1) (s_sparse P1))"
  let ?ti = "map3 (\<lambda>b. c_tau ch1 * of_bool b) (s_ind P1)"
  let ?ts = "map3 (\<lambda>x. c_tau ch1 * x) ?sparse"
  from run obtain w1 w2 m g tensor_hat h tau g' thp where
    u: "sample_factor_u L ?ts ?ti (s_U P1) (s_V P1) (s_X P1) 1 (c_mats ch1, c_rng ch1) = Inr w1"
    and v: "sample_factor_v L ?ts ?ti (s_U P1) (s_V P1) (s_X P1) 1 w1 = Inr w2"
    and x: "sample_factor_x L ?ts ?ti (s_U P1) (s_V P1) (s_X P1) 1 w2 = Inr (m, g)"
    and e: "einsum (m (s_U P1)) (m (s_V P1)) (m (s_X P1)) = Inr tensor_hat"
    and t: "sample_precision_tau L ?sparse tensor_hat (s_ind P1) g = Inr (tau, g')"
    and a: "(if it + 1 > burn_iter then add_into (c_tensor_hat_plus ch1) tensor_hat
             else Inr (c_tensor_hat_plus ch1)) = Inr thp"
    and r: "c_mats ch1' = m" "c_rng ch1' = g'" "c_tau ch1' = tau" "c_tensor_hat_plus ch1' = thp"
    by (auto simp: sweep_def Let_def and_then_eq_Inr)
  from t have "shape3 tensor_hat = shape3 (tens (s_store P1) (s_sparse P1))"
    by (auto simp: sample_precision_tau_def split: if_splits)
  from take_pos_ok [OF this pos]
  have tp: "take_pos tensor_hat (s_pos_test P2) = Inr (map (at3 tensor_hat) (s_pos_test P2))" .
  show ?thesis
    using u v x e t a r tp by (auto simp: sweep_def same ch Let_def split: if_splits)
qed

lemma sweeps_other_dense:
  assumes same: "s_store P2 = s_store P1" "s_sparse P2 = s_sparse P1" "s_U P2 = s_U P1"
      "s_V P2 = s_V P1" "s_X P2 = s_X P1" "s_ind P2 = s_ind P1"
    and pos: "\<forall>p\<in>set (s_pos_test P2). in_shape (shape3 (tens (s_store P1) (s_sparse P1))) p"
    and ch: "c_mats ch2 = c_mats ch1" "c_rng ch2 = c_rng ch1" "c_tau ch2 = c_tau ch1"
      "c_tensor_hat_plus ch2 = c_tensor_hat_plus ch1"
    and run: "sweeps L P1 burn_iter its ch1 = Inr ch1'"
  shows "\<exists>ch2'. sweeps L P2 burn_iter its ch2 = Inr ch2' \<and>
     c_mats ch2' = c_mats ch1' \<and> c_rng ch2' = c_rng ch1' \<and> c_tau ch2' = c_tau ch1' \<and>
     c_tensor_hat_plus ch2' = c_tensor_hat_plus ch1'"
  using ch run
proof (induction its arbitrary: ch1 ch2)
  case Nil
  then show ?case by simp
next
  case (Cons it rest)
  from Cons.prems(5) obtain mid1 where s1: "sweep L P1 burn_iter it ch1 = Inr mid1"
    and rest1: "sweeps L P1 burn_iter rest mid1 = Inr ch1'"
    by (auto simp: and_then_eq_Inr)
  from sweep_other_dense [OF same pos Cons.prems(1-4) s1] obtain mid2 where
    s2: "sweep L P2 burn_iter it ch2 = Inr mid2"
    and mid: "c_mats mid2 = c_mats mid1" "c_rng mid2 = c_rng mid1" "c_tau mid2 = c_tau mid1"
      "c_tensor_hat_plus mid2 = c_tensor_hat_plus mid1"
    by blast
  from Cons.IH [OF mid rest1] s2 show ?case by simp
qed

lemma two_dense_run:
  "\<exists>out. BPTF lib2 0 1 example_init 1 1 (two_dense_store, 0) = Inr out \<and>
     o_tensor_hat out = [[[Fin (65666571 / 820024676), Fin (65666571 / 820024676)]]] \<and>
     o_printed out = [Final [Fin 2] [Fin (65666571 / 820024676)]]"
  by (simp add: loop_defs setup_defs sampler_defs two_dense_store_def example_init_def
      two_slice_mats_def lib2_defs arr_defs upt_conv_Cons)

lemma two_dense_run_other:
  "\<exists>out. BPTF lib2 2 1 example_init 1 1 (two_dense_store, 0) = Inr out \<and>
     o_printed out = [Final [] []]"
  by (simp add: loop_defs setup_defs sampler_defs two_dense_store_def example_init_def
      two_slice_mats_def lib2_defs arr_defs upt_conv_Cons)

text \<open>
  Claim C8, as the code has it. Take a store, a sparse tensor in it and two reference
  tensors in it, the second of the shape of the sparse tensor. When BPTF returns with the first reference
  tensor, it returns with the second too (same init, sweep counts and generator state),
  and the two runs agree on the returned tensor, on the caller's arrays after the call
  and on the generator's state; after every number \<open>k\<close> of sweeps the two chains hold
  the same factor matrices, the same \<open>\<tau>\<close>, the same generator state and the same
  accumulated sum. The runs differ in the held-out positions and in what is printed
  only.
\<close>

theorem BPTF_dense_noninterference:
  assumes "shape3 (tens st d2) = shape3 (tens st sp)"
    and "BPTF L d1 sp ini burn_iter gibbs_iter (st, g) = Inr out1"
  shows "\<exists>P1 P2 out2.
     BPTF_setup st d1 sp ini = Inr P1 \<and> BPTF_setup st d2 sp ini = Inr P2 \<and>
     BPTF L d2 sp ini burn_iter gibbs_iter (st, g) = Inr out2 \<and>
     o_tensor_hat out2 = o_tensor_hat out1 \<and> o_store out2 = o_store out1 \<and>
     o_rng out2 = o_rng out1 \<and>
     (\<forall>k \<le> burn_iter + gibbs_iter. \<exists>ch1 ch2.
        sweeps L P1 burn_iter [0..<k] (start_chain P1 g) = Inr ch1 \<and>
        sweeps L P2 burn_iter [0..<k] (start_chain P2 g) = Inr ch2 \<and>
        c_mats ch2 = c_mats ch1 \<and> c_tau ch2 = c_tau ch1 \<and> c_rng ch2 = c_rng ch1 \<and>
        c_tensor_hat_plus ch2 = c_tensor_hat_plus ch1)"
proof -
  let ?n = "burn_iter + gibbs_iter"
  from assms(2) obtain P1 ch1 where P1: "BPTF_setup st d1 sp ini = Inr P1"
    and sw1: "sweeps L P1 burn_iter [0..<?n] (start_chain P1 g) = Inr ch1"
    and fin1: "BPTF_finish P1 gibbs_iter ch1 = Inr out1"
    by (auto simp: BPTF_def and_then_eq_Inr)
  from setup_other_dense [OF assms(1) P1] obtain P2 where
    P2: "BPTF_setup st d2 sp ini = Inr P2"
    and same: "s_store P2 = s_store P1" "s_sparse P2 = s_sparse P1" "s_U P2 = s_U P1"
      "s_V P2 = s_V P1" "s_X P2 = s_X P1" "s_ind P2 = s_ind P1"
    and dim: "s_dim P2 = s_dim P1"
    and pos: "\<forall>p\<in>set (s_pos_test P2). in_shape (s_dim P1) p"
    by blast
  have dim1: "s_dim P1 = shape3 (tens st sp)" by (rule BPTF_setup_locals(6) [OF P1])
  have "shape3 (tens (s_store P1) (s_sparse P1)) = shape3 (tens st sp)"
    using BPTF_setup_store [OF P1] BPTF_setup_locals(5) [OF P1] by (simp split: if_splits)
  with pos dim1 have pos':
    "\<forall>p\<in>set (s_pos_test P2). in_shape (shape3 (tens (s_store P1) (s_sparse P1))) p"
    by simp
  have start: "c_mats (start_chain P2 g) = c_mats (start_chain P1 g)"
    "c_rng (start_chain P2 g) = c_rng (start_chain P1 g)"
    "c_tau (start_chain P2 g) = c_tau (start_chain P1 g)"
    "c_tensor_hat_plus (start_chain P2 g) = c_tensor_hat_plus (start_chain P1 g)"
    by (simp_all add: start_chain_def same dim)
  from sweeps_other_dense [OF same pos' start sw1] obtain ch2 where
    sw2: "sweeps L P2 burn_iter [0..<?n] (start_chain P2 g) = Inr ch2"
    and ch: "c_mats ch2 = c_mats ch1" "c_rng ch2 = c_rng ch1" "c_tau ch2 = c_tau ch1"
      "c_tensor_hat_plus ch2 = c_tensor_hat_plus ch1"
    by blast
  let ?hat = "map3 (\<lambda>x. count_div x gibbs_iter) (c_tensor_hat_plus ch1)"
  have "take_pos ?hat (s_pos_test P2) = Inr (map (at3 ?hat) (s_pos_test P2))"
  proof (cases "s_pos_test P2")
    case Nil
    then show ?thesis by (simp add: take_pos_def)
  next
    case (Cons p ps)
    with pos have "in_shape (s_dim P1) p" by simp
    then have "shape3 (zeros3 (s_dim P1)) = s_dim P1" by (rule shape3_zeros3)
    with sweeps_plus_shape [OF sw1] have "shape3 ?hat = s_dim P1"
      by (simp add: start_chain_def)
    from take_pos_ok [OF this pos] show ?thesis .
  qed
  with fin1 have fin2: "BPTF_finish P2 gibbs_iter ch2 =
      Inr \<lparr>o_tensor_hat = ?hat, o_store = (s_store P1)\<lparr>mats := c_mats ch1\<rparr>, o_rng = c_rng ch1,
           o_printed = c_printed ch2 @ [Final (s_dense_test P2) (map (at3 ?hat) (s_pos_test P2))]\<rparr>"
    by (simp add: BPTF_finish_def Let_def same ch)
  from fin1 have out1: "o_tensor_hat out1 = ?hat" "o_store out1 = (s_store P1)\<lparr>mats := c_mats ch1\<rparr>"
    "o_rng out1 = c_rng ch1"
    by (auto simp: BPTF_finish_def Let_def and_then_eq_Inr)
  have run2: "BPTF L d2 sp ini burn_iter gibbs_iter (st, g) =
      Inr \<lparr>o_tensor_hat = ?hat, o_store = (s_store P1)\<lparr>mats := c_mats ch1\<rparr>, o_rng = c_rng ch1,
           o_printed = c_printed ch2 @ [Final (s_dense_test P2) (map (at3 ?hat) (s_pos_test P2))]\<rparr>"
    by (simp add: BPTF_def P2 sw2 fin2)
  have prefix: "\<exists>c1 c2.
        sweeps L P1 burn_iter [0..<k] (start_chain P1 g) = Inr c1 \<and>
        sweeps L P2 burn_iter [0..<k] (start_chain P2 g) = Inr c2 \<and>
        c_mats c2 = c_mats c1 \<and> c_tau c2 = c_tau c1 \<and> c_rng c2 = c_rng c1 \<and>
        c_tensor_hat_plus c2 = c_tensor_hat_plus c1" if k: "k \<le> ?n" for k
  proof -
    from k have "[0..<?n] = [0..<k] @ [k..<?n]"
      by (metis le_add_diff_inverse upt_add_eq_append zero_le)
    with sw1 have "and_then (sweeps L P1 burn_iter [0..<k] (start_chain P1 g))
        (sweeps L P1 burn_iter [k..<?n]) = Inr ch1"
      by (simp add: sweeps_append)
    then obtain c1 where c1: "sweeps L P1 burn_iter [0..<k] (start_chain P1 g) = Inr c1"
      by (auto simp: and_then_eq_Inr)
    from sweeps_other_dense [OF same pos' start c1] c1 show ?thesis by blast
  qed
  from P1 P2 run2 out1 prefix show ?thesis by auto
qed

theorem BPTF_dense_noninterference_witness:
  "\<exists>out1 out2.
     shape3 (tens two_dense_store 2) = shape3 (tens two_dense_store 1) \<and>
     BPTF lib2 0 1 example_init 1 1 (two_dense_store, 0) = Inr out1 \<and>
     BPTF lib2 2 1 example_init 1 1 (two_dense_store, 0) = Inr out2 \<and>
     tens two_dense_store 0 \<noteq> tens two_dense_store 2 \<and>
     o_tensor_hat out2 = o_tensor_hat out1 \<and> o_store out2 = o_store out1 \<and>
     o_rng out2 = o_rng out1 \<and>
     o_tensor_hat out1 = [[[Fin (65666571 / 820024676), Fin (65666571 / 820024676)]]] \<and>
     o_printed out1 \<noteq> o_printed out2"
proof -
  from two_dense_run obtain out1 where
    run1: "BPTF lib2 0 1 example_init 1 1 (two_dense_store, 0) = Inr out1"
    and hat: "o_tensor_hat out1 = [[[Fin (65666571 / 820024676), Fin (65666571 / 820024676)]]]"
    and pr1: "o_printed out1 = [Final [Fin 2] [Fin (65666571 / 820024676)]]"
    by blast
  have sh: "shape3 (tens two_dense_store 2) = shape3 (tens two_dense_store 1)"
    by (simp add: two_dense_store_def shape3_def ncols_def)
  from BPTF_dense_noninterference [OF sh run1] obtain out2 where
    run2: "BPTF lib2 2 1 example_init 1 1 (two_dense_store, 0) = Inr out2"
    and eq: "o_tensor_hat out2 = o_tensor_hat out1" "o_store out2 = o_store out1"
      "o_rng out2 = o_rng out1"
    by blast
  from two_dense_run_other run2 have pr2: "o_printed out2 = [Final [] []]" by auto
  have "tens two_dense_store 0 \<noteq> tens two_dense_store 2"
    by (simp add: two_dense_store_def)
  with sh run1 run2 eq hat pr1 pr2 show ?thesis by auto
qed

text \<open>Two reference tensors of the same shape that is not the sparse tensor's: numpy
  broadcasts them against the sparse tensor, the held-out position \<open>(0, 0, 1)\<close> of the
  second is outside it, and \<^verbatim>\<open>dense_tensor[pos_test]\<close> raises before the first sweep,
  while the run with the first returns a tensor.\<close>

theorem dense_shape_counterexample:
  "shape3 (tens narrow_dense_store 0) = shape3 (tens narrow_dense_store 2) \<and>
   \<not> isl (BPTF lib2 0 1 example_init 1 1 (narrow_dense_store, 0)) \<and>
   BPTF lib2 2 1 example_init 1 1 (narrow_dense_store, 0) = Inl IndexError"
  by (simp add: loop_defs setup_defs sampler_defs narrow_dense_store_def example_init_def
      two_slice_mats_def lib2_defs arr_defs upt_conv_Cons)

subsection \<open>The entity samplers, row by row\<close>

lemma row_loop_rows:
  assumes "row_loop L var3 var4 f [i..<n] (m, g) = Inr (m', g')"
    and "length (m f) = n" "i \<le> n"
  shows "length (m' f) = n \<and> take i (m' f) = take i (m f) \<and>
     (\<exists>gs. length gs = n - i + 1 \<and> gs ! 0 = g \<and> gs ! (n - i) = g' \<and>
        (\<forall>t. i \<le> t \<and> t < n \<longrightarrow>
           (\<exists>c mean. getcol var4 t = Inr c \<and> solve L (slice3 var3 t) c = Inr mean \<and>
              mvnrnd_pre L mean (slice3 var3 t) (gs ! (t - i)) = Inr (m' f ! t, gs ! (t - i + 1)))))"
  using assms
proof (induction "n - i" arbitrary: i m g)
  case 0
  then have "i = n" by simp
  with "0.prems" show ?case
    by (auto intro!: exI [of _ "[g]"])
next
  case (Suc k)
  then have i: "i < n" by simp
  then have upt: "[i..<n] = i # [Suc i..<n]" by (simp add: upt_conv_Cons)
  from Suc.prems(1) obtain c mean row g1 where
    step: "getcol var4 i = Inr c" "solve L (slice3 var3 i) c = Inr mean"
      "mvnrnd_pre L mean (slice3 var3 i) g = Inr (row, g1)"
    and rest: "row_loop L var3 var4 f [Suc i..<n] (m(f := (m f)[i := row]), g1) = Inr (m', g')"
    unfolding upt by (auto simp: and_then_eq_Inr)
  let ?m1 = "m(f := (m f)[i := row])"
  have k: "k = n - Suc i" using Suc.hyps(2) by simp
  have len1: "length (?m1 f) = n" using Suc.prems(2) by simp
  from Suc.hyps(1) [OF k rest len1] i obtain gs where
    len: "length (m' f) = n"
    and tk: "take (Suc i) (m' f) = take (Suc i) (?m1 f)"
    and gs: "length gs = n - Suc i + 1" "gs ! 0 = g1" "gs ! (n - Suc i) = g'"
    and steps: "\<forall>t. Suc i \<le> t \<and> t < n \<longrightarrow>
           (\<exists>c mean. getcol var4 t = Inr c \<and> solve L (slice3 var3 t) c = Inr mean \<and>
              mvnrnd_pre L mean (slice3 var3 t) (gs ! (t - Suc i))
                = Inr (m' f ! t, gs ! (t - Suc i + 1)))"
    by auto
  from tk have tk': "take (Suc i) (m' f) = take (Suc i) ((m f)[i := row])" by simp
  have row: "m' f ! i = row"
  proof -
    have "m' f ! i = take (Suc i) (m' f) ! i" by simp
    also have "\<dots> = take (Suc i) ((m f)[i := row]) ! i" by (simp only: tk')
    also have "\<dots> = row" using i Suc.prems(2) by simp
    finally show ?thesis .
  qed
  have tki: "take i (m' f) = take i (m f)"
  proof -
    have "take i (m' f) = take i (take (Suc i) (m' f))" by (simp add: min_def)
    also have "\<dots> = take i (take (Suc i) ((m f)[i := row]))" by (simp only: tk')
    also have "\<dots> = take i (m f)" by (simp add: min_def)
    finally show ?thesis .
  qed
  let ?gs = "g # gs"
  have "\<exists>c mean. getcol var4 t = Inr c \<and> solve L (slice3 var3 t) c = Inr mean \<and>
              mvnrnd_pre L mean (slice3 var3 t) (?gs ! (t - i)) = Inr (m' f ! t, ?gs ! (t - i + 1))"
    if t: "i \<le> t \<and> t < n" for t
  proof (cases "t = i")
    case True
    then show ?thesis using step row gs(2) by simp
  next
    case False
    with t have t': "Suc i \<le> t \<and> t < n" by simp
    moreover from t' have "t - i = Suc (t - Suc i)" by arith
    ultimately show ?thesis using steps by simp
  qed
  moreover have "length ?gs = n - i + 1" using gs(1) i by simp
  moreover have "?gs ! (n - i) = g'"
  proof -
    from i have "n - i = Suc (n - Suc i)" by arith
    with gs(3) show ?thesis by simp
  qed
  ultimately show ?case using len tki
    by (intro conjI exI [of _ ?gs]) simp_all
qed

lemma reshape3_rows:
  assumes "reshape3 M (a, b, c) = Inr T"
  shows "is_ten (a, b, c) T"
  using assms by (auto simp: reshape3_def is_ten_def is_mat_def list_all_length split: if_splits)

lemma slice_rows:
  "\<forall>xs\<in>set P. i < length xs \<Longrightarrow>
     map (\<lambda>xs. xs ! i) (map2 (\<lambda>xs l. map (\<lambda>x. x + l) xs) P ls)
       = map2 (+) (map (\<lambda>xs. xs ! i) P) ls"
  by (rule nth_equalityI) auto

lemma slice3_add_last:
  assumes "is_ten (a, b, c) p3" "i < c"
  shows "slice3 (add_last p3 Lam) i = madd (slice3 p3 i) Lam"
proof -
  from assms have rows: "\<forall>P\<in>set p3. \<forall>xs\<in>set P. i < length xs"
    by (auto simp: is_ten_def is_mat_def list_all_iff)
  have "map (map (\<lambda>xs. xs ! i)) (map2 (map2 (\<lambda>xs l. map (\<lambda>x. x + l) xs)) p3 Lam)
      = map2 (map2 (+)) (map (map (\<lambda>xs. xs ! i)) p3) Lam"
  proof (rule nth_equalityI)
    show "length (map (map (\<lambda>xs. xs ! i)) (map2 (map2 (\<lambda>xs l. map (\<lambda>x. x + l) xs)) p3 Lam))
        = length (map2 (map2 (+)) (map (map (\<lambda>xs. xs ! i)) p3) Lam)" by simp
  next
    fix j assume "j < length (map (map (\<lambda>xs. xs ! i)) (map2 (map2 (\<lambda>xs l. map (\<lambda>x. x + l) xs)) p3 Lam))"
    then have j: "j < length p3" "j < length Lam" by simp_all
    then have "p3 ! j \<in> set p3" by simp
    with rows have "\<forall>xs\<in>set (p3 ! j). i < length xs" by blast
    from slice_rows [OF this, of "Lam ! j"] j
    show "map (map (\<lambda>xs. xs ! i)) (map2 (map2 (\<lambda>xs l. map (\<lambda>x. x + l) xs)) p3 Lam) ! j
        = map2 (map2 (+)) (map (map (\<lambda>xs. xs ! i)) p3) Lam ! j" by simp
  qed
  then show ?thesis by (simp add: slice3_def add_last_def madd_def)
qed

lemma mprod_rows: "\<forall>row\<in>set (mprod A B). length row = ncols B"
  by (simp add: mprod_def)

lemma getcol_add_colvec:
  assumes add: "add_colvec q v = Inr var4"
    and rows: "\<forall>row\<in>set q. length row = n"
    and col: "getcol var4 i = Inr c"
  shows "vec_add (column q i) v = Inr c"
proof -
  from col have i: "i < ncols var4" and c: "c = column var4 i"
    by (auto simp: getcol_def split: if_splits)
  have m2: "map (\<lambda>row. row ! i) (map2 (\<lambda>row x. map (\<lambda>y. y + x) row) Q w)
      = map2 (+) (map (\<lambda>row. row ! i) Q) w" if "\<forall>row\<in>set Q. i < length row" for Q and w :: vec
    using that by (intro nth_equalityI) auto
  consider (eq) "length q = length v"
    | (v1) "length q \<noteq> length v" "length v = 1"
    | (q1) "length q \<noteq> length v" "length v \<noteq> 1" "length q = 1"
    using add by (auto simp: add_colvec_def split: if_splits)
  then show ?thesis
  proof cases
    case eq
    with add have v4: "var4 = map2 (\<lambda>row x. map (\<lambda>y. y + x) row) q v"
      by (simp add: add_colvec_def)
    from i v4 have "i < n" using rows
      by (cases q; cases v) (auto simp: ncols_def)
    with rows have "\<forall>row\<in>set q. i < length row" by simp
    from m2 [OF this] show ?thesis
      using eq by (simp add: c v4 column_def vec_add_def vadd_def)
  next
    case v1
    with add have v4: "var4 = map (map (\<lambda>y. y + hd v)) q"
      by (simp add: add_colvec_def)
    from i v4 have "i < n" using rows by (cases q) (auto simp: ncols_def)
    with rows have "\<forall>row\<in>set q. i < length row" by simp
    then show ?thesis using v1 by (simp add: c v4 column_def vec_add_def)
  next
    case q1
    with add have v4: "var4 = map (\<lambda>x. map (\<lambda>y. y + x) (hd q)) v"
      by (simp add: add_colvec_def)
    from q1 obtain row where q: "q = [row]" by (cases q) auto
    from i v4 have "i < length row" by (cases v) (auto simp: ncols_def q)
    then show ?thesis using q1 by (simp add: c v4 column_def vec_add_def q)
  qed
qed

lemma sample_entity_rows:
  assumes call: "sample_entity L mode ts ti f a b beta0 (m, g) = Inr (m', g')"
  shows "\<exists>mu Lam g2 kr var2 tim p p3 tsm q gs.
     factor_hyper L (m f) beta0 g = Inr (mu, Lam, g2) \<and>
     kr_prod (m a) (m b) = Inr kr \<and>
     kr_prod (transpose_mat kr) (transpose_mat kr) = Inr var2 \<and>
     ten2mat ti mode = Inr tim \<and> matmul var2 (transpose_mat tim) = Inr p \<and>
     reshape3 p (ncols (m f), ncols (m f), length (m f)) = Inr p3 \<and>
     ten2mat ts mode = Inr tsm \<and> matmul (transpose_mat kr) (transpose_mat tsm) = Inr q \<and>
     length gs = length (m f) + 1 \<and> gs ! 0 = g2 \<and> gs ! length (m f) = g' \<and>
     length (m' f) = length (m f) \<and>
     (\<forall>i<length (m f). \<exists>c mean.
         vec_add (column q i) (matvec Lam mu) = Inr c \<and>
         solve L (madd (slice3 p3 i) Lam) c = Inr mean \<and>
         mvnrnd_pre L mean (madd (slice3 p3 i) Lam) (gs ! i) = Inr (m' f ! i, gs ! (i + 1))) \<and>
     (\<forall>r. r \<noteq> f \<longrightarrow> m' r = m r)"
proof -
  let ?n = "length (m f)"
  from call obtain mu Lam g2 kr var2 tim p p3 tsm q var4 where
    hyp: "factor_hyper L (m f) beta0 g = Inr (mu, Lam, g2)"
    and kr: "kr_prod (m a) (m b) = Inr kr"
    and var2: "kr_prod (transpose_mat kr) (transpose_mat kr) = Inr var2"
    and tim: "ten2mat ti mode = Inr tim"
    and p: "matmul var2 (transpose_mat tim) = Inr p"
    and p3: "reshape3 p (ncols (m f), ncols (m f), ?n) = Inr p3"
    and tsm: "ten2mat ts mode = Inr tsm"
    and q: "matmul (transpose_mat kr) (transpose_mat tsm) = Inr q"
    and var4: "add_colvec q (matvec Lam mu) = Inr var4"
    and loop: "row_loop L (add_last p3 Lam) var4 f [0..<?n] (m, g2) = Inr (m', g')"
    by (auto simp: sample_entity_def entity_prepare_def Let_def and_then_eq_Inr)
  from row_loop_rows [OF loop refl] obtain gs where
    len: "length (m' f) = ?n"
    and gs: "length gs = ?n + 1" "gs ! 0 = g2" "gs ! ?n = g'"
    and steps: "\<And>t. t < ?n \<Longrightarrow> \<exists>c mean. getcol var4 t = Inr c \<and>
          solve L (slice3 (add_last p3 Lam) t) c = Inr mean \<and>
          mvnrnd_pre L mean (slice3 (add_last p3 Lam) t) (gs ! t) = Inr (m' f ! t, gs ! (t + 1))"
    by auto
  from q have "q = mprod (transpose_mat kr) (transpose_mat tsm)"
    by (auto simp: matmul_def split: if_splits)
  with mprod_rows have qrows: "\<forall>row\<in>set q. length row = ncols (transpose_mat tsm)" by simp
  have "\<exists>c mean. vec_add (column q i) (matvec Lam mu) = Inr c \<and>
         solve L (madd (slice3 p3 i) Lam) c = Inr mean \<and>
         mvnrnd_pre L mean (madd (slice3 p3 i) Lam) (gs ! i) = Inr (m' f ! i, gs ! (i + 1))"
    if i: "i < ?n" for i
  proof -
    from steps [OF i] obtain c mean where c: "getcol var4 i = Inr c"
      and s: "solve L (slice3 (add_last p3 Lam) i) c = Inr mean"
      and d: "mvnrnd_pre L mean (slice3 (add_last p3 Lam) i) (gs ! i) = Inr (m' f ! i, gs ! (i + 1))"
      by blast
    have sl: "slice3 (add_last p3 Lam) i = madd (slice3 p3 i) Lam"
      by (rule slice3_add_last [OF reshape3_rows [OF p3] i])
    from getcol_add_colvec [OF var4 qrows c] s d show ?thesis
      unfolding sl by blast
  qed
  moreover have "\<forall>r. r \<noteq> f \<longrightarrow> m' r = m r"
    using row_loop_frame [OF loop] by simp
  ultimately show ?thesis
    using hyp kr var2 tim p p3 tsm q gs len by blast
qed

subsection \<open>The data contributions, entry by entry\<close>

lemma concat_nth_block:
  "\<forall>x\<in>set xs. length (g x) = k \<Longrightarrow> i < length xs \<Longrightarrow> j < k \<Longrightarrow>
     concat (map g xs) ! (i * k + j) = g (xs ! i) ! j"
proof (induction xs arbitrary: i)
  case Nil
  then show ?case by simp
next
  case (Cons x xs)
  show ?case
  proof (cases i)
    case 0
    with Cons.prems show ?thesis by (simp add: nth_append)
  next
    case (Suc i')
    with Cons.prems have "concat (map g xs) ! (i' * k + j) = g (xs ! i') ! j"
      by (intro Cons.IH) simp_all
    moreover have "i * k + j = k + (i' * k + j)" using Suc by simp
    ultimately show ?thesis using Cons.prems Suc by (simp add: nth_append)
  qed
qed

lemma sum_split_at:
  fixes F :: "nat \<Rightarrow> real"
  shows "(\<Sum>l<a + k. F l) = (\<Sum>l<a. F l) + (\<Sum>j<k. F (a + j))"
  by (induction k) simp_all

lemma sum_blocks:
  fixes F :: "nat \<Rightarrow> real"
  shows "(\<Sum>l<n * k. F l) = (\<Sum>t<n. \<Sum>j<k. F (t * k + j))"
proof (induction n)
  case 0
  then show ?case by simp
next
  case (Suc n)
  have "(\<Sum>l<Suc n * k. F l) = (\<Sum>l<n * k + k. F l)" by (simp add: add.commute)
  also have "\<dots> = (\<Sum>l<n * k. F l) + (\<Sum>j<k. F (n * k + j))"
    by (rule sum_split_at)
  finally show ?case using Suc by simp
qed

lemma kr_prod_nth:
  assumes "kr_prod A B = Inr K" "is_mat n r A" "is_mat k r B" "i < n" "j < k" "s < r"
  shows "K ! (i * k + j) ! s = A ! i ! s * B ! j ! s"
proof -
  from assms(1) have K: "K = concat (map (\<lambda>a. map (\<lambda>b. map2 (*) a b) B) A)"
    by (auto simp: kr_prod_def split: if_splits)
  have "K ! (i * k + j) = map (\<lambda>b. map2 (*) (A ! i) b) B ! j"
    unfolding K using assms by (intro concat_nth_block) (simp_all add: is_mat_def)
  also have "\<dots> = map2 (*) (A ! i) (B ! j)" using assms by (simp add: is_mat_def)
  finally show ?thesis using assms by (simp add: is_mat_nth)
qed

lemma kr_prod_shape:
  assumes "kr_prod A B = Inr K" "is_mat n r A" "is_mat k r B"
  shows "is_mat (n * k) r K"
proof -
  from assms(1) have K: "K = concat (map (\<lambda>a. map (\<lambda>b. map2 (*) a b) B) A)"
    by (auto simp: kr_prod_def split: if_splits)
  show ?thesis unfolding K by (rule kr_rows_is_mat [OF assms(2,3)])
qed

lemma ten2mat_nth:
  assumes T: "is_ten (if mode = 0 then (nf, nb, nx) else (nb, nf, nx)) T"
    and mode: "mode = 0 \<or> mode = 1"
    and pos: "0 < nf" "0 < nb"
    and M: "ten2mat T mode = Inr M"
  shows "is_mat nf (nx * nb) M"
    and "i < nf \<Longrightarrow> k < nb \<Longrightarrow> t < nx \<Longrightarrow>
      M ! i ! (t * nb + k) = (if mode = 0 then T ! i ! k ! t else T ! k ! i ! t)"
proof -
  from mode show "is_mat nf (nx * nb) M"
  proof
    assume "mode = 0"
    with T pos ten2mat_0 [of nf nb nx T] M show ?thesis by auto
  next
    assume "mode = 1"
    with T pos ten2mat_1 [of nb nf nx T] M show ?thesis by auto
  qed
next
  assume i: "i < nf" and k: "k < nb" and t: "t < nx"
  from mode show "M ! i ! (t * nb + k) = (if mode = 0 then T ! i ! k ! t else T ! k ! i ! t)"
  proof
    assume m0: "mode = 0"
    with T pos have sh: "shape3 T = (nf, nb, nx)" by (simp add: shape3_is_ten)
    with M m0 i have "M ! i = concat (map (\<lambda>t. map (\<lambda>j. T ! i ! j ! t) [0..<nb]) [0..<nx])"
      by (auto simp: ten2mat_def)
    moreover have "concat (map (\<lambda>t. map (\<lambda>j. T ! i ! j ! t) [0..<nb]) [0..<nx]) ! (t * nb + k)
        = map (\<lambda>j. T ! i ! j ! ([0..<nx] ! t)) [0..<nb] ! k"
      using k t by (intro concat_nth_block) simp_all
    ultimately show ?thesis using m0 k t by simp
  next
    assume m1: "mode = 1"
    with T pos have sh: "shape3 T = (nb, nf, nx)" by (simp add: shape3_is_ten)
    with M m1 i have "M ! i = concat (map (\<lambda>t. map (\<lambda>j. T ! j ! i ! t) [0..<nb]) [0..<nx])"
      by (auto simp: ten2mat_def)
    moreover have "concat (map (\<lambda>t. map (\<lambda>j. T ! j ! i ! t) [0..<nb]) [0..<nx]) ! (t * nb + k)
        = map (\<lambda>j. T ! j ! i ! ([0..<nx] ! t)) [0..<nb] ! k"
      using k t by (intro concat_nth_block) simp_all
    ultimately show ?thesis using m1 k t by simp
  qed
qed

lemma reshape3_nth:
  assumes "reshape3 p (r, r', d) = Inr p3" "is_mat (r * r') d p" "s < r" "s' < r'" "i < d"
  shows "p3 ! s ! s' ! i = p ! (s * r' + s') ! i"
proof -
  from assms(1) have "p3 ! s ! s' ! i = concat p ! ((s * r' + s') * d + i)"
    using assms(3-5) by (auto simp: reshape3_def split: if_splits)
  also have "\<dots> = concat (map (\<lambda>row. row) p) ! ((s * r' + s') * d + i)" by simp
  also have "\<dots> = p ! (s * r' + s') ! i"
  proof (rule concat_nth_block)
    show "\<forall>x\<in>set p. length x = d" using assms(2) by (simp add: is_mat_def list_all_iff)
    have "s * r' + s' < s * r' + r'" using assms(4) by simp
    also have "\<dots> = Suc s * r'" by simp
    also have "\<dots> \<le> r * r'" using assms(3) by (intro mult_le_mono1) simp
    finally show "s * r' + s' < length p" using assms(2) by (simp add: is_mat_def)
    show "i < d" by fact
  qed
  finally show ?thesis .
qed

lemma entity_contribution_entries:
  assumes A: "is_mat nx r A" and B: "is_mat nb r B"
    and pos: "0 < nx" "0 < nb" "0 < nf"
    and T: "is_ten (if mode = 0 then (nf, nb, nx) else (nb, nf, nx)) T"
    and mode: "mode = 0 \<or> mode = 1"
    and kr: "kr_prod A B = Inr kr"
    and var2: "kr_prod (transpose_mat kr) (transpose_mat kr) = Inr var2"
    and tim: "ten2mat T mode = Inr tim"
    and p: "matmul var2 (transpose_mat tim) = Inr p"
    and p3: "reshape3 p (r, r, nf) = Inr p3"
    and i: "i < nf" and s: "s < r" "s' < r"
  shows "slice3 p3 i ! s ! s' =
     (\<Sum>t<nx. \<Sum>k<nb. (A ! t ! s * B ! k ! s) * (A ! t ! s' * B ! k ! s')
                         * (if mode = 0 then T ! i ! k ! t else T ! k ! i ! t))"
proof -
  let ?c = "nx * nb"
  have c: "0 < ?c" using pos by simp
  have krm: "is_mat ?c r kr" by (rule kr_prod_shape [OF kr A B])
  have v1: "is_mat r ?c (transpose_mat kr)" by (rule is_mat_transpose [OF krm c])
  have v2: "is_mat (r * r) ?c var2" by (rule kr_prod_shape [OF var2 v1 v1])
  have tm: "is_mat nf ?c tim" by (rule ten2mat_nth(1) [OF T mode pos(3,2) tim])
  have tT: "is_mat ?c nf (transpose_mat tim)" by (rule is_mat_transpose [OF tm pos(3)])
  from p have pm: "p = mprod var2 (transpose_mat tim)"
    by (auto simp: matmul_def split: if_splits)
  have pmat: "is_mat (r * r) nf p" unfolding pm by (rule mprod_is_mat [OF v2 tT c])
  have idx: "s * r + s' < r * r"
  proof -
    have "s * r + s' < s * r + r" using s by simp
    also have "\<dots> = Suc s * r" by simp
    also have "\<dots> \<le> r * r" using s by (intro mult_le_mono1) simp
    finally show ?thesis .
  qed
  have p3t: "is_ten (r, r, nf) p3" by (rule reshape3_rows [OF p3])
  then have "slice3 p3 i ! s ! s' = p3 ! s ! s' ! i"
    using s by (simp add: slice3_def is_ten_length is_ten_nth)
  also have "\<dots> = p ! (s * r + s') ! i" by (rule reshape3_nth [OF p3 pmat s i])
  also have "\<dots> = (\<Sum>l<?c. var2 ! (s * r + s') ! l * transpose_mat tim ! l ! i)"
    unfolding pm by (rule mprod_nth [OF v2 tT c idx i])
  also have "\<dots> = (\<Sum>l<?c. (kr ! l ! s * kr ! l ! s') * tim ! i ! l)"
  proof (rule sum.cong [OF refl])
    fix l assume "l \<in> {..<?c}"
    then have l: "l < ?c" by simp
    have "var2 ! (s * r + s') ! l = transpose_mat kr ! s ! l * transpose_mat kr ! s' ! l"
      by (rule kr_prod_nth [OF var2 v1 v1 s l])
    moreover have "transpose_mat kr ! s ! l = kr ! l ! s" by (rule transpose_nth [OF krm s(1) l])
    moreover have "transpose_mat kr ! s' ! l = kr ! l ! s'" by (rule transpose_nth [OF krm s(2) l])
    moreover have "transpose_mat tim ! l ! i = tim ! i ! l" by (rule transpose_nth [OF tm l i])
    ultimately show "var2 ! (s * r + s') ! l * transpose_mat tim ! l ! i
        = (kr ! l ! s * kr ! l ! s') * tim ! i ! l" by simp
  qed
  also have "\<dots> = (\<Sum>t<nx. \<Sum>k<nb. (kr ! (t * nb + k) ! s * kr ! (t * nb + k) ! s')
        * tim ! i ! (t * nb + k))"
    by (rule sum_blocks)
  also have "\<dots> = (\<Sum>t<nx. \<Sum>k<nb. (A ! t ! s * B ! k ! s) * (A ! t ! s' * B ! k ! s')
                         * (if mode = 0 then T ! i ! k ! t else T ! k ! i ! t))"
  proof (intro sum.cong refl)
    fix t k assume "t \<in> {..<nx}" "k \<in> {..<nb}"
    then have t: "t < nx" and k: "k < nb" by simp_all
    have "kr ! (t * nb + k) ! s = A ! t ! s * B ! k ! s"
      by (rule kr_prod_nth [OF kr A B t k s(1)])
    moreover have "kr ! (t * nb + k) ! s' = A ! t ! s' * B ! k ! s'"
      by (rule kr_prod_nth [OF kr A B t k s(2)])
    moreover have "tim ! i ! (t * nb + k) = (if mode = 0 then T ! i ! k ! t else T ! k ! i ! t)"
      by (rule ten2mat_nth(2) [OF T mode pos(3,2) tim i k t])
    ultimately show "(kr ! (t * nb + k) ! s * kr ! (t * nb + k) ! s') * tim ! i ! (t * nb + k)
        = (A ! t ! s * B ! k ! s) * (A ! t ! s' * B ! k ! s')
            * (if mode = 0 then T ! i ! k ! t else T ! k ! i ! t)"
      by simp
  qed
  finally show ?thesis .
qed

lemma entity_linear_entries:
  assumes A: "is_mat nx r A" and B: "is_mat nb r B"
    and pos: "0 < nx" "0 < nb" "0 < nf"
    and T: "is_ten (if mode = 0 then (nf, nb, nx) else (nb, nf, nx)) T"
    and mode: "mode = 0 \<or> mode = 1"
    and kr: "kr_prod A B = Inr kr"
    and tsm: "ten2mat T mode = Inr tsm"
    and q: "matmul (transpose_mat kr) (transpose_mat tsm) = Inr q"
    and i: "i < nf" and s: "s < r"
  shows "column q i ! s =
     (\<Sum>t<nx. \<Sum>k<nb. (A ! t ! s * B ! k ! s)
                         * (if mode = 0 then T ! i ! k ! t else T ! k ! i ! t))"
proof -
  let ?c = "nx * nb"
  have c: "0 < ?c" using pos by simp
  have krm: "is_mat ?c r kr" by (rule kr_prod_shape [OF kr A B])
  have v1: "is_mat r ?c (transpose_mat kr)" by (rule is_mat_transpose [OF krm c])
  have tm: "is_mat nf ?c tsm" by (rule ten2mat_nth(1) [OF T mode pos(3,2) tsm])
  have tT: "is_mat ?c nf (transpose_mat tsm)" by (rule is_mat_transpose [OF tm pos(3)])
  from q have qm: "q = mprod (transpose_mat kr) (transpose_mat tsm)"
    by (auto simp: matmul_def split: if_splits)
  have qmat: "is_mat r nf q" unfolding qm by (rule mprod_is_mat [OF v1 tT c])
  then have "column q i ! s = q ! s ! i" using s by (simp add: column_def is_mat_length)
  also have "\<dots> = (\<Sum>l<?c. transpose_mat kr ! s ! l * transpose_mat tsm ! l ! i)"
    unfolding qm by (rule mprod_nth [OF v1 tT c s i])
  also have "\<dots> = (\<Sum>l<?c. kr ! l ! s * tsm ! i ! l)"
  proof (rule sum.cong [OF refl])
    fix l assume "l \<in> {..<?c}"
    then have l: "l < ?c" by simp
    have "transpose_mat kr ! s ! l = kr ! l ! s" by (rule transpose_nth [OF krm s l])
    moreover have "transpose_mat tsm ! l ! i = tsm ! i ! l" by (rule transpose_nth [OF tm l i])
    ultimately show "transpose_mat kr ! s ! l * transpose_mat tsm ! l ! i = kr ! l ! s * tsm ! i ! l"
      by simp
  qed
  also have "\<dots> = (\<Sum>t<nx. \<Sum>k<nb. kr ! (t * nb + k) ! s * tsm ! i ! (t * nb + k))"
    by (rule sum_blocks)
  also have "\<dots> = (\<Sum>t<nx. \<Sum>k<nb. (A ! t ! s * B ! k ! s)
                         * (if mode = 0 then T ! i ! k ! t else T ! k ! i ! t))"
  proof (intro sum.cong refl)
    fix t k assume "t \<in> {..<nx}" "k \<in> {..<nb}"
    then have t: "t < nx" and k: "k < nb" by simp_all
    have "kr ! (t * nb + k) ! s = A ! t ! s * B ! k ! s"
      by (rule kr_prod_nth [OF kr A B t k s])
    moreover have "tsm ! i ! (t * nb + k) = (if mode = 0 then T ! i ! k ! t else T ! k ! i ! t)"
      by (rule ten2mat_nth(2) [OF T mode pos(3,2) tsm i k t])
    ultimately show "kr ! (t * nb + k) ! s * tsm ! i ! (t * nb + k)
        = (A ! t ! s * B ! k ! s) * (if mode = 0 then T ! i ! k ! t else T ! k ! i ! t)"
      by simp
  qed
  finally show ?thesis .
qed

lemma two_row_rows:
  "\<exists>m' g'. sample_factor_u lib2 [[[1, 0]], [[0, 2]]] [[[1, 0]], [[0, 1]]] 0 1 2 1 (two_row_mats, 0)
      = Inr (m', g') \<and> m' 0 = [[2 / 3, 1 / 3], [1 / 3, 7 / 6]]"
  by (simp add: sampler_defs two_row_mats_def lib2_defs arr_defs upt_conv_Cons Let_def)

text \<open>
  Claim C4. When \<open>sample_factor_u\<close> returns (\<open>F = U\<close>, \<open>B = V\<close>, mode 0), or
  \<open>sample_factor_v\<close> (\<open>F = V\<close>, \<open>B = U\<close>, mode 1): with \<open>(\<mu>, \<Lambda>)\<close> the hyperparameters
  drawn once from \<open>F\<close>, and the data contributions \<open>p3\<close> (from the Khatri-Rao product
  of \<open>X\<close> and \<open>B\<close> and the unfolded mask) and \<open>q\<close> (from that product and the unfolded
  data), all computed from the matrices the store held at the call, row \<open>i\<close> of the
  new \<open>F\<close> is the draw of \<open>mvnrnd_pre\<close> with precision \<open>p3[:, :, i] + \<Lambda>\<close> and mean the
  solution of that precision against \<open>q[:, i] + \<Lambda> \<mu>\<close>. The generator's states are
  consumed in the order of \<open>i\<close>; nothing else of the rows written earlier in the call
  enters row \<open>i\<close>, and no other matrix of the store changes. For matrices with \<open>R\<close>
  columns and tensors of the matching shape, \<open>p3[s, s', i]\<close> is the sum over \<open>t\<close> and
  \<open>k\<close> of \<open>(X[t, s] B[k, s]) (X[t, s'] B[k, s'])\<close> times the mask entry for row \<open>i\<close> of
  \<open>F\<close>, row \<open>k\<close> of \<open>B\<close> and time \<open>t\<close>, and \<open>q[s, i]\<close> the sum of \<open>X[t, s] B[k, s]\<close>
  times the data entry.
\<close>

theorem entity_rows_independent:
  assumes call:
    "(sample_factor_u L ts ti U V X beta0 (m, g) = Inr (m', g') \<and> mode = 0 \<and> f = U \<and> b = V) \<or>
     (sample_factor_v L ts ti U V X beta0 (m, g) = Inr (m', g') \<and> mode = 1 \<and> f = V \<and> b = U)"
  shows "\<exists>mu Lam g2 kr var2 tim p p3 tsm q gs.
     factor_hyper L (m f) beta0 g = Inr (mu, Lam, g2) \<and>
     kr_prod (m X) (m b) = Inr kr \<and>
     kr_prod (transpose_mat kr) (transpose_mat kr) = Inr var2 \<and>
     ten2mat ti mode = Inr tim \<and> matmul var2 (transpose_mat tim) = Inr p \<and>
     reshape3 p (ncols (m f), ncols (m f), length (m f)) = Inr p3 \<and>
     ten2mat ts mode = Inr tsm \<and> matmul (transpose_mat kr) (transpose_mat tsm) = Inr q \<and>
     length gs = length (m f) + 1 \<and> gs ! 0 = g2 \<and> gs ! length (m f) = g' \<and>
     length (m' f) = length (m f) \<and>
     (\<forall>i<length (m f). \<exists>c mean.
         vec_add (column q i) (matvec Lam mu) = Inr c \<and>
         solve L (madd (slice3 p3 i) Lam) c = Inr mean \<and>
         mvnrnd_pre L mean (madd (slice3 p3 i) Lam) (gs ! i) = Inr (m' f ! i, gs ! (i + 1))) \<and>
     (\<forall>ref. ref \<noteq> f \<longrightarrow> m' ref = m ref) \<and>
     (is_mat nf R (m f) \<and> is_mat nb R (m b) \<and> is_mat nx R (m X) \<and>
      0 < nf \<and> 0 < nb \<and> 0 < nx \<and>
      is_ten (if mode = 0 then (nf, nb, nx) else (nb, nf, nx)) ti \<and>
      is_ten (if mode = 0 then (nf, nb, nx) else (nb, nf, nx)) ts \<longrightarrow>
      (\<forall>i<nf. \<forall>s<R.
         column q i ! s =
           (\<Sum>t<nx. \<Sum>k<nb. (m X ! t ! s * m b ! k ! s)
               * (if mode = 0 then ts ! i ! k ! t else ts ! k ! i ! t)) \<and>
         (\<forall>s'<R. slice3 p3 i ! s ! s' =
           (\<Sum>t<nx. \<Sum>k<nb. (m X ! t ! s * m b ! k ! s) * (m X ! t ! s' * m b ! k ! s')
               * (if mode = 0 then ti ! i ! k ! t else ti ! k ! i ! t)))))"
proof -
  from call have ent: "sample_entity L mode ts ti f X b beta0 (m, g) = Inr (m', g')"
    and mode: "mode = 0 \<or> mode = 1"
    by (auto simp: sample_factor_u_def sample_factor_v_def)
  from sample_entity_rows [OF ent] obtain mu Lam g2 kr var2 tim p p3 tsm q gs where
    code: "factor_hyper L (m f) beta0 g = Inr (mu, Lam, g2)"
      "kr_prod (m X) (m b) = Inr kr"
      "kr_prod (transpose_mat kr) (transpose_mat kr) = Inr var2"
      "ten2mat ti mode = Inr tim" "matmul var2 (transpose_mat tim) = Inr p"
      "reshape3 p (ncols (m f), ncols (m f), length (m f)) = Inr p3"
      "ten2mat ts mode = Inr tsm" "matmul (transpose_mat kr) (transpose_mat tsm) = Inr q"
      "length gs = length (m f) + 1" "gs ! 0 = g2" "gs ! length (m f) = g'"
      "length (m' f) = length (m f)"
    and rows: "\<forall>i<length (m f). \<exists>c mean.
         vec_add (column q i) (matvec Lam mu) = Inr c \<and>
         solve L (madd (slice3 p3 i) Lam) c = Inr mean \<and>
         mvnrnd_pre L mean (madd (slice3 p3 i) Lam) (gs ! i) = Inr (m' f ! i, gs ! (i + 1))"
    and frame: "\<forall>ref. ref \<noteq> f \<longrightarrow> m' ref = m ref"
    by blast
  have entries: "\<forall>i<nf. \<forall>s<R.
         column q i ! s =
           (\<Sum>t<nx. \<Sum>k<nb. (m X ! t ! s * m b ! k ! s)
               * (if mode = 0 then ts ! i ! k ! t else ts ! k ! i ! t)) \<and>
         (\<forall>s'<R. slice3 p3 i ! s ! s' =
           (\<Sum>t<nx. \<Sum>k<nb. (m X ! t ! s * m b ! k ! s) * (m X ! t ! s' * m b ! k ! s')
               * (if mode = 0 then ti ! i ! k ! t else ti ! k ! i ! t)))"
    if sh: "is_mat nf R (m f) \<and> is_mat nb R (m b) \<and> is_mat nx R (m X) \<and>
      0 < nf \<and> 0 < nb \<and> 0 < nx \<and>
      is_ten (if mode = 0 then (nf, nb, nx) else (nb, nf, nx)) ti \<and>
      is_ten (if mode = 0 then (nf, nb, nx) else (nb, nf, nx)) ts"
  proof (intro allI impI conjI)
    from sh have F: "is_mat nf R (m f)" and B: "is_mat nb R (m b)" and A: "is_mat nx R (m X)"
      and pos: "0 < nx" "0 < nb" "0 < nf"
      and Ti: "is_ten (if mode = 0 then (nf, nb, nx) else (nb, nf, nx)) ti"
      and Ts: "is_ten (if mode = 0 then (nf, nb, nx) else (nb, nf, nx)) ts"
      by blast+
    from F pos have "ncols (m f) = R" "length (m f) = nf"
      by (simp_all add: ncols_is_mat is_mat_length)
    with code(6) have p3: "reshape3 p (R, R, nf) = Inr p3" by simp
    fix i s assume i: "i < nf" and s: "s < R"
    show "column q i ! s =
           (\<Sum>t<nx. \<Sum>k<nb. (m X ! t ! s * m b ! k ! s)
               * (if mode = 0 then ts ! i ! k ! t else ts ! k ! i ! t))"
      by (rule entity_linear_entries [OF A B pos Ts mode code(2) code(7) code(8) i s])
    fix s' assume s': "s' < R"
    show "slice3 p3 i ! s ! s' =
           (\<Sum>t<nx. \<Sum>k<nb. (m X ! t ! s * m b ! k ! s) * (m X ! t ! s' * m b ! k ! s')
               * (if mode = 0 then ti ! i ! k ! t else ti ! k ! i ! t))"
      by (rule entity_contribution_entries
            [OF A B pos Ti mode code(2) code(3) code(4) code(5) p3 i s s'])
  qed
  from code rows frame entries show ?thesis by blast
qed

theorem entity_rows_independent_witness:
  "\<exists>m' g' mu Lam g2 q p3 c mean gs.
     sample_factor_u lib2 [[[1, 0]], [[0, 2]]] [[[1, 0]], [[0, 1]]] 0 1 2 1 (two_row_mats, 0)
       = Inr (m', g') \<and>
     is_mat 2 2 (two_row_mats 0) \<and> is_mat 1 2 (two_row_mats 1) \<and> is_mat 2 2 (two_row_mats 2) \<and>
     is_ten (2, 1, 2) [[[1, 0]], [[0, 2 :: real]]] \<and>
     is_ten (2, 1, 2) [[[1, 0]], [[0, 1 :: real]]] \<and>
     factor_hyper lib2 (two_row_mats 0) 1 0 = Inr (mu, Lam, g2) \<and>
     column q 1 ! 1 = 2 \<and> slice3 p3 1 ! 1 ! 1 = 1 \<and> slice3 p3 1 ! 0 ! 0 = 0 \<and>
     vec_add (column q 1) (matvec Lam mu) = Inr c \<and>
     solve lib2 (madd (slice3 p3 1) Lam) c = Inr mean \<and>
     mvnrnd_pre lib2 mean (madd (slice3 p3 1) Lam) (gs ! 1) = Inr (m' 0 ! 1, gs ! 2) \<and>
     m' 0 = [[2 / 3, 1 / 3], [1 / 3, 7 / 6]] \<and> m' 1 = two_row_mats 1 \<and> m' 2 = two_row_mats 2"
proof -
  let ?ts = "[[[1, 0]], [[0, 2 :: real]]]" and ?ti = "[[[1, 0]], [[0, 1 :: real]]]"
  from two_row_rows obtain m' and g' :: nat where
    run: "sample_factor_u lib2 ?ts ?ti 0 1 2 1 (two_row_mats, 0) = Inr (m', g')"
    and new: "m' 0 = [[2 / 3, 1 / 3], [1 / 3, 7 / 6]]"
    by blast
  have sh: "is_mat 2 2 (two_row_mats 0)" "is_mat 1 2 (two_row_mats 1)"
    "is_mat 2 2 (two_row_mats 2)" "is_ten (2, 1, 2) ?ts" "is_ten (2, 1, 2) ?ti"
    by (simp_all add: two_row_mats_def is_mat_def is_ten_def)
  from run have call:
    "(sample_factor_u lib2 ?ts ?ti 0 1 2 1 (two_row_mats, 0) = Inr (m', g')
        \<and> (0::nat) = 0 \<and> (0::nat) = 0 \<and> (1::nat) = 1) \<or>
     (sample_factor_v lib2 ?ts ?ti 0 1 2 1 (two_row_mats, 0) = Inr (m', g')
        \<and> (0::nat) = 1 \<and> (0::nat) = 1 \<and> (1::nat) = 0)"
    by simp
  from entity_rows_independent [OF call, where nf = 2 and nb = 1 and nx = 2 and R = 2]
  obtain mu Lam g2 q p3 gs where
    hyp: "factor_hyper lib2 (two_row_mats 0) 1 0 = Inr (mu, Lam, g2)"
    and rows: "\<forall>i<length (two_row_mats 0). \<exists>c mean.
         vec_add (column q i) (matvec Lam mu) = Inr c \<and>
         solve lib2 (madd (slice3 p3 i) Lam) c = Inr mean \<and>
         mvnrnd_pre lib2 mean (madd (slice3 p3 i) Lam) (gs ! i) = Inr (m' 0 ! i, gs ! (i + 1))"
    and frame: "\<forall>ref. ref \<noteq> 0 \<longrightarrow> m' ref = two_row_mats ref"
    and entries: "is_mat 2 2 (two_row_mats 0) \<and> is_mat 1 2 (two_row_mats 1) \<and>
      is_mat 2 2 (two_row_mats 2) \<and> (0::nat) < 2 \<and> (0::nat) < 1 \<and> (0::nat) < 2 \<and>
      is_ten (if (0::nat) = 0 then (2, 1, 2) else (1, 2, 2)) ?ti \<and>
      is_ten (if (0::nat) = 0 then (2, 1, 2) else (1, 2, 2)) ?ts \<longrightarrow>
      (\<forall>i<2. \<forall>s<2.
         column q i ! s =
           (\<Sum>t<2. \<Sum>k<1. (two_row_mats 2 ! t ! s * two_row_mats 1 ! k ! s)
               * (if (0::nat) = 0 then ?ts ! i ! k ! t else ?ts ! k ! i ! t)) \<and>
         (\<forall>s'<2. slice3 p3 i ! s ! s' =
           (\<Sum>t<2. \<Sum>k<1. (two_row_mats 2 ! t ! s * two_row_mats 1 ! k ! s)
               * (two_row_mats 2 ! t ! s' * two_row_mats 1 ! k ! s')
               * (if (0::nat) = 0 then ?ti ! i ! k ! t else ?ti ! k ! i ! t))))"
    by blast
  from entries sh have ent: "\<forall>i<2. \<forall>s<2.
         column q i ! s =
           (\<Sum>t<2. \<Sum>k<1. (two_row_mats 2 ! t ! s * two_row_mats 1 ! k ! s) * ?ts ! i ! k ! t) \<and>
         (\<forall>s'<2. slice3 p3 i ! s ! s' =
           (\<Sum>t<2. \<Sum>k<1. (two_row_mats 2 ! t ! s * two_row_mats 1 ! k ! s)
               * (two_row_mats 2 ! t ! s' * two_row_mats 1 ! k ! s') * ?ti ! i ! k ! t))"
    by simp
  have two: "(1::nat) < 2" "(0::nat) < 2" by simp_all
  from ent [rule_format, OF two(1) two(1), THEN conjunct1]
  have q11: "column q 1 ! 1 = 2"
    by (simp add: two_row_mats_def lessThan_Suc numeral_2_eq_2)
  from ent [rule_format, OF two(1) two(1), THEN conjunct2, rule_format, OF two(1)]
  have p11: "slice3 p3 1 ! 1 ! 1 = 1"
    by (simp add: two_row_mats_def lessThan_Suc numeral_2_eq_2)
  from ent [rule_format, OF two(1) two(2), THEN conjunct2, rule_format, OF two(2)]
  have p00: "slice3 p3 1 ! 0 ! 0 = 0"
    by (simp add: two_row_mats_def lessThan_Suc numeral_2_eq_2)
  have "(1::nat) < length (two_row_mats 0)" by (simp add: two_row_mats_def)
  from rows [rule_format, OF this] obtain c mean where
    row: "vec_add (column q 1) (matvec Lam mu) = Inr c"
      "solve lib2 (madd (slice3 p3 1) Lam) c = Inr mean"
      "mvnrnd_pre lib2 mean (madd (slice3 p3 1) Lam) (gs ! 1) = Inr (m' 0 ! 1, gs ! 2)"
    by (auto simp: numeral_2_eq_2)
  from frame have fr: "m' 1 = two_row_mats 1" "m' 2 = two_row_mats 2" by simp_all
  from run sh hyp q11 p11 p00 row new fr show ?thesis by blast
qed

subsection \<open>The shape of the reconstruction\<close>


lemma mvnrnd_pre_length:
  assumes "keeps_lengths L" "mvnrnd_pre L mu Lambda g = Inr (x, g')"
  shows "length x = length mu"
proof -
  obtain src g1 where n: "normrnd L (length mu) g = (src, g1)" by (cases "normrnd L (length mu) g")
  with assms(1) have "length src = length mu"
    by (metis fst_conv keeps_lengths_def)
  moreover from assms(2) n obtain C y where "solve_ut L C src = Inr y" "vec_add y mu = Inr x"
    by (auto simp: mvnrnd_pre_def and_then_eq_Inr)
  moreover from this assms(1) have "length y = length src" by (simp add: keeps_lengths_def)
  ultimately show ?thesis by (auto simp: vec_add_def vadd_def split: if_splits)
qed

lemma length_vec_add:
  assumes "vec_add a b = Inr c"
  shows "length c = (if length a = length b \<or> length b = 1 then length a else length b)"
  using assms by (auto simp: vec_add_def vadd_def split: if_splits)

lemma sample_entity_shapes:
  assumes L: "keeps_lengths L"
    and A: "is_mat na r (m a)" and B: "is_mat nb rb (m b)"
    and pos: "0 < na" "0 < nb" "0 < r" "0 < df"
    and tim: "\<forall>M. ten2mat ti mode = Inr M \<longrightarrow> is_mat df c M"
    and call: "sample_entity L mode ts ti f a b beta0 (m, g) = Inr (m', g')"
  shows "rb = r" "na * nb = c" "\<exists>r'. is_mat (length (m f)) r' (m' f)"
    "r * r * df = ncols (m f) * ncols (m f) * length (m f)"
proof -
  from sample_entity_rows [OF call] obtain mu Lam kr var2 M p p3 q gs where
    kr: "kr_prod (m a) (m b) = Inr kr"
    and var2: "kr_prod (transpose_mat kr) (transpose_mat kr) = Inr var2"
    and M: "ten2mat ti mode = Inr M" and p: "matmul var2 (transpose_mat M) = Inr p"
    and p3: "reshape3 p (ncols (m f), ncols (m f), length (m f)) = Inr p3"
    and len: "length (m' f) = length (m f)"
    and rows: "\<forall>i<length (m f). \<exists>c mean.
         vec_add (column q i) (matvec Lam mu) = Inr c \<and>
         solve L (madd (slice3 p3 i) Lam) c = Inr mean \<and>
         mvnrnd_pre L mean (madd (slice3 p3 i) Lam) (gs ! i) = Inr (m' f ! i, gs ! (i + 1))"
    by blast
  from kr have "ncols (m a) = ncols (m b)" by (auto simp: kr_prod_def split: if_splits)
  with A B pos show rb: "rb = r" by (simp add: ncols_is_mat)
  with B have B': "is_mat nb r (m b)" by simp
  have krm: "is_mat (na * nb) r kr" by (rule kr_prod_shape [OF kr A B'])
  have v1: "is_mat r (na * nb) (transpose_mat kr)"
    using pos by (intro is_mat_transpose [OF krm]) simp
  have v2: "is_mat (r * r) (na * nb) var2" by (rule kr_prod_shape [OF var2 v1 v1])
  from p have "ncols var2 = length (transpose_mat M)"
    by (auto simp: matmul_def split: if_splits)
  moreover have "ncols var2 = na * nb"
    using pos by (intro ncols_is_mat [OF v2]) simp
  moreover have "length (transpose_mat M) = c"
    using tim [rule_format, OF M] pos by (simp add: transpose_mat_def ncols_is_mat)
  ultimately show c: "na * nb = c" by simp
  have tT: "is_mat (na * nb) df (transpose_mat M)"
    using is_mat_transpose [OF tim [rule_format, OF M] pos(4)] c by simp
  from p have "p = mprod var2 (transpose_mat M)" by (auto simp: matmul_def split: if_splits)
  with mprod_is_mat [OF v2 tT] pos have "is_mat (r * r) df p" by simp
  from length_concat_is_mat [OF this] p3
  show "r * r * df = ncols (m f) * ncols (m f) * length (m f)"
    by (auto simp: reshape3_def split: if_splits)
  let ?r' = "if length q = length (matvec Lam mu) \<or> length (matvec Lam mu) = 1
             then length q else length (matvec Lam mu)"
  have "is_mat (length (m f)) ?r' (m' f)"
  proof (rule is_matI [OF len])
    fix i assume "i < length (m f)"
    with rows obtain c mean where c: "vec_add (column q i) (matvec Lam mu) = Inr c"
      and s: "solve L (madd (slice3 p3 i) Lam) c = Inr mean"
      and d: "mvnrnd_pre L mean (madd (slice3 p3 i) Lam) (gs ! i) = Inr (m' f ! i, gs ! (i + 1))"
      by blast
    from mvnrnd_pre_length [OF L d] have "length (m' f ! i) = length mean" .
    also from L s have "\<dots> = length c" by (simp add: keeps_lengths_def)
    also from length_vec_add [OF c] have "\<dots> = ?r'" by simp
    finally show "length (m' f ! i) = ?r'" .
  qed
  then show "\<exists>r'. is_mat (length (m f)) r' (m' f)" ..
qed

lemma sample_factor_x_length:
  assumes "sample_factor_x L ts ti U V X beta0 (m, g) = Inr (m', g')"
  shows "length (m' ref) = length (m ref)"
proof -
  from assms obtain var3 var4 Lam mu g2 where
    loop: "x_loop L var3 var4 Lam mu X (length (m X)) [0..<length (m X)] (m, g2) = Inr (m', g')"
    by (auto simp: sample_factor_x_def and_then_eq_Inr)
  show ?thesis
  proof (cases "ref = X")
    case True
    with x_loop_rows [OF loop refl] show ?thesis by simp
  next
    case False
    with x_loop_frame [OF loop] show ?thesis by simp
  qed
qed

lemma shape3_einsum:
  assumes "einsum Um Vm Xm = Inr T" "0 < length Um" "0 < length Vm"
  shows "shape3 T = (length Um, length Vm, length Xm)"
proof -
  from assms(2,3) obtain u us v vs where "Um = u # us" "Vm = v # vs"
    by (cases Um; cases Vm) auto
  with assms(1) show ?thesis
    by (auto simp: einsum_def shape3_def ncols_def split: if_splits)
qed

lemma sweep_shape:
  assumes L: "keeps_lengths L"
    and U: "is_mat nU rU (m U)" and V: "is_mat nV rV (m V)" and X: "is_mat nX rX (m X)"
    and pos: "0 < nU" "0 < nV" "0 < nX" "0 < rX"
    and refs: "U \<noteq> V" "U \<noteq> X" "V \<noteq> X"
    and ti: "is_ten (d1, d2, d3) ti" and dims: "0 < d1" "0 < d2" "0 < d3"
    and u: "sample_factor_u L ts ti U V X beta0 (m, g) = Inr (m1, g1)"
    and v: "sample_factor_v L ts ti U V X beta0 (m1, g1) = Inr (m2, g2)"
    and x: "sample_factor_x L ts ti U V X beta0 (m2, g2) = Inr (m3, g3)"
    and e: "einsum (m3 U) (m3 V) (m3 X) = Inr tensor_hat"
  shows "shape3 tensor_hat = (d1, d2, d3)"
proof -
  from u have eu: "sample_entity L 0 ts ti U X V beta0 (m, g) = Inr (m1, g1)"
    by (simp add: sample_factor_u_def)
  from v have ev: "sample_entity L 1 ts ti V X U beta0 (m1, g1) = Inr (m2, g2)"
    by (simp add: sample_factor_v_def)
  have t0: "\<forall>M. ten2mat ti 0 = Inr M \<longrightarrow> is_mat d1 (d3 * d2) M"
    using ten2mat_0 [OF ti dims(1,2)] by auto
  have t1: "\<forall>M. ten2mat ti 1 = Inr M \<longrightarrow> is_mat d2 (d3 * d1) M"
    using ten2mat_1 [OF ti dims(1,2)] by auto
  from sample_entity_shapes [OF L X V pos(3,2,4) dims(1) t0 eu] obtain rU' where
    r1: "rV = rX" and c1: "nX * nV = d3 * d2" and U1: "is_mat nU rU' (m1 U)"
    using U by (auto simp: is_mat_length)
  from sample_entity_frame [OF eu] refs have fr1: "m1 V = m V" "m1 X = m X" by simp_all
  from X fr1 have X1: "is_mat nX rX (m1 X)" by simp
  from sample_entity_shapes(2,4) [OF L X1 U1 pos(3,1,4) dims(2) t1 ev]
  have c2: "nX * nU = d3 * d1"
    and s2: "rX * rX * d2 = ncols (m1 V) * ncols (m1 V) * length (m1 V)" .
  from V fr1 pos r1 have "ncols (m1 V) = rX" "length (m1 V) = nV"
    by (simp_all add: ncols_is_mat is_mat_length)
  with s2 pos have nV: "nV = d2" by simp
  with c1 dims have nX: "nX = d3" by simp
  with c2 dims have nU: "nU = d1" by simp
  have lens: "length (m3 U) = nU" "length (m3 V) = nV" "length (m3 X) = nX"
    using sample_factor_x_length [OF x] sample_entity_length [OF ev] sample_entity_length [OF eu]
      U V X by (simp_all add: is_mat_length)
  from shape3_einsum [OF e] lens pos nU nV nX show ?thesis by simp
qed

subsection \<open>The posterior mean, entry by entry\<close>

lemma einsum_nth:
  assumes "einsum Um Vm Xm = Inr T" "i < length Um" "j < length Vm" "t < length Xm"
  shows "T ! i ! j ! t = (\<Sum>s<length (Um ! i). Um ! i ! s * Vm ! j ! s * Xm ! t ! s)"
proof -
  from assms(1) have "T = map (\<lambda>u. map (\<lambda>v. map (\<lambda>x.
            sum_list (map (\<lambda>s. u ! s * v ! s * x ! s) [0..<length u])) Xm) Vm) Um"
    by (auto simp: einsum_def split: if_splits)
  with assms(2-4) show ?thesis
    by (simp add: interv_sum_list_conv_sum_set_nat atLeast0LessThan)
qed

lemma einsum_is_ten:
  assumes "einsum Um Vm Xm = Inr T"
  shows "is_ten (length Um, length Vm, length Xm) T"
  using assms by (auto simp: einsum_def is_ten_def is_mat_def list_all_iff split: if_splits)

lemma einsum_lengths:
  assumes "einsum Um Vm Xm = Inr T" "shape3 T = (a, b, c)" "0 < a" "0 < b"
  shows "length Um = a \<and> length Vm = b \<and> length Xm = c"
proof -
  from assms(1) have T: "T = map (\<lambda>u. map (\<lambda>v. map (\<lambda>x.
            sum_list (map (\<lambda>s. u ! s * v ! s * x ! s) [0..<length u])) Xm) Vm) Um"
    by (auto simp: einsum_def split: if_splits)
  with assms(2,3) have a: "length Um = a" by (simp add: shape3_def)
  with assms(3) obtain u us where U: "Um = u # us" by (cases Um) auto
  with T assms(2) have b: "length Vm = b" by (simp add: shape3_def ncols_def)
  with assms(4) obtain v vs where "Vm = v # vs" by (cases Vm) auto
  with T U assms(2) have "length Xm = c" by (simp add: shape3_def ncols_def)
  with a b show ?thesis by simp
qed

lemma tadd_is_ten:
  assumes "is_ten s A" "is_ten s B"
  shows "is_ten s (tadd A B)"
  using assms by (cases s) (auto simp: is_ten_def is_mat_def tadd_def list_all_length)

lemma at3_tadd:
  assumes "is_ten s A" "is_ten s B" "in_shape s p"
  shows "at3 (tadd A B) p = at3 A p + at3 B p"
  using assms
  by (cases s; cases p) (auto simp: is_ten_def is_mat_def tadd_def list_all_length at3_def in_shape_def)

lemma foldl_tadd_sum:
  assumes "\<forall>h\<in>set hs. is_ten s h" "is_ten s acc" "in_shape s p"
  shows "is_ten s (foldl tadd acc hs) \<and>
     at3 (foldl tadd acc hs) p = at3 acc p + (\<Sum>k<length hs. at3 (hs ! k) p)"
  using assms
proof (induction hs arbitrary: acc)
  case Nil
  then show ?case by simp
next
  case (Cons h hs)
  then have h: "is_ten s h" and hs: "\<forall>h\<in>set hs. is_ten s h" by simp_all
  have acc': "is_ten s (tadd acc h)" by (rule tadd_is_ten [OF Cons.prems(2) h])
  from Cons.IH [OF hs acc' Cons.prems(3)]
  have "is_ten s (foldl tadd (tadd acc h) hs)"
    and "at3 (foldl tadd (tadd acc h) hs) p = at3 (tadd acc h) p + (\<Sum>k<length hs. at3 (hs ! k) p)"
    by simp_all
  moreover have "at3 (tadd acc h) p = at3 acc p + at3 h p"
    by (rule at3_tadd [OF Cons.prems(2) h Cons.prems(3)])
  moreover have "(\<Sum>k<length (h # hs). at3 ((h # hs) ! k) p)
      = at3 h p + (\<Sum>k<length hs. at3 (hs ! k) p)"
    by (simp add: sum.lessThan_Suc_shift del: sum.lessThan_Suc)
  ultimately show ?case by simp
qed

lemma zeros3_is_ten: "is_ten s (zeros3 s)"
  by (cases s) (simp add: zeros3_def is_ten_def is_mat_def list_all_length)

lemma at3_zeros3: "in_shape s p \<Longrightarrow> at3 (zeros3 s) p = 0"
  by (cases s; cases p) (simp add: zeros3_def at3_def in_shape_def)

lemma at3_map3': "is_ten s T \<Longrightarrow> in_shape s p \<Longrightarrow> at3 (map3 f T) p = f (at3 T p)"
  by (cases s; cases p) (auto simp: is_ten_def is_mat_def map3_def at3_def in_shape_def list_all_length)

lemma sweep_hat_shape:
  assumes "sweep L P burn_iter it ch = Inr ch'"
  shows "\<exists>hat. reconstruct P ch' = Inr hat \<and>
     shape3 hat = shape3 (tens (s_store P) (s_sparse P))"
  using assms
  by (auto simp: sweep_def Let_def and_then_eq_Inr reconstruct_def sample_precision_tau_def
      split: if_splits)

lemma setup_sparse_shape:
  assumes "BPTF_setup st dense_tensor sparse_tensor ini = Inr P"
  shows "shape3 (tens (s_store P) (s_sparse P)) = s_dim P"
  using BPTF_setup_store [OF assms] BPTF_setup_locals(5,6) [OF assms]
  by (simp split: if_splits)

lemma unobserved_run:
  "\<exists>P c0 c1 c2 out. BPTF_setup unobserved_store 0 1 example_init = Inr P \<and>
     sweep lib2 P 1 0 (start_chain P 0) = Inr c0 \<and>
     sweep lib2 P 1 1 c0 = Inr c1 \<and>
     sweep lib2 P 1 2 c1 = Inr c2 \<and>
     c_mats c0 0 = [[1 / 2, 0]] \<and> c_mats c0 1 = [[1 / 2, 1 / 2]] \<and>
     c_mats c0 2 = [[1 / 4, 1 / 2], [1 / 4, 1 / 2]] \<and>
     c_mats c1 0 = [[1 / 4, 0]] \<and> c_mats c1 1 = [[1 / 4, 1 / 4]] \<and>
     c_mats c1 2 = [[3 / 16, 3 / 8], [3 / 16, 3 / 8]] \<and>
     c_mats c2 0 = [[1 / 8, 0]] \<and> c_mats c2 1 = [[1 / 8, 1 / 8]] \<and>
     c_mats c2 2 = [[9 / 64, 9 / 32], [9 / 64, 9 / 32]] \<and>
     BPTF lib2 0 1 example_init 1 2 (unobserved_store, 0) = Inr out \<and>
     o_tensor_hat out = [[[Fin (57 / 8192), Fin (57 / 8192)]]]"
  by (simp add: loop_defs setup_defs sampler_defs unobserved_store_def example_init_def
      two_slice_mats_def lib2_defs arr_defs upt_conv_Cons)

text \<open>
  Claim C1. When BPTF returns, with at least one sweep in each phase: there are the
  chain states after each of the \<open>burn_iter + gibbs_iter\<close> sweeps, each the result of
  one sweep from the one before, and their reconstructions \<open>hats\<close>; entry \<open>(i, j, t)\<close>
  of the reconstruction of sweep \<open>k\<close> is the sum over the rank index \<open>s\<close> of
  \<open>U[i, s] V[j, s] X[t, s]\<close> for the \<open>U\<close>, \<open>V\<close>, \<open>X\<close> that sweep has just written; and
  entry \<open>(i, j, t)\<close> of the returned tensor is the sum of that entry of the last
  \<open>gibbs_iter\<close> reconstructions, divided by \<open>gibbs_iter\<close>. The first \<open>burn_iter\<close>
  reconstructions do not enter it.
\<close>

theorem BPTF_posterior_mean:
  assumes "BPTF L dense_tensor sparse_tensor ini burn_iter gibbs_iter (st, g) = Inr out"
    and "1 \<le> burn_iter" "1 \<le> gibbs_iter"
  shows "\<exists>P chs hats.
     BPTF_setup st dense_tensor sparse_tensor ini = Inr P \<and>
     length chs = burn_iter + gibbs_iter \<and> length hats = burn_iter + gibbs_iter \<and>
     (\<forall>k < burn_iter + gibbs_iter.
         sweep L P burn_iter k ((start_chain P g # chs) ! k) = Inr (chs ! k) \<and>
         reconstruct P (chs ! k) = Inr (hats ! k) \<and>
         (\<forall>i j t. in_shape (s_dim P) (i, j, t) \<longrightarrow>
            hats ! k ! i ! j ! t =
              (\<Sum>s<length (c_mats (chs ! k) (s_U P) ! i).
                 c_mats (chs ! k) (s_U P) ! i ! s * c_mats (chs ! k) (s_V P) ! j ! s
                   * c_mats (chs ! k) (s_X P) ! t ! s))) \<and>
     length (drop burn_iter hats) = gibbs_iter \<and>
     o_tensor_hat out =
       map3 (\<lambda>x. Fin (x / real gibbs_iter)) (foldl tadd (zeros3 (s_dim P)) (drop burn_iter hats)) \<and>
     (\<forall>i j t. in_shape (s_dim P) (i, j, t) \<longrightarrow>
        o_tensor_hat out ! i ! j ! t =
          Fin ((\<Sum>k<gibbs_iter. hats ! (burn_iter + k) ! i ! j ! t) / real gibbs_iter))"
proof -
  let ?n = "burn_iter + gibbs_iter"
  from assms(1) obtain P ch where P: "BPTF_setup st dense_tensor sparse_tensor ini = Inr P"
    and sw: "sweeps L P burn_iter [0..<0 + ?n] (start_chain P g) = Inr ch"
    and fin: "BPTF_finish P gibbs_iter ch = Inr out"
    by (auto simp: BPTF_def and_then_eq_Inr)
  from sweeps_accumulate [OF sw] obtain chs hats where
    len: "length chs = ?n" "length hats = ?n"
    and steps: "\<forall>k<?n.
       sweep L P burn_iter (0 + k) ((start_chain P g # chs) ! k) = Inr (chs ! k) \<and>
       reconstruct P (chs ! k) = Inr (hats ! k)"
    and acc: "c_tensor_hat_plus ch =
       foldl tadd (c_tensor_hat_plus (start_chain P g)) (drop (burn_iter - 0) hats)"
    by blast
  have hat: "is_ten (s_dim P) (hats ! k) \<and>
      hats ! k ! i ! j ! t =
        (\<Sum>s<length (c_mats (chs ! k) (s_U P) ! i).
           c_mats (chs ! k) (s_U P) ! i ! s * c_mats (chs ! k) (s_V P) ! j ! s
             * c_mats (chs ! k) (s_X P) ! t ! s)"
    if k: "k < ?n" and p: "in_shape (s_dim P) (i, j, t)" for k i j t
  proof -
    obtain a b c where dim: "s_dim P = (a, b, c)" by (cases "s_dim P")
    with p have pos: "i < a" "j < b" "t < c" by (simp_all add: in_shape_def)
    from steps k have s: "sweep L P burn_iter k ((start_chain P g # chs) ! k) = Inr (chs ! k)"
      and r: "reconstruct P (chs ! k) = Inr (hats ! k)" by simp_all
    from sweep_hat_shape [OF s] r have "shape3 (hats ! k) = s_dim P"
      by (simp add: setup_sparse_shape [OF P])
    with dim have sh: "shape3 (hats ! k) = (a, b, c)" by simp
    from r have e: "einsum (c_mats (chs ! k) (s_U P)) (c_mats (chs ! k) (s_V P))
        (c_mats (chs ! k) (s_X P)) = Inr (hats ! k)"
      by (simp add: reconstruct_def)
    from einsum_lengths [OF e sh] pos have l: "length (c_mats (chs ! k) (s_U P)) = a"
      "length (c_mats (chs ! k) (s_V P)) = b" "length (c_mats (chs ! k) (s_X P)) = c"
      by simp_all
    from einsum_is_ten [OF e] l dim have "is_ten (s_dim P) (hats ! k)" by simp
    moreover from einsum_nth [OF e] l pos have "hats ! k ! i ! j ! t =
        (\<Sum>s<length (c_mats (chs ! k) (s_U P) ! i).
           c_mats (chs ! k) (s_U P) ! i ! s * c_mats (chs ! k) (s_V P) ! j ! s
             * c_mats (chs ! k) (s_X P) ! t ! s)"
      by simp
    ultimately show ?thesis ..
  qed
  from fin assms(3) have res: "o_tensor_hat out =
      map3 (\<lambda>x. Fin (x / real gibbs_iter)) (c_tensor_hat_plus ch)"
    by (auto simp: BPTF_finish_def Let_def and_then_eq_Inr count_div_def)
  with acc have res': "o_tensor_hat out =
       map3 (\<lambda>x. Fin (x / real gibbs_iter)) (foldl tadd (zeros3 (s_dim P)) (drop burn_iter hats))"
    by (simp add: start_chain_def)
  have dl: "length (drop burn_iter hats) = gibbs_iter" using len by simp
  have entry: "o_tensor_hat out ! i ! j ! t =
          Fin ((\<Sum>k<gibbs_iter. hats ! (burn_iter + k) ! i ! j ! t) / real gibbs_iter)"
    if p: "in_shape (s_dim P) (i, j, t)" for i j t
  proof -
    have all: "\<forall>h\<in>set (drop burn_iter hats). is_ten (s_dim P) h"
    proof
      fix h assume "h \<in> set (drop burn_iter hats)"
      then obtain k where "k < gibbs_iter" "h = drop burn_iter hats ! k"
        using dl by (auto simp: in_set_conv_nth)
      with len have "h = hats ! (burn_iter + k)" "burn_iter + k < ?n" by simp_all
      with hat [OF _ p] show "is_ten (s_dim P) h" by simp
    qed
    from foldl_tadd_sum [OF all zeros3_is_ten p]
    have ten: "is_ten (s_dim P) (foldl tadd (zeros3 (s_dim P)) (drop burn_iter hats))"
      and sum: "at3 (foldl tadd (zeros3 (s_dim P)) (drop burn_iter hats)) (i, j, t) =
        at3 (zeros3 (s_dim P)) (i, j, t)
          + (\<Sum>k<length (drop burn_iter hats). at3 (drop burn_iter hats ! k) (i, j, t))"
      by simp_all
    have "o_tensor_hat out ! i ! j ! t = at3 (o_tensor_hat out) (i, j, t)"
      by (simp add: at3_def)
    also have "\<dots> = Fin (at3 (foldl tadd (zeros3 (s_dim P)) (drop burn_iter hats)) (i, j, t)
        / real gibbs_iter)"
      unfolding res' by (rule at3_map3' [OF ten p])
    also have "at3 (foldl tadd (zeros3 (s_dim P)) (drop burn_iter hats)) (i, j, t)
        = (\<Sum>k<gibbs_iter. hats ! (burn_iter + k) ! i ! j ! t)"
    proof -
      have "at3 (zeros3 (s_dim P)) (i, j, t) = 0" by (rule at3_zeros3 [OF p])
      moreover have "(\<Sum>k<length (drop burn_iter hats). at3 (drop burn_iter hats ! k) (i, j, t))
          = (\<Sum>k<gibbs_iter. hats ! (burn_iter + k) ! i ! j ! t)"
        using len by (simp add: at3_def)
      ultimately show ?thesis unfolding sum by simp
    qed
    finally show ?thesis .
  qed
  from P len steps hat dl res' entry show ?thesis
    by (intro exI [of _ P] exI [of _ chs] exI [of _ hats]) simp
qed

theorem BPTF_posterior_mean_witness:
  "\<exists>out P (chs :: nat chain list) (hats :: ten list).
     BPTF lib2 0 1 example_init 1 2 (unobserved_store, 0) = Inr out \<and>
     (1::nat) \<le> 1 \<and> (1::nat) \<le> 2 \<and>
     BPTF_setup unobserved_store 0 1 example_init = Inr P \<and>
     s_dim P = (1, 1, 2) \<and> length chs = 3 \<and> length hats = 3 \<and>
     sweep lib2 P 1 0 (start_chain P 0) = Inr (chs ! 0) \<and>
     sweep lib2 P 1 1 (chs ! 0) = Inr (chs ! 1) \<and>
     sweep lib2 P 1 2 (chs ! 1) = Inr (chs ! 2) \<and>
     c_mats (chs ! 1) 0 = [[1 / 4, 0]] \<and> c_mats (chs ! 1) 1 = [[1 / 4, 1 / 4]] \<and>
     c_mats (chs ! 1) 2 = [[3 / 16, 3 / 8], [3 / 16, 3 / 8]] \<and>
     c_mats (chs ! 2) 0 = [[1 / 8, 0]] \<and> c_mats (chs ! 2) 1 = [[1 / 8, 1 / 8]] \<and>
     c_mats (chs ! 2) 2 = [[9 / 64, 9 / 32], [9 / 64, 9 / 32]] \<and>
     hats ! 0 ! 0 ! 0 ! 1 = 1 / 16 \<and>
     hats ! 1 ! 0 ! 0 ! 1 = 3 / 256 \<and> hats ! 2 ! 0 ! 0 ! 1 = 9 / 4096 \<and>
     o_tensor_hat out ! 0 ! 0 ! 1 = Fin ((3 / 256 + 9 / 4096) / 2) \<and>
     o_tensor_hat out = [[[Fin (57 / 8192), Fin (57 / 8192)]]]"
proof -
  from unobserved_run obtain P and c0 c1 c2 :: "nat chain" and out where
    P: "BPTF_setup unobserved_store 0 1 example_init = Inr P"
    and s0: "sweep lib2 P 1 0 (start_chain P 0) = Inr c0"
    and s1: "sweep lib2 P 1 1 c0 = Inr c1"
    and s2: "sweep lib2 P 1 2 c1 = Inr c2"
    and m0: "c_mats c0 0 = [[1 / 2, 0]]" "c_mats c0 1 = [[1 / 2, 1 / 2]]"
      "c_mats c0 2 = [[1 / 4, 1 / 2], [1 / 4, 1 / 2]]"
    and m1: "c_mats c1 0 = [[1 / 4, 0]]" "c_mats c1 1 = [[1 / 4, 1 / 4]]"
      "c_mats c1 2 = [[3 / 16, 3 / 8], [3 / 16, 3 / 8]]"
    and m2: "c_mats c2 0 = [[1 / 8, 0]]" "c_mats c2 1 = [[1 / 8, 1 / 8]]"
      "c_mats c2 2 = [[9 / 64, 9 / 32], [9 / 64, 9 / 32]]"
    and out: "BPTF lib2 0 1 example_init 1 2 (unobserved_store, 0) = Inr out"
    and val: "o_tensor_hat out = [[[Fin (57 / 8192), Fin (57 / 8192)]]]"
    by blast
  have le: "(1::nat) \<le> 1" "(1::nat) \<le> 2" by simp_all
  from BPTF_setup_locals [OF P] have refs: "s_U P = 0" "s_V P = 1" "s_X P = 2"
    and dim: "s_dim P = (1, 1, 2)"
    by (simp_all add: example_init_def unobserved_store_def shape3_def ncols_def)
  from BPTF_posterior_mean [OF out le] obtain P' chs hats where
    P': "BPTF_setup unobserved_store 0 1 example_init = Inr P'"
    and len': "length chs = 1 + 2" "length hats = 1 + 2"
    and steps': "\<forall>k < 1 + 2.
         sweep lib2 P' 1 k ((start_chain P' 0 # chs) ! k) = Inr (chs ! k) \<and>
         reconstruct P' (chs ! k) = Inr (hats ! k) \<and>
         (\<forall>i j t. in_shape (s_dim P') (i, j, t) \<longrightarrow>
            hats ! k ! i ! j ! t =
              (\<Sum>s<length (c_mats (chs ! k) (s_U P') ! i).
                 c_mats (chs ! k) (s_U P') ! i ! s * c_mats (chs ! k) (s_V P') ! j ! s
                   * c_mats (chs ! k) (s_X P') ! t ! s))"
    and entry': "\<forall>i j t. in_shape (s_dim P') (i, j, t) \<longrightarrow>
        o_tensor_hat out ! i ! j ! t =
          Fin ((\<Sum>k<2. hats ! (1 + k) ! i ! j ! t) / real 2)"
    by blast
  from P P' have eq: "P' = P" by simp
  from len' have len: "length chs = 3" "length hats = 3" by simp_all
  from steps' have steps: "\<forall>k < 3.
         sweep lib2 P 1 k ((start_chain P 0 # chs) ! k) = Inr (chs ! k) \<and>
         reconstruct P (chs ! k) = Inr (hats ! k) \<and>
         (\<forall>i j t. in_shape (s_dim P) (i, j, t) \<longrightarrow>
            hats ! k ! i ! j ! t =
              (\<Sum>s<length (c_mats (chs ! k) (s_U P) ! i).
                 c_mats (chs ! k) (s_U P) ! i ! s * c_mats (chs ! k) (s_V P) ! j ! s
                   * c_mats (chs ! k) (s_X P) ! t ! s))"
    unfolding eq by simp
  note entry = entry' [unfolded eq]
  have p: "in_shape (s_dim P) (0, 0, 1)" by (simp add: dim in_shape_def)
  from steps [rule_format, of 0] s0 have c0: "chs ! 0 = c0" by simp
  from steps [rule_format, of 1] c0 s1 have c1: "chs ! 1 = c1" by simp
  from steps [rule_format, of 2] c1 s2 have c2: "chs ! 2 = c2" by simp
  from steps [rule_format, of 0, THEN conjunct2, THEN conjunct2, rule_format, OF _ p]
  have h0: "hats ! 0 ! 0 ! 0 ! 1 = 1 / 16"
    unfolding c0 refs m0 by (simp add: lessThan_Suc numeral_2_eq_2)
  from steps [rule_format, of 1, THEN conjunct2, THEN conjunct2, rule_format, OF _ p]
  have h1: "hats ! 1 ! 0 ! 0 ! 1 = 3 / 256"
    unfolding c1 refs m1 by (simp add: lessThan_Suc numeral_2_eq_2)
  from steps [rule_format, of 2, THEN conjunct2, THEN conjunct2, rule_format, OF _ p]
  have h2: "hats ! 2 ! 0 ! 0 ! 1 = 9 / 4096"
    unfolding c2 refs m2 by (simp add: lessThan_Suc numeral_2_eq_2)
  from entry [rule_format, OF p] h1 h2
  have e: "o_tensor_hat out ! 0 ! 0 ! 1 = Fin ((3 / 256 + 9 / 4096) / 2)"
    by (simp add: lessThan_Suc numeral_2_eq_2)
  from out le P dim len s0 s1 s2 c0 c1 c2 m1 m2 h0 h1 h2 e val show ?thesis
    by (intro exI [of _ out] exI [of _ P] exI [of _ chs] exI [of _ hats]) simp
qed

subsection \<open>Init matrices that do not fit the tensor\<close>








subsection \<open>The temporal sampler: rows and data contributions\<close>

lemma sample_factor_x_rows:
  assumes "sample_factor_x L tau_sparse_tensor tau_ind U V X beta0 (m, g) = Inr (m', g')"
  shows "\<exists>var3 var4 Lam mu g2 gs.
     x_prepare L tau_sparse_tensor tau_ind (m U) (m V) (m X) beta0 g = Inr (var3, var4, Lam, mu, g2) \<and>
     length (m' X) = length (m X) \<and> length gs = length (m X) + 1 \<and>
     gs ! 0 = g2 \<and> gs ! length (m X) = g' \<and> 2 \<le> length (m X) \<and>
     mvnrnd_pre L (sdiv (vadd (m X ! 1) mu) 2) (madd (slice3 var3 0) (msmult 2 Lam)) (gs ! 0)
        = Inr (m' X ! 0, gs ! 1) \<and>
     (\<forall>t. 0 < t \<and> t < length (m X) - 1 \<longrightarrow>
        (\<exists>c temp1 mean. getcol var4 t = Inr c \<and>
           vec_add c (matvec Lam (vadd (m' X ! (t - 1)) (m X ! (t + 1)))) = Inr temp1 \<and>
           solve L (madd (slice3 var3 t) (msmult 2 Lam)) temp1 = Inr mean \<and>
           mvnrnd_pre L mean (madd (slice3 var3 t) (msmult 2 Lam)) (gs ! t)
             = Inr (m' X ! t, gs ! (t + 1)))) \<and>
     (\<forall>t. 0 < t \<and> t = length (m X) - 1 \<longrightarrow>
        (\<exists>c temp1 mean. getcol var4 t = Inr c \<and>
           vec_add c (matvec Lam (m' X ! (t - 1))) = Inr temp1 \<and>
           solve L (madd (slice3 var3 t) Lam) temp1 = Inr mean \<and>
           mvnrnd_pre L mean (madd (slice3 var3 t) Lam) (gs ! t)
             = Inr (m' X ! t, gs ! (t + 1))))"
proof -
  let ?n = "length (m X)"
  from assms obtain var3 var4 Lam mu g2 where
    prep: "x_prepare L tau_sparse_tensor tau_ind (m U) (m V) (m X) beta0 g
             = Inr (var3, var4, Lam, mu, g2)"
    and loop: "x_loop L var3 var4 Lam mu X ?n [0..<?n] (m, g2) = Inr (m', g')"
    by (auto simp: sample_factor_x_def and_then_eq_Inr)
  from x_loop_rows [OF loop refl] obtain gs where
    len: "length (m' X) = ?n"
    and gs: "length gs = ?n + 1" "gs ! 0 = g2" "gs ! ?n = g'"
    and steps: "\<And>t. t < ?n \<Longrightarrow>
           x_step L var3 var4 Lam mu ?n t (take t (m' X) @ drop t (m X)) (gs ! t)
             = Inr (m' X ! t, gs ! (t + 1))"
    by auto
  have n2: "2 \<le> ?n"
  proof (rule ccontr)
    assume "\<not> 2 \<le> ?n"
    then have "?n = 0 \<or> ?n = 1" by arith
    then show False
    proof
      assume n0: "?n = 0"
      from prep show False
        by (auto simp: x_prepare_def x_hyper_def Let_def and_then_eq_Inr getrow_def n0)
    next
      assume "?n = 1"
      with sample_factor_x_single [of m X L tau_sparse_tensor tau_ind U V beta0 g] assms
      show False by simp
    qed
  qed
  have first: "mvnrnd_pre L (sdiv (vadd (m X ! 1) mu) 2)
        (madd (slice3 var3 0) (msmult 2 Lam)) (gs ! 0) = Inr (m' X ! 0, gs ! 1)"
  proof -
    from n2 have "0 < ?n" "Suc 0 < ?n" by arith+
    with steps [of 0] show ?thesis by (simp add: x_step_def getrow_def)
  qed
  have inner: "\<exists>c temp1 mean. getcol var4 t = Inr c \<and>
           vec_add c (matvec Lam (vadd (m' X ! (t - 1)) (m X ! (t + 1)))) = Inr temp1 \<and>
           solve L (madd (slice3 var3 t) (msmult 2 Lam)) temp1 = Inr mean \<and>
           mvnrnd_pre L mean (madd (slice3 var3 t) (msmult 2 Lam)) (gs ! t)
             = Inr (m' X ! t, gs ! (t + 1))"
    if t: "0 < t \<and> t < ?n - 1" for t
  proof -
    from t have tn: "t < ?n" "t \<le> ?n" "t - Suc 0 < t" "t \<le> Suc t" "Suc t < ?n" by arith+
    note nth = nth_new_old [OF len refl tn(2)]
    from steps [OF tn(1)] t tn show ?thesis
      by (auto simp: x_step_def getrow_def and_then_eq_Inr Let_def nth(3)
          nth(1) [OF tn(3)] nth(2) [OF tn(4) tn(5)] simp del: length_append nth_append
          split: if_splits)
  qed
  have final: "\<exists>c temp1 mean. getcol var4 t = Inr c \<and>
           vec_add c (matvec Lam (m' X ! (t - 1))) = Inr temp1 \<and>
           solve L (madd (slice3 var3 t) Lam) temp1 = Inr mean \<and>
           mvnrnd_pre L mean (madd (slice3 var3 t) Lam) (gs ! t)
             = Inr (m' X ! t, gs ! (t + 1))"
    if t: "0 < t \<and> t = ?n - 1" for t
  proof -
    from t n2 have tn: "t < ?n" "t \<le> ?n" "t - 1 < t" by arith+
    from t have t': "0 < t" "t = ?n - 1" by blast+
    note nth = nth_new_old [OF len refl tn(2)]
    from steps [OF tn(1)] tn(1,3) show ?thesis
      unfolding x_step_last [OF t'] getrow_def nth(3) nth(1) [OF tn(3)]
      by (auto simp: and_then_eq_Inr split: if_splits)
  qed
  from prep len gs n2 first inner final show ?thesis by blast
qed

lemma ten2mat_2_nth:
  assumes T: "is_ten (d1, d2, d3) T" and pos: "0 < d1" "0 < d2"
    and M: "ten2mat T 2 = Inr M"
  shows "is_mat d3 (d2 * d1) M"
    and "i < d1 \<Longrightarrow> j < d2 \<Longrightarrow> t < d3 \<Longrightarrow> M ! t ! (j * d1 + i) = T ! i ! j ! t"
proof -
  from ten2mat_2 [OF T pos] M show "is_mat d3 (d2 * d1) M" by auto
next
  assume i: "i < d1" and j: "j < d2" and t: "t < d3"
  from T pos have sh: "shape3 T = (d1, d2, d3)" by (simp add: shape3_is_ten)
  with M t have "M ! t = concat (map (\<lambda>j. map (\<lambda>i. T ! i ! j ! t) [0..<d1]) [0..<d2])"
    by (auto simp: ten2mat_def)
  moreover have "concat (map (\<lambda>j. map (\<lambda>i. T ! i ! j ! t) [0..<d1]) [0..<d2]) ! (j * d1 + i)
      = map (\<lambda>i. T ! i ! ([0..<d2] ! j) ! t) [0..<d1] ! i"
    using i j by (intro concat_nth_block) simp_all
  ultimately show "M ! t ! (j * d1 + i) = T ! i ! j ! t" using i j by simp
qed

lemma contribution_core:
  fixes E :: "nat \<Rightarrow> nat \<Rightarrow> real"
  assumes A: "is_mat nx r A" and B: "is_mat nb r B"
    and pos: "0 < nx" "0 < nb" "0 < nf"
    and kr: "kr_prod A B = Inr kr"
    and var2: "kr_prod (transpose_mat kr) (transpose_mat kr) = Inr var2"
    and tm: "is_mat nf (nx * nb) tim"
    and te: "\<And>k t. k < nb \<Longrightarrow> t < nx \<Longrightarrow> tim ! i ! (t * nb + k) = E k t"
    and p: "matmul var2 (transpose_mat tim) = Inr p"
    and p3: "reshape3 p (r, r, nf) = Inr p3"
    and i: "i < nf" and s: "s < r" "s' < r"
  shows "slice3 p3 i ! s ! s' =
     (\<Sum>t<nx. \<Sum>k<nb. (A ! t ! s * B ! k ! s) * (A ! t ! s' * B ! k ! s') * E k t)"
proof -
  let ?c = "nx * nb"
  have c: "0 < ?c" using pos by simp
  have krm: "is_mat ?c r kr" by (rule kr_prod_shape [OF kr A B])
  have v1: "is_mat r ?c (transpose_mat kr)" by (rule is_mat_transpose [OF krm c])
  have v2: "is_mat (r * r) ?c var2" by (rule kr_prod_shape [OF var2 v1 v1])
  have tT: "is_mat ?c nf (transpose_mat tim)" by (rule is_mat_transpose [OF tm pos(3)])
  from p have pm: "p = mprod var2 (transpose_mat tim)"
    by (auto simp: matmul_def split: if_splits)
  have pmat: "is_mat (r * r) nf p" unfolding pm by (rule mprod_is_mat [OF v2 tT c])
  have idx: "s * r + s' < r * r"
  proof -
    have "s * r + s' < s * r + r" using s by simp
    also have "\<dots> = Suc s * r" by simp
    also have "\<dots> \<le> r * r" using s by (intro mult_le_mono1) simp
    finally show ?thesis .
  qed
  have p3t: "is_ten (r, r, nf) p3" by (rule reshape3_rows [OF p3])
  then have "slice3 p3 i ! s ! s' = p3 ! s ! s' ! i"
    using s by (simp add: slice3_def is_ten_length is_ten_nth)
  also have "\<dots> = p ! (s * r + s') ! i" by (rule reshape3_nth [OF p3 pmat s i])
  also have "\<dots> = (\<Sum>l<?c. var2 ! (s * r + s') ! l * transpose_mat tim ! l ! i)"
    unfolding pm by (rule mprod_nth [OF v2 tT c idx i])
  also have "\<dots> = (\<Sum>l<?c. (kr ! l ! s * kr ! l ! s') * tim ! i ! l)"
  proof (rule sum.cong [OF refl])
    fix l assume "l \<in> {..<?c}"
    then have l: "l < ?c" by simp
    have "var2 ! (s * r + s') ! l = transpose_mat kr ! s ! l * transpose_mat kr ! s' ! l"
      by (rule kr_prod_nth [OF var2 v1 v1 s l])
    moreover have "transpose_mat kr ! s ! l = kr ! l ! s" by (rule transpose_nth [OF krm s(1) l])
    moreover have "transpose_mat kr ! s' ! l = kr ! l ! s'" by (rule transpose_nth [OF krm s(2) l])
    moreover have "transpose_mat tim ! l ! i = tim ! i ! l" by (rule transpose_nth [OF tm l i])
    ultimately show "var2 ! (s * r + s') ! l * transpose_mat tim ! l ! i
        = (kr ! l ! s * kr ! l ! s') * tim ! i ! l" by simp
  qed
  also have "\<dots> = (\<Sum>t<nx. \<Sum>k<nb. (kr ! (t * nb + k) ! s * kr ! (t * nb + k) ! s')
        * tim ! i ! (t * nb + k))"
    by (rule sum_blocks)
  also have "\<dots> = (\<Sum>t<nx. \<Sum>k<nb. (A ! t ! s * B ! k ! s) * (A ! t ! s' * B ! k ! s') * E k t)"
  proof (intro sum.cong refl)
    fix t k assume "t \<in> {..<nx}" "k \<in> {..<nb}"
    then have t: "t < nx" and k: "k < nb" by simp_all
    have "kr ! (t * nb + k) ! s = A ! t ! s * B ! k ! s"
      by (rule kr_prod_nth [OF kr A B t k s(1)])
    moreover have "kr ! (t * nb + k) ! s' = A ! t ! s' * B ! k ! s'"
      by (rule kr_prod_nth [OF kr A B t k s(2)])
    moreover have "tim ! i ! (t * nb + k) = E k t" by (rule te [OF k t])
    ultimately show "(kr ! (t * nb + k) ! s * kr ! (t * nb + k) ! s') * tim ! i ! (t * nb + k)
        = (A ! t ! s * B ! k ! s) * (A ! t ! s' * B ! k ! s') * E k t"
      by simp
  qed
  finally show ?thesis .
qed

lemma linear_core:
  fixes E :: "nat \<Rightarrow> nat \<Rightarrow> real"
  assumes A: "is_mat nx r A" and B: "is_mat nb r B"
    and pos: "0 < nx" "0 < nb" "0 < nf"
    and kr: "kr_prod A B = Inr kr"
    and tm: "is_mat nf (nx * nb) tsm"
    and te: "\<And>k t. k < nb \<Longrightarrow> t < nx \<Longrightarrow> tsm ! i ! (t * nb + k) = E k t"
    and q: "matmul (transpose_mat kr) (transpose_mat tsm) = Inr q"
    and i: "i < nf" and s: "s < r"
  shows "column q i ! s = (\<Sum>t<nx. \<Sum>k<nb. (A ! t ! s * B ! k ! s) * E k t)"
proof -
  let ?c = "nx * nb"
  have c: "0 < ?c" using pos by simp
  have krm: "is_mat ?c r kr" by (rule kr_prod_shape [OF kr A B])
  have v1: "is_mat r ?c (transpose_mat kr)" by (rule is_mat_transpose [OF krm c])
  have tT: "is_mat ?c nf (transpose_mat tsm)" by (rule is_mat_transpose [OF tm pos(3)])
  from q have qm: "q = mprod (transpose_mat kr) (transpose_mat tsm)"
    by (auto simp: matmul_def split: if_splits)
  have qmat: "is_mat r nf q" unfolding qm by (rule mprod_is_mat [OF v1 tT c])
  then have "column q i ! s = q ! s ! i" using s by (simp add: column_def is_mat_length)
  also have "\<dots> = (\<Sum>l<?c. transpose_mat kr ! s ! l * transpose_mat tsm ! l ! i)"
    unfolding qm by (rule mprod_nth [OF v1 tT c s i])
  also have "\<dots> = (\<Sum>l<?c. kr ! l ! s * tsm ! i ! l)"
  proof (rule sum.cong [OF refl])
    fix l assume "l \<in> {..<?c}"
    then have l: "l < ?c" by simp
    have "transpose_mat kr ! s ! l = kr ! l ! s" by (rule transpose_nth [OF krm s l])
    moreover have "transpose_mat tsm ! l ! i = tsm ! i ! l" by (rule transpose_nth [OF tm l i])
    ultimately show "transpose_mat kr ! s ! l * transpose_mat tsm ! l ! i = kr ! l ! s * tsm ! i ! l"
      by simp
  qed
  also have "\<dots> = (\<Sum>t<nx. \<Sum>k<nb. kr ! (t * nb + k) ! s * tsm ! i ! (t * nb + k))"
    by (rule sum_blocks)
  also have "\<dots> = (\<Sum>t<nx. \<Sum>k<nb. (A ! t ! s * B ! k ! s) * E k t)"
  proof (intro sum.cong refl)
    fix t k assume "t \<in> {..<nx}" "k \<in> {..<nb}"
    then have t: "t < nx" and k: "k < nb" by simp_all
    have "kr ! (t * nb + k) ! s = A ! t ! s * B ! k ! s"
      by (rule kr_prod_nth [OF kr A B t k s])
    moreover have "tsm ! i ! (t * nb + k) = E k t" by (rule te [OF k t])
    ultimately show "kr ! (t * nb + k) ! s * tsm ! i ! (t * nb + k) = (A ! t ! s * B ! k ! s) * E k t"
      by simp
  qed
  finally show ?thesis .
qed

lemma x_prepare_entries:
  assumes prep: "x_prepare L ts ti Um Vm Xm beta0 g = Inr (var3, var4, Lam, mu, g2)"
    and U: "is_mat d1 R Um" and V: "is_mat d2 R Vm" and X: "is_mat d3 R Xm"
    and pos: "0 < d1" "0 < d2" "0 < d3"
    and Ti: "is_ten (d1, d2, d3) ti" and Ts: "is_ten (d1, d2, d3) ts"
    and t: "t < d3" and s: "s < R"
  shows "column var4 t ! s =
       (\<Sum>j<d2. \<Sum>i<d1. (Vm ! j ! s * Um ! i ! s) * ts ! i ! j ! t)"
    and "s' < R \<Longrightarrow> slice3 var3 t ! s ! s' =
       (\<Sum>j<d2. \<Sum>i<d1. (Vm ! j ! s * Um ! i ! s) * (Vm ! j ! s' * Um ! i ! s') * ti ! i ! j ! t)"
proof -
  from prep obtain kr var2 tim p tsm where
    kr: "kr_prod Vm Um = Inr kr"
    and var2: "kr_prod (transpose_mat kr) (transpose_mat kr) = Inr var2"
    and tim: "ten2mat ti 2 = Inr tim"
    and p: "matmul var2 (transpose_mat tim) = Inr p"
    and p3: "reshape3 p (ncols Xm, ncols Xm, length Xm) = Inr var3"
    and tsm: "ten2mat ts 2 = Inr tsm"
    and q: "matmul (transpose_mat kr) (transpose_mat tsm) = Inr var4"
    by (auto simp: x_prepare_def Let_def and_then_eq_Inr)
  from X pos have "ncols Xm = R" "length Xm = d3" by (simp_all add: ncols_is_mat is_mat_length)
  with p3 have p3': "reshape3 p (R, R, d3) = Inr var3" by simp
  note tm = ten2mat_2_nth(1) [OF Ti pos(1,2) tim]
  note sm = ten2mat_2_nth(1) [OF Ts pos(1,2) tsm]
  have te: "tim ! t ! (j * d1 + i) = ti ! i ! j ! t" if "i < d1" "j < d2" for i j
    by (rule ten2mat_2_nth(2) [OF Ti pos(1,2) tim that t])
  have se: "tsm ! t ! (j * d1 + i) = ts ! i ! j ! t" if "i < d1" "j < d2" for i j
    by (rule ten2mat_2_nth(2) [OF Ts pos(1,2) tsm that t])
  show "column var4 t ! s =
       (\<Sum>j<d2. \<Sum>i<d1. (Vm ! j ! s * Um ! i ! s) * ts ! i ! j ! t)"
    by (rule linear_core [OF V U pos(2,1,3) kr sm se q t s])
  assume s': "s' < R"
  show "slice3 var3 t ! s ! s' =
       (\<Sum>j<d2. \<Sum>i<d1. (Vm ! j ! s * Um ! i ! s) * (Vm ! j ! s' * Um ! i ! s') * ti ! i ! j ! t)"
    by (rule contribution_core [OF V U pos(2,1,3) kr var2 tm te p p3' t s s'])
qed

lemma x_prepare_hyper:
  assumes "x_prepare L ts ti Um Vm Xm beta0 g = Inr (var3, var4, Lam, mu, g2)"
  shows "x_hyper L Xm beta0 g = Inr (mu, Lam, g2)"
  using assms by (auto simp: x_prepare_def Let_def and_then_eq_Inr)

lemma three_slice_run:
  "\<exists>m' g'. sample_factor_x lib2 [[[1, 0, 2]]] [[[1, 0, 1]]] 0 1 2 1 (three_slice_mats, 0)
      = Inr (m', g') \<and>
     m' 2 = [[1 / 4, 1 / 2], [5 / 8, 3 / 4], [21 / 16, 3 / 4]]"
  by (simp add: sampler_defs three_slice_mats_def lib2_defs arr_defs upt_conv_Cons Let_def)

text \<open>
  Claim C3. When \<open>sample_factor_x\<close> returns, with \<open>var3\<close>, \<open>var4\<close> the data
  contributions and \<open>(\<mu>, \<Lambda>)\<close> the hyperparameters that the statements before the loop
  computed from the store as it was at the call: the generator's states \<open>gs\<close> are
  consumed in the order of \<open>t\<close>, and row \<open>t\<close> of the new \<open>X\<close> is
  \<^item> for \<open>t = 0\<close>, the draw with mean \<open>(X[1] + \<mu>) / 2\<close> (\<open>X[1]\<close> the old row; \<open>var4\<close> is
    not used) and precision \<open>var3[:, :, 0] + 2 \<Lambda>\<close>;
  \<^item> for the last \<open>t\<close>, the draw with precision \<open>var3[:, :, t] + \<Lambda>\<close> and mean the
    solution of that precision against \<open>var4[:, t] + \<Lambda> X'[t - 1]\<close>;
  \<^item> for a \<open>t\<close> between, the draw with precision \<open>var3[:, :, t] + 2 \<Lambda>\<close> and mean the
    solution against \<open>var4[:, t] + \<Lambda> (X'[t - 1] + X[t + 1])\<close>;
  where \<open>X'[t - 1]\<close> is the row written earlier in this call and \<open>X[t + 1]\<close> the row
  the call found. For matrices with \<open>R\<close> columns and tensors of the matching shape,
  \<open>var3[s, s', t]\<close> is the sum over \<open>j\<close> and \<open>i\<close> of \<open>(V[j, s] U[i, s]) (V[j, s'] U[i, s'])\<close>
  times the mask entry \<open>(i, j, t)\<close>, and \<open>var4[s, t]\<close> the sum of \<open>V[j, s] U[i, s]\<close> times
  the data entry \<open>(i, j, t)\<close>.
\<close>

theorem sample_factor_x_sequential:
  assumes "sample_factor_x L tau_sparse_tensor tau_ind U V X beta0 (m, g) = Inr (m', g')"
  shows "\<exists>var3 var4 Lam mu g2 gs.
     x_prepare L tau_sparse_tensor tau_ind (m U) (m V) (m X) beta0 g = Inr (var3, var4, Lam, mu, g2) \<and>
     length (m' X) = length (m X) \<and> length gs = length (m X) + 1 \<and>
     gs ! 0 = g2 \<and> gs ! length (m X) = g' \<and> 2 \<le> length (m X) \<and>
     mvnrnd_pre L (sdiv (vadd (m X ! 1) mu) 2) (madd (slice3 var3 0) (msmult 2 Lam)) (gs ! 0)
        = Inr (m' X ! 0, gs ! 1) \<and>
     (\<forall>t. 0 < t \<and> t < length (m X) - 1 \<longrightarrow>
        (\<exists>c temp1 mean. getcol var4 t = Inr c \<and>
           vec_add c (matvec Lam (vadd (m' X ! (t - 1)) (m X ! (t + 1)))) = Inr temp1 \<and>
           solve L (madd (slice3 var3 t) (msmult 2 Lam)) temp1 = Inr mean \<and>
           mvnrnd_pre L mean (madd (slice3 var3 t) (msmult 2 Lam)) (gs ! t)
             = Inr (m' X ! t, gs ! (t + 1)))) \<and>
     (\<forall>t. 0 < t \<and> t = length (m X) - 1 \<longrightarrow>
        (\<exists>c temp1 mean. getcol var4 t = Inr c \<and>
           vec_add c (matvec Lam (m' X ! (t - 1))) = Inr temp1 \<and>
           solve L (madd (slice3 var3 t) Lam) temp1 = Inr mean \<and>
           mvnrnd_pre L mean (madd (slice3 var3 t) Lam) (gs ! t)
             = Inr (m' X ! t, gs ! (t + 1)))) \<and>
     x_hyper L (m X) beta0 g = Inr (mu, Lam, g2) \<and>
     (\<forall>ref. ref \<noteq> X \<longrightarrow> m' ref = m ref) \<and>
     (is_mat d1 R (m U) \<and> is_mat d2 R (m V) \<and> is_mat d3 R (m X) \<and>
      0 < d1 \<and> 0 < d2 \<and> 0 < d3 \<and>
      is_ten (d1, d2, d3) tau_ind \<and> is_ten (d1, d2, d3) tau_sparse_tensor \<longrightarrow>
      (\<forall>t<d3. \<forall>s<R.
         column var4 t ! s =
           (\<Sum>j<d2. \<Sum>i<d1. (m V ! j ! s * m U ! i ! s) * tau_sparse_tensor ! i ! j ! t) \<and>
         (\<forall>s'<R. slice3 var3 t ! s ! s' =
           (\<Sum>j<d2. \<Sum>i<d1. (m V ! j ! s * m U ! i ! s) * (m V ! j ! s' * m U ! i ! s')
               * tau_ind ! i ! j ! t))))"
proof -
  from sample_factor_x_rows [OF assms] obtain var3 var4 Lam mu g2 gs where
    prep: "x_prepare L tau_sparse_tensor tau_ind (m U) (m V) (m X) beta0 g
             = Inr (var3, var4, Lam, mu, g2)"
    and rows: "length (m' X) = length (m X) \<and> length gs = length (m X) + 1 \<and>
     gs ! 0 = g2 \<and> gs ! length (m X) = g' \<and> 2 \<le> length (m X) \<and>
     mvnrnd_pre L (sdiv (vadd (m X ! 1) mu) 2) (madd (slice3 var3 0) (msmult 2 Lam)) (gs ! 0)
        = Inr (m' X ! 0, gs ! 1) \<and>
     (\<forall>t. 0 < t \<and> t < length (m X) - 1 \<longrightarrow>
        (\<exists>c temp1 mean. getcol var4 t = Inr c \<and>
           vec_add c (matvec Lam (vadd (m' X ! (t - 1)) (m X ! (t + 1)))) = Inr temp1 \<and>
           solve L (madd (slice3 var3 t) (msmult 2 Lam)) temp1 = Inr mean \<and>
           mvnrnd_pre L mean (madd (slice3 var3 t) (msmult 2 Lam)) (gs ! t)
             = Inr (m' X ! t, gs ! (t + 1)))) \<and>
     (\<forall>t. 0 < t \<and> t = length (m X) - 1 \<longrightarrow>
        (\<exists>c temp1 mean. getcol var4 t = Inr c \<and>
           vec_add c (matvec Lam (m' X ! (t - 1))) = Inr temp1 \<and>
           solve L (madd (slice3 var3 t) Lam) temp1 = Inr mean \<and>
           mvnrnd_pre L mean (madd (slice3 var3 t) Lam) (gs ! t)
             = Inr (m' X ! t, gs ! (t + 1))))"
    by blast
  have hyp: "x_hyper L (m X) beta0 g = Inr (mu, Lam, g2)" by (rule x_prepare_hyper [OF prep])
  have frame: "\<forall>ref. ref \<noteq> X \<longrightarrow> m' ref = m ref"
    using sample_factor_x_frame [OF assms] by simp
  have entries: "\<forall>t<d3. \<forall>s<R.
         column var4 t ! s =
           (\<Sum>j<d2. \<Sum>i<d1. (m V ! j ! s * m U ! i ! s) * tau_sparse_tensor ! i ! j ! t) \<and>
         (\<forall>s'<R. slice3 var3 t ! s ! s' =
           (\<Sum>j<d2. \<Sum>i<d1. (m V ! j ! s * m U ! i ! s) * (m V ! j ! s' * m U ! i ! s')
               * tau_ind ! i ! j ! t))"
    if sh: "is_mat d1 R (m U) \<and> is_mat d2 R (m V) \<and> is_mat d3 R (m X) \<and>
      0 < d1 \<and> 0 < d2 \<and> 0 < d3 \<and>
      is_ten (d1, d2, d3) tau_ind \<and> is_ten (d1, d2, d3) tau_sparse_tensor"
  proof (intro allI impI conjI)
    from sh have Um: "is_mat d1 R (m U)" and Vm: "is_mat d2 R (m V)" and Xm: "is_mat d3 R (m X)"
      and pos: "0 < d1" "0 < d2" "0 < d3"
      and Ti: "is_ten (d1, d2, d3) tau_ind" and Ts: "is_ten (d1, d2, d3) tau_sparse_tensor"
      by blast+
    fix t s assume t: "t < d3" and s: "s < R"
    show "column var4 t ! s =
           (\<Sum>j<d2. \<Sum>i<d1. (m V ! j ! s * m U ! i ! s) * tau_sparse_tensor ! i ! j ! t)"
      by (rule x_prepare_entries(1) [OF prep Um Vm Xm pos Ti Ts t s])
    fix s' assume s': "s' < R"
    show "slice3 var3 t ! s ! s' =
           (\<Sum>j<d2. \<Sum>i<d1. (m V ! j ! s * m U ! i ! s) * (m V ! j ! s' * m U ! i ! s')
               * tau_ind ! i ! j ! t)"
      by (rule x_prepare_entries(2) [OF prep Um Vm Xm pos Ti Ts t s s'])
  qed
  from prep rows hyp frame entries show ?thesis by blast
qed

theorem sample_factor_x_sequential_witness:
  "\<exists>m' g' var3 var4 Lam mu gs c1 t1 m1 c2 t2 m2.
     sample_factor_x lib2 [[[1, 0, 2]]] [[[1, 0, 1]]] 0 1 2 1 (three_slice_mats, 0) = Inr (m', g') \<and>
     is_mat 1 2 (three_slice_mats 0) \<and> is_mat 1 2 (three_slice_mats 1) \<and>
     is_mat 3 2 (three_slice_mats 2) \<and>
     is_ten (1, 1, 3) [[[1, 0, 1 :: real]]] \<and> is_ten (1, 1, 3) [[[1, 0, 2 :: real]]] \<and>
     length (three_slice_mats 2) = 3 \<and> length (m' 2) = 3 \<and>
     column var4 2 ! 0 = 2 \<and> slice3 var3 2 ! 0 ! 0 = 1 \<and> slice3 var3 1 ! 0 ! 0 = 0 \<and>
     mvnrnd_pre lib2 (sdiv (vadd (three_slice_mats 2 ! 1) mu) 2)
        (madd (slice3 var3 0) (msmult 2 Lam)) (gs ! 0) = Inr (m' 2 ! 0, gs ! 1) \<and>
     getcol var4 1 = Inr c1 \<and>
     vec_add c1 (matvec Lam (vadd (m' 2 ! 0) (three_slice_mats 2 ! 2))) = Inr t1 \<and>
     solve lib2 (madd (slice3 var3 1) (msmult 2 Lam)) t1 = Inr m1 \<and>
     mvnrnd_pre lib2 m1 (madd (slice3 var3 1) (msmult 2 Lam)) (gs ! 1) = Inr (m' 2 ! 1, gs ! 2) \<and>
     getcol var4 2 = Inr c2 \<and>
     vec_add c2 (matvec Lam (m' 2 ! 1)) = Inr t2 \<and>
     solve lib2 (madd (slice3 var3 2) Lam) t2 = Inr m2 \<and>
     mvnrnd_pre lib2 m2 (madd (slice3 var3 2) Lam) (gs ! 2) = Inr (m' 2 ! 2, g') \<and>
     three_slice_mats 2 = [[1, 0], [0, 1], [1, 1]] \<and>
     m' 2 = [[1 / 4, 1 / 2], [5 / 8, 3 / 4], [21 / 16, 3 / 4]] \<and>
     m' 0 = three_slice_mats 0 \<and> m' 1 = three_slice_mats 1"
proof -
  let ?ts = "[[[1, 0, 2 :: real]]]" and ?ti = "[[[1, 0, 1 :: real]]]"
  from three_slice_run obtain m' and g' :: nat where
    run: "sample_factor_x lib2 ?ts ?ti 0 1 2 1 (three_slice_mats, 0) = Inr (m', g')"
    and new: "m' 2 = [[1 / 4, 1 / 2], [5 / 8, 3 / 4], [21 / 16, 3 / 4]]"
    by blast
  have n: "length (three_slice_mats 2) = 3" by (simp add: three_slice_mats_def)
  have old: "three_slice_mats 2 = [[1, 0], [0, 1], [1, 1]]" by (simp add: three_slice_mats_def)
  have sh: "is_mat 1 2 (three_slice_mats 0)" "is_mat 1 2 (three_slice_mats 1)"
    "is_mat 3 2 (three_slice_mats 2)" "is_ten (1, 1, 3) ?ti" "is_ten (1, 1, 3) ?ts"
    by (simp_all add: three_slice_mats_def is_mat_def is_ten_def)
  from sample_factor_x_sequential [OF run, where ?d1.0 = 1 and ?d2.0 = 1 and ?d3.0 = 3 and R = 2]
  obtain var3 var4 Lam mu gs where
    len: "length (m' 2) = length (three_slice_mats 2)"
    and last: "gs ! length (three_slice_mats 2) = g'"
    and first: "mvnrnd_pre lib2 (sdiv (vadd (three_slice_mats 2 ! 1) mu) 2)
        (madd (slice3 var3 0) (msmult 2 Lam)) (gs ! 0) = Inr (m' 2 ! 0, gs ! 1)"
    and inner: "\<forall>t. 0 < t \<and> t < length (three_slice_mats 2) - 1 \<longrightarrow>
        (\<exists>c temp1 mean. getcol var4 t = Inr c \<and>
           vec_add c (matvec Lam (vadd (m' 2 ! (t - 1)) (three_slice_mats 2 ! (t + 1)))) = Inr temp1 \<and>
           solve lib2 (madd (slice3 var3 t) (msmult 2 Lam)) temp1 = Inr mean \<and>
           mvnrnd_pre lib2 mean (madd (slice3 var3 t) (msmult 2 Lam)) (gs ! t)
             = Inr (m' 2 ! t, gs ! (t + 1)))"
    and final: "\<forall>t. 0 < t \<and> t = length (three_slice_mats 2) - 1 \<longrightarrow>
        (\<exists>c temp1 mean. getcol var4 t = Inr c \<and>
           vec_add c (matvec Lam (m' 2 ! (t - 1))) = Inr temp1 \<and>
           solve lib2 (madd (slice3 var3 t) Lam) temp1 = Inr mean \<and>
           mvnrnd_pre lib2 mean (madd (slice3 var3 t) Lam) (gs ! t)
             = Inr (m' 2 ! t, gs ! (t + 1)))"
    and frame: "\<forall>ref. ref \<noteq> 2 \<longrightarrow> m' ref = three_slice_mats ref"
    and entries: "is_mat 1 2 (three_slice_mats 0) \<and> is_mat 1 2 (three_slice_mats 1) \<and>
      is_mat 3 2 (three_slice_mats 2) \<and> (0::nat) < 1 \<and> (0::nat) < 1 \<and> (0::nat) < 3 \<and>
      is_ten (1, 1, 3) ?ti \<and> is_ten (1, 1, 3) ?ts \<longrightarrow>
      (\<forall>t<3. \<forall>s<2.
         column var4 t ! s =
           (\<Sum>j<1. \<Sum>i<1. (three_slice_mats 1 ! j ! s * three_slice_mats 0 ! i ! s)
               * ?ts ! i ! j ! t) \<and>
         (\<forall>s'<2. slice3 var3 t ! s ! s' =
           (\<Sum>j<1. \<Sum>i<1. (three_slice_mats 1 ! j ! s * three_slice_mats 0 ! i ! s)
               * (three_slice_mats 1 ! j ! s' * three_slice_mats 0 ! i ! s') * ?ti ! i ! j ! t)))"
    by (elim exE conjE) (rule that; assumption)
  have pre: "is_mat 1 2 (three_slice_mats 0) \<and> is_mat 1 2 (three_slice_mats 1) \<and>
      is_mat 3 2 (three_slice_mats 2) \<and> (0::nat) < 1 \<and> (0::nat) < 1 \<and> (0::nat) < 3 \<and>
      is_ten (1, 1, 3) ?ti \<and> is_ten (1, 1, 3) ?ts"
    using sh by simp
  note ent = entries [THEN mp, OF pre, rule_format]
  have lt: "(2::nat) < 3" "(1::nat) < 3" "(0::nat) < 2" by simp_all
  from ent [OF lt(1) lt(3), THEN conjunct1]
  have q20: "column var4 2 ! 0 = 2" by (simp add: three_slice_mats_def)
  from ent [OF lt(1) lt(3), THEN conjunct2, rule_format, OF lt(3)]
  have p200: "slice3 var3 2 ! 0 ! 0 = 1" by (simp add: three_slice_mats_def)
  from ent [OF lt(2) lt(3), THEN conjunct2, rule_format, OF lt(3)]
  have p100: "slice3 var3 1 ! 0 ! 0 = 0" by (simp add: three_slice_mats_def)
  from inner [rule_format, of 1] n obtain c1 t1 m1 where
    i1: "getcol var4 1 = Inr c1"
      "vec_add c1 (matvec Lam (vadd (m' 2 ! 0) (three_slice_mats 2 ! 2))) = Inr t1"
      "solve lib2 (madd (slice3 var3 1) (msmult 2 Lam)) t1 = Inr m1"
      "mvnrnd_pre lib2 m1 (madd (slice3 var3 1) (msmult 2 Lam)) (gs ! 1) = Inr (m' 2 ! 1, gs ! 2)"
    by (auto simp: numeral_2_eq_2)
  from final [rule_format, of 2] n last obtain c2 t2 m2 where
    i2: "getcol var4 2 = Inr c2"
      "vec_add c2 (matvec Lam (m' 2 ! 1)) = Inr t2"
      "solve lib2 (madd (slice3 var3 2) Lam) t2 = Inr m2"
      "mvnrnd_pre lib2 m2 (madd (slice3 var3 2) Lam) (gs ! 2) = Inr (m' 2 ! 2, g')"
    by (auto simp: numeral_3_eq_3 numeral_2_eq_2)
  from frame have fr: "m' 0 = three_slice_mats 0" "m' 1 = three_slice_mats 1" by simp_all
  from len n have len3: "length (m' 2) = 3" by simp
  from run sh n len3 q20 p200 p100 first i1 i2 old new fr show ?thesis by blast
qed

end
